theory Spec2Isabelle
  imports Main "HOL-Library.Word"
begin

unbundle bit_operations_syntax

section \<open>Common conventions\<close>

text \<open>
  The development embeds the protocol and codec code of the RVPF native libraries:
  \<^item> \<^verbatim>\<open>store/CStoreImpl.c\<close>: the typed value codec;
  \<^item> \<^verbatim>\<open>store/HandlesMap.c\<close>: the handle to handle map;
  \<^item> \<^verbatim>\<open>lib/impl/rvpf_pipe.c\<close>: the PIPE endpoint;
  \<^item> \<^verbatim>\<open>lib/impl/rvpf_ssl.c\<close>: the TLS stream;
  \<^item> \<^verbatim>\<open>lib/impl/rvpf_xpvpc.c\<close>: the XPVPC client.

  C integers of a fixed width are words (\<open>jbyte\<close> is \<open>8 word\<close>, \<open>jint\<close> is \<open>32 word\<close>,
  \<open>jlong\<close> is \<open>64 word\<close>); \<open>size_t\<close> values are sizes of objects held in memory and are
  natural numbers. A C string is the list of its characters before the terminating NUL.
  A pointer that may be \<open>NULL\<close> is an \<open>option\<close>.
\<close>

datatype fault = Out_of_bounds | Assertion_failed

type_synonym 'a outcome = "fault + 'a"

definition obind :: "'a outcome \<Rightarrow> ('a \<Rightarrow> 'b outcome) \<Rightarrow> 'b outcome" where
  "obind m f = (case m of Inl e \<Rightarrow> Inl e | Inr x \<Rightarrow> f x)"

text \<open>The decimal text that \<^verbatim>\<open>printf("%i")\<close> and \<^verbatim>\<open>printf("%li")\<close> produce.\<close>

definition digit_char :: "nat \<Rightarrow> char" where
  "digit_char d = char_of (48 + d)"

function decimal_nat :: "nat \<Rightarrow> string" where
  "decimal_nat n = (if n < 10 then [digit_char n] else decimal_nat (n div 10) @ [digit_char (n mod 10)])"
  by pat_completeness auto
termination
  by (relation "measure id") auto

declare decimal_nat.simps [simp del]

definition decimal_int :: "int \<Rightarrow> string" where
  "decimal_int i = (if i < 0 then CHR ''-'' # decimal_nat (nat (- i)) else decimal_nat (nat i))"

section \<open>Value codec: definitions\<close>

type_synonym c_store_bool_t = "8 word"
type_synonym c_store_byte_t = "8 word"
type_synonym c_store_short_t = "16 word"
type_synonym c_store_int_t = "32 word"
type_synonym c_store_long_t = "64 word"

definition MAX_BYTES_BLOCK :: nat where
  "MAX_BYTES_BLOCK = 65534"

text \<open>The type codes of \<^verbatim>\<open>enum value_type\<close>, as the bytes they are.\<close>

definition VALUE_TYPE_NULL :: c_store_byte_t where "VALUE_TYPE_NULL = 0"
definition VALUE_TYPE_DOUBLE :: c_store_byte_t where "VALUE_TYPE_DOUBLE = 100"
definition VALUE_TYPE_LONG :: c_store_byte_t where "VALUE_TYPE_LONG = 106"
definition VALUE_TYPE_BOOLEAN :: c_store_byte_t where "VALUE_TYPE_BOOLEAN = 122"
definition VALUE_TYPE_SHORT :: c_store_byte_t where "VALUE_TYPE_SHORT = 115"
definition VALUE_TYPE_STRING :: c_store_byte_t where "VALUE_TYPE_STRING = 116"
definition VALUE_TYPE_BYTE_ARRAY :: c_store_byte_t where "VALUE_TYPE_BYTE_ARRAY = 97"
definition VALUE_TYPE_INTEGER :: c_store_byte_t where "VALUE_TYPE_INTEGER = 105"
definition VALUE_TYPE_FLOAT :: c_store_byte_t where "VALUE_TYPE_FLOAT = 102"
definition VALUE_TYPE_CHARACTER :: c_store_byte_t where "VALUE_TYPE_CHARACTER = 99"
definition VALUE_TYPE_BYTE :: c_store_byte_t where "VALUE_TYPE_BYTE = 98"
definition VALUE_TYPE_STATE :: c_store_byte_t where "VALUE_TYPE_STATE = 113"
definition VALUE_TYPE_OBJECT :: c_store_byte_t where "VALUE_TYPE_OBJECT = 111"

lemmas value_type_defs =
  VALUE_TYPE_NULL_def VALUE_TYPE_DOUBLE_def VALUE_TYPE_LONG_def VALUE_TYPE_BOOLEAN_def
  VALUE_TYPE_SHORT_def VALUE_TYPE_STRING_def VALUE_TYPE_BYTE_ARRAY_def VALUE_TYPE_INTEGER_def
  VALUE_TYPE_FLOAT_def VALUE_TYPE_CHARACTER_def VALUE_TYPE_BYTE_def VALUE_TYPE_STATE_def
  VALUE_TYPE_OBJECT_def

text \<open>
  \<^verbatim>\<open>c_store_value_t\<close>: the header fields and the flexible array \<open>value[]\<close>, which holds as
  many bytes as were allocated for it.
\<close>

record c_store_value =
  sv_handle :: c_store_int_t
  sv_stamp :: c_store_long_t
  sv_deleted :: c_store_bool_t
  sv_quality :: c_store_int_t
  sv_size :: nat
  sv_value :: "c_store_byte_t list"

text \<open>
  The arguments of \<^verbatim>\<open>CStore_newValue\<close>: the value type with the variadic arguments that
  the type makes the function read. Arguments narrower than \<open>int\<close> are passed as \<open>int\<close>.
  A \<open>double\<close> is its 64 bits, a \<open>float\<close> its 32 bits (the conversions between floating
  point formats are outside the model). A byte pointer with its length is the list of the
  bytes there.
\<close>

datatype new_value_args =
    NV_NULL
  | NV_DOUBLE "64 word"
  | NV_LONG c_store_long_t
  | NV_BOOLEAN "32 word"
  | NV_SHORT "32 word"
  | NV_STATE "c_store_int_t option" "c_store_byte_t list option"
  | NV_STRING "c_store_byte_t list"
  | NV_BYTE_ARRAY "c_store_byte_t list"
  | NV_INTEGER c_store_int_t
  | NV_FLOAT "32 word"
  | NV_CHARACTER "32 word"
  | NV_BYTE "32 word"
  | NV_OBJECT

fun valueType :: "new_value_args \<Rightarrow> c_store_byte_t" where
  "valueType NV_NULL = VALUE_TYPE_NULL"
| "valueType (NV_DOUBLE _) = VALUE_TYPE_DOUBLE"
| "valueType (NV_LONG _) = VALUE_TYPE_LONG"
| "valueType (NV_BOOLEAN _) = VALUE_TYPE_BOOLEAN"
| "valueType (NV_SHORT _) = VALUE_TYPE_SHORT"
| "valueType (NV_STATE _ _) = VALUE_TYPE_STATE"
| "valueType (NV_STRING _) = VALUE_TYPE_STRING"
| "valueType (NV_BYTE_ARRAY _) = VALUE_TYPE_BYTE_ARRAY"
| "valueType (NV_INTEGER _) = VALUE_TYPE_INTEGER"
| "valueType (NV_FLOAT _) = VALUE_TYPE_FLOAT"
| "valueType (NV_CHARACTER _) = VALUE_TYPE_CHARACTER"
| "valueType (NV_BYTE _) = VALUE_TYPE_BYTE"
| "valueType NV_OBJECT = VALUE_TYPE_OBJECT"

text \<open>\<^verbatim>\<open>CStore_allocate\<close> returns zeroed memory.\<close>

definition CStore_allocate_value :: "nat \<Rightarrow> c_store_value" where
  "CStore_allocate_value valueLength =
     \<lparr>sv_handle = 0, sv_stamp = 0, sv_deleted = 0, sv_quality = 0, sv_size = 0,
      sv_value = replicate valueLength 0\<rparr>"

text \<open>Reads and writes of \<open>value[]\<close>; outside the allocation they are a fault.\<close>

definition peek :: "c_store_byte_t list \<Rightarrow> nat \<Rightarrow> c_store_byte_t outcome" where
  "peek bytes i = (if i < length bytes then Inr (bytes ! i) else Inl Out_of_bounds)"

definition store_at :: "c_store_byte_t list \<Rightarrow> nat \<Rightarrow> c_store_byte_t list \<Rightarrow> c_store_byte_t list outcome" where
  "store_at bytes i new =
     (if i + length new \<le> length bytes
      then Inr (take i bytes @ new @ drop (i + length new) bytes)
      else Inl Out_of_bounds)"

definition CStore_getValueType :: "c_store_value \<Rightarrow> c_store_byte_t outcome" where
  "CStore_getValueType storeValue =
     (if sv_size storeValue \<noteq> 0 then peek (sv_value storeValue) 0 else Inr VALUE_TYPE_NULL)"

definition splitLength :: "nat \<Rightarrow> nat" where
  "splitLength joinedLength =
     (let len = joinedLength + (joinedLength div MAX_BYTES_BLOCK + 1) * 2
      in if len mod MAX_BYTES_BLOCK \<noteq> 0 then len + 2 else len)"

text \<open>
  \<^verbatim>\<open>_splitValue\<close> stores through \<open>splitPointer\<close>, which only moves forward: \<open>splitValue_bytes\<close>
  is the sequence of the bytes the loop stores, in order, and \<open>splitValue\<close> puts them at
  \<open>&storeValue->value[1 + offset]\<close>.
\<close>

function splitValue_bytes :: "c_store_byte_t list \<Rightarrow> c_store_byte_t list" where
  "splitValue_bytes joined =
     (let len = (if length joined > MAX_BYTES_BLOCK then MAX_BYTES_BLOCK else length joined)
      in [word_of_nat (drop_bit 8 len AND 255), word_of_nat (len AND 255)] @
         (if len = 0 then []
          else take len joined @ splitValue_bytes (drop len joined)))"
  by pat_completeness auto
termination
  by (relation "measure length") (auto simp: MAX_BYTES_BLOCK_def split: if_splits)

declare splitValue_bytes.simps [simp del]

definition splitValue :: "c_store_byte_t list \<Rightarrow> c_store_value \<Rightarrow> nat \<Rightarrow> c_store_value outcome" where
  "splitValue joined storeValue offset =
     obind (store_at (sv_value storeValue) (1 + offset) (splitValue_bytes joined))
       (\<lambda>bytes. Inr (storeValue\<lparr>sv_value := bytes\<rparr>))"

text \<open>
  \<^verbatim>\<open>_joinedValueLength\<close> and \<^verbatim>\<open>_joinValue\<close> read forward from \<open>&storeValue->value[1]\<close>; the
  loops run on the bytes from there to the end of the allocation.
\<close>

function joinedValueLength_loop :: "c_store_byte_t list \<Rightarrow> nat outcome" where
  "joinedValueLength_loop [] = Inl Out_of_bounds"
| "joinedValueLength_loop [hi] = Inl Out_of_bounds"
| "joinedValueLength_loop (hi # lo # rest) =
     (let len = push_bit 8 (unat hi) + unat lo
      in if len = 0 then Inr 0
         else obind (joinedValueLength_loop (drop len rest)) (\<lambda>n. Inr (len + n)))"
  by pat_completeness auto
termination
  by (relation "measure length") auto

definition joinedValueLength :: "c_store_value \<Rightarrow> nat outcome" where
  "joinedValueLength storeValue = joinedValueLength_loop (drop 1 (sv_value storeValue))"

function joinValue_loop :: "c_store_byte_t list \<Rightarrow> c_store_byte_t list outcome" where
  "joinValue_loop [] = Inl Out_of_bounds"
| "joinValue_loop [hi] = Inl Out_of_bounds"
| "joinValue_loop (hi # lo # rest) =
     (let len = push_bit 8 (unat hi) + unat lo
      in if len = 0 then Inr []
         else if length rest < len then Inl Out_of_bounds
         else obind (joinValue_loop (drop len rest)) (\<lambda>bytes. Inr (take len rest @ bytes)))"
  by pat_completeness auto
termination
  by (relation "measure length") auto

definition joinValue :: "c_store_value \<Rightarrow> c_store_byte_t list outcome" where
  "joinValue storeValue = joinValue_loop (drop 1 (sv_value storeValue))"

definition joinedStringValue :: "c_store_value \<Rightarrow> c_store_byte_t list outcome" where
  "joinedStringValue storeValue =
     obind (joinedValueLength storeValue) (\<lambda>n. joinValue storeValue)"

text \<open>
  \<^verbatim>\<open>CStore_newValue\<close>. The length of the value is computed first, the value is allocated
  zeroed, and the payload is stored. \<open>number\<close> is a union: \<open>boolValue\<close> and \<open>byteValue\<close>
  are the same byte, \<open>doubleValue\<close> and \<open>longValue\<close> the same 64 bits, \<open>floatValue\<close> and
  \<open>intValue\<close> the same 32 bits. A right shift of a signed integer is arithmetic, and the
  assignment to a \<open>jbyte\<close> keeps the low 8 bits.
\<close>

definition be_bytes_long :: "c_store_long_t \<Rightarrow> c_store_byte_t list" where
  "be_bytes_long longValue =
     [ucast (signed_drop_bit 56 longValue), ucast (signed_drop_bit 48 longValue),
      ucast (signed_drop_bit 40 longValue), ucast (signed_drop_bit 32 longValue),
      ucast (signed_drop_bit 24 longValue), ucast (signed_drop_bit 16 longValue),
      ucast (signed_drop_bit 8 longValue), ucast (signed_drop_bit 0 longValue)]"

definition be_bytes_int :: "c_store_int_t \<Rightarrow> c_store_byte_t list" where
  "be_bytes_int intValue =
     [ucast (signed_drop_bit 24 intValue), ucast (signed_drop_bit 16 intValue),
      ucast (signed_drop_bit 8 intValue), ucast (signed_drop_bit 0 intValue)]"

definition be_bytes_short :: "c_store_short_t \<Rightarrow> c_store_byte_t list" where
  "be_bytes_short shortValue =
     [ucast (signed_drop_bit 8 (scast shortValue :: 32 word)),
      ucast (signed_drop_bit 0 (scast shortValue :: 32 word))]"

definition state_text :: "c_store_int_t option \<Rightarrow> c_store_byte_t list" where
  "state_text stateCode =
     (case stateCode of
        Some code \<Rightarrow> map of_char (decimal_int (sint code))
      | None \<Rightarrow> [])"

definition newValue_length :: "new_value_args \<Rightarrow> nat outcome" where
  "newValue_length args =
     (case args of
        NV_NULL \<Rightarrow> Inr 0
      | NV_DOUBLE _ \<Rightarrow> Inr (1 + 8)
      | NV_LONG _ \<Rightarrow> Inr (1 + 8)
      | NV_BOOLEAN _ \<Rightarrow> Inr (1 + 1)
      | NV_SHORT _ \<Rightarrow> Inr (1 + 2)
      | NV_STATE stateCode bytes \<Rightarrow>
          (let textLength = length (state_text stateCode);
               valueLength = 1 + splitLength textLength
           in case bytes of
                Some bs \<Rightarrow> Inr (valueLength + 1 + splitLength (length bs) - 2)
              | None \<Rightarrow> Inr valueLength)
      | NV_STRING bytes \<Rightarrow> Inr (1 + splitLength (length bytes))
      | NV_BYTE_ARRAY bytes \<Rightarrow> Inr (1 + splitLength (length bytes))
      | NV_INTEGER _ \<Rightarrow> Inr (1 + 4)
      | NV_FLOAT _ \<Rightarrow> Inr (1 + 4)
      | NV_CHARACTER _ \<Rightarrow> Inr (1 + 1)
      | NV_BYTE _ \<Rightarrow> Inr (1 + 1)
      | NV_OBJECT \<Rightarrow> Inl Assertion_failed)"

definition put_bytes :: "c_store_value \<Rightarrow> nat \<Rightarrow> c_store_byte_t list \<Rightarrow> c_store_value outcome" where
  "put_bytes storeValue i bytes =
     obind (store_at (sv_value storeValue) i bytes) (\<lambda>v. Inr (storeValue\<lparr>sv_value := v\<rparr>))"

definition newValue_fill :: "new_value_args \<Rightarrow> c_store_value \<Rightarrow> c_store_value outcome" where
  "newValue_fill args storeValue =
     (case args of
        NV_DOUBLE bits \<Rightarrow> put_bytes storeValue 1 (be_bytes_long bits)
      | NV_LONG longValue \<Rightarrow> put_bytes storeValue 1 (be_bytes_long longValue)
      | NV_BOOLEAN i \<Rightarrow> put_bytes storeValue 1 [ucast i]
      | NV_CHARACTER i \<Rightarrow> put_bytes storeValue 1 [ucast i]
      | NV_BYTE i \<Rightarrow> put_bytes storeValue 1 [ucast i]
      | NV_SHORT i \<Rightarrow> put_bytes storeValue 1 (be_bytes_short (ucast i))
      | NV_STATE stateCode bytes \<Rightarrow>
          (case bytes of
             None \<Rightarrow>
               (let text = state_text stateCode
                in obind (splitValue text storeValue 0) (\<lambda>sv1.
                   obind (joinedValueLength sv1) (\<lambda>joined.
                     if length text + 0 = joined then Inr sv1 else Inl Assertion_failed)))
           | Some bs \<Rightarrow>
               (let text = state_text stateCode @ [of_char CHR '':'']
                in obind (splitValue text storeValue 0) (\<lambda>sv1.
                   obind (splitValue bs sv1 (splitLength (length text) - 2)) (\<lambda>sv2.
                   obind (joinedValueLength sv2) (\<lambda>joined.
                     if length text + length bs = joined then Inr sv2 else Inl Assertion_failed)))))
      | NV_STRING bytes \<Rightarrow> splitValue bytes storeValue 0
      | NV_BYTE_ARRAY bytes \<Rightarrow> splitValue bytes storeValue 0
      | NV_INTEGER intValue \<Rightarrow> put_bytes storeValue 1 (be_bytes_int intValue)
      | NV_FLOAT bits \<Rightarrow> put_bytes storeValue 1 (be_bytes_int bits)
      | NV_NULL \<Rightarrow> Inr storeValue
      | NV_OBJECT \<Rightarrow> Inr storeValue)"

definition CStore_newValue :: "new_value_args \<Rightarrow> c_store_value outcome" where
  "CStore_newValue args =
     obind (newValue_length args) (\<lambda>valueLength.
       let storeValue0 = CStore_allocate_value valueLength;
           storeValue =
             (if valueLength \<noteq> 0
              then storeValue0\<lparr>sv_size := valueLength,
                               sv_value := (sv_value storeValue0)[0 := valueType args]\<rparr>
              else storeValue0)
       in newValue_fill args storeValue)"

text \<open>
  The accessors return a flag and store the result through a pointer. \<open>strtol\<close> and the
  conversion of a \<open>double\<close> to a \<open>jlong\<close> belong to the C library and are parameters:
  \<open>strtol_0 s\<close> is the value of \<^verbatim>\<open>strtol(s, &pointer, 0)\<close> with the number of characters
  it consumed.
\<close>

record libc =
  strtol_0 :: "c_store_byte_t list \<Rightarrow> c_store_long_t \<times> nat"
  double_to_long :: "64 word \<Rightarrow> c_store_long_t"

definition CStore_valueToString :: "c_store_value \<Rightarrow> (bool \<times> c_store_byte_t list) outcome" where
  "CStore_valueToString storeValue =
     obind (CStore_getValueType storeValue) (\<lambda>t.
       if t \<noteq> VALUE_TYPE_STRING then Inr (False, [])
       else obind (joinedStringValue storeValue) (\<lambda>s. Inr (True, s)))"

definition long_of_8 :: "c_store_byte_t list \<Rightarrow> c_store_long_t" where
  "long_of_8 v =
     push_bit 56 (ucast (v ! 0)) OR push_bit 48 (ucast (v ! 1)) OR
     push_bit 40 (ucast (v ! 2)) OR push_bit 32 (ucast (v ! 3)) OR
     push_bit 24 (ucast (v ! 4)) OR push_bit 16 (ucast (v ! 5)) OR
     push_bit 8 (ucast (v ! 6)) OR push_bit 0 (ucast (v ! 7))"

text \<open>
  In \<^verbatim>\<open>(unsigned char) value[1] << 24\<close> the operand is promoted to \<open>int\<close>: the shift is a
  32-bit one, and storing its result in a \<open>jlong\<close> extends the sign.
\<close>

definition int_shl :: "c_store_byte_t \<Rightarrow> nat \<Rightarrow> c_store_long_t" where
  "int_shl b n = scast (push_bit n (ucast b :: 32 word))"

definition long_of_4 :: "c_store_byte_t list \<Rightarrow> c_store_long_t" where
  "long_of_4 v = int_shl (v ! 0) 24 OR int_shl (v ! 1) 16 OR int_shl (v ! 2) 8 OR int_shl (v ! 3) 0"

definition long_of_2 :: "c_store_byte_t list \<Rightarrow> c_store_long_t" where
  "long_of_2 v = int_shl (v ! 0) 8 OR int_shl (v ! 1) 0"

definition payload :: "c_store_value \<Rightarrow> nat \<Rightarrow> c_store_byte_t list outcome" where
  "payload storeValue n =
     (if 1 + n \<le> length (sv_value storeValue)
      then Inr (take n (drop 1 (sv_value storeValue)))
      else Inl Out_of_bounds)"

text \<open>The \<open>DOUBLE\<close> and \<open>FLOAT\<close> cases of \<^verbatim>\<open>CStore_valueToDouble\<close>, the ones
  \<^verbatim>\<open>CStore_valueToLong\<close> reaches: the bits of the \<open>double\<close> stored.\<close>

definition CStore_valueToDouble_bits :: "c_store_value \<Rightarrow> c_store_byte_t \<Rightarrow> 64 word outcome" where
  "CStore_valueToDouble_bits storeValue t =
     (if t = VALUE_TYPE_DOUBLE then obind (payload storeValue 8) (\<lambda>v. Inr (long_of_8 v))
      else obind (payload storeValue 4) (\<lambda>v. Inr (long_of_4 v)))"

definition CStore_valueToLong :: "libc \<Rightarrow> c_store_value \<Rightarrow> (bool \<times> c_store_long_t) outcome" where
  "CStore_valueToLong c storeValue =
     obind (CStore_getValueType storeValue) (\<lambda>t.
       if t = VALUE_TYPE_LONG then
         obind (payload storeValue 8) (\<lambda>v. Inr (True, long_of_8 v))
       else if t = VALUE_TYPE_INTEGER then
         obind (payload storeValue 4) (\<lambda>v. Inr (True, long_of_4 v))
       else if t = VALUE_TYPE_SHORT then
         obind (payload storeValue 2) (\<lambda>v. Inr (True, long_of_2 v))
       else if t = VALUE_TYPE_BYTE then
         obind (payload storeValue 1) (\<lambda>v. Inr (True, scast (v ! 0)))
       else if t = VALUE_TYPE_STRING then
         obind (CStore_valueToString storeValue) (\<lambda>(ok, s).
           if \<not> ok then Inr (False, 0)
           else let string = takeWhile (\<lambda>b. b \<noteq> 0) s;
                    (parsed, consumed) = strtol_0 c string
                in if consumed < length string then Inr (False, 0) else Inr (True, parsed))
       else if t = VALUE_TYPE_DOUBLE \<or> t = VALUE_TYPE_FLOAT then
         obind (CStore_valueToDouble_bits storeValue t) (\<lambda>bits. Inr (True, double_to_long c bits))
       else if t = VALUE_TYPE_BOOLEAN then
         obind (payload storeValue 1) (\<lambda>v. Inr (True, if v ! 0 \<noteq> 0 then 1 else 0))
       else Inr (False, 0))"


section \<open>Handles map: definitions\<close>

type_synonym c_store_handle_t = "32 word"
type_synonym entry = "c_store_handle_t \<times> c_store_handle_t"

definition MAXIMUM_CAPACITY :: nat where
  "MAXIMUM_CAPACITY = 2 ^ 30"

definition MAXIMUM_SIZE :: nat where
  "MAXIMUM_SIZE = 2 ^ 31 - 1"

text \<open>
  \<^verbatim>\<open>struct c_store_handles_map\<close>. A bucket of the table is the chain of its entries from
  the head, an entry its key and value. \<open>LOAD_FACTOR\<close> is 0.75: for a capacity which is
  a power of two up to \<open>2^30\<close> the product \<open>capacity * 0.75\<close> is exact in a \<open>double\<close> and
  its conversion to \<open>size_t\<close> is \<open>capacity * 3 div 4\<close>.
\<close>

record c_store_handles_map =
  hm_table :: "entry list list"
  hm_capacity :: nat
  hm_size :: nat
  hm_threshold :: nat

definition load_threshold :: "nat \<Rightarrow> nat" where
  "load_threshold capacity = capacity * 3 div 4"

definition hash_scramble :: "c_store_handle_t \<Rightarrow> 32 word" where
  "hash_scramble key =
     (let h0 = key;
          h1 = h0 + NOT (push_bit 9 h0);
          h2 = h1 XOR drop_bit 14 h1;
          h3 = h2 + push_bit 4 h2;
          h4 = h3 XOR drop_bit 10 h3
      in h4)"

definition indexFor :: "c_store_handles_map \<Rightarrow> c_store_handle_t \<Rightarrow> nat" where
  "indexFor m key = unat (hash_scramble key) AND (hm_capacity m - 1)"

function capacity_loop :: "nat \<Rightarrow> nat \<Rightarrow> nat" where
  "capacity_loop capacity initialCapacity =
     (if 0 < capacity \<and> capacity < initialCapacity
      then capacity_loop (push_bit 1 capacity) initialCapacity
      else capacity)"
  by pat_completeness auto
termination
  by (relation "measure (\<lambda>(c, i). i - c)") (auto simp: push_bit_eq_mult)

declare capacity_loop.simps [simp del]

definition HandlesMap_create :: "nat \<Rightarrow> c_store_handles_map outcome" where
  "HandlesMap_create initialLoadSize =
     (let initialCapacity = 1 + initialLoadSize * 4 div 3
      in if \<not> initialCapacity \<le> MAXIMUM_CAPACITY then Inl Assertion_failed
         else let capacity = capacity_loop 1 initialCapacity
              in Inr \<lparr>hm_table = replicate capacity [], hm_capacity = capacity, hm_size = 0,
                      hm_threshold = load_threshold capacity\<rparr>)"

fun chain_get :: "entry list \<Rightarrow> c_store_handle_t \<Rightarrow> c_store_handle_t" where
  "chain_get [] key = 0"
| "chain_get ((k, v) # next) key = (if k = key then v else chain_get next key)"

definition HandlesMap_get :: "c_store_handles_map \<Rightarrow> c_store_handle_t \<Rightarrow> c_store_handle_t" where
  "HandlesMap_get m key = chain_get (hm_table m ! indexFor m key) key"

definition HandlesMap_size :: "c_store_handles_map \<Rightarrow> nat" where
  "HandlesMap_size m = hm_size m"

text \<open>\<^verbatim>\<open>_rehash\<close>: every entry of the old table, bucket by bucket and from the head of
  each chain, becomes the head of its chain in the new table.\<close>

definition rehash_entry :: "nat \<Rightarrow> entry list list \<Rightarrow> entry \<Rightarrow> entry list list" where
  "rehash_entry capacity table e =
     (let index = unat (hash_scramble (fst e)) AND (capacity - 1)
      in table[index := e # table ! index])"

definition rehash :: "c_store_handles_map \<Rightarrow> c_store_handles_map" where
  "rehash m =
     (if hm_capacity m = MAXIMUM_CAPACITY then m\<lparr>hm_threshold := MAXIMUM_SIZE\<rparr>
      else let oldTable = hm_table m;
               capacity = push_bit 1 (hm_capacity m)
           in m\<lparr>hm_capacity := capacity,
                hm_threshold := load_threshold capacity,
                hm_table := foldl (foldl (rehash_entry capacity)) (replicate capacity []) oldTable\<rparr>)"

text \<open>\<^verbatim>\<open>HandlesMap_put\<close>: the value of an entry with the key is replaced where it is; a
  new entry becomes the head of its chain.\<close>

fun chain_replace :: "entry list \<Rightarrow> c_store_handle_t \<Rightarrow> c_store_handle_t \<Rightarrow> (c_store_handle_t \<times> entry list) option" where
  "chain_replace [] key v = None"
| "chain_replace ((k, old) # next) key v =
     (if k = key then Some (old, (k, v) # next)
      else map_option (\<lambda>(previousValue, chain). (previousValue, (k, old) # chain))
             (chain_replace next key v))"

definition HandlesMap_put :: "c_store_handles_map \<Rightarrow> c_store_handle_t \<Rightarrow> c_store_handle_t \<Rightarrow> c_store_handle_t \<times> c_store_handles_map" where
  "HandlesMap_put m key v =
     (let index = indexFor m key
      in case chain_replace (hm_table m ! index) key v of
           Some (previousValue, chain) \<Rightarrow>
             (previousValue, m\<lparr>hm_table := (hm_table m)[index := chain]\<rparr>)
         | None \<Rightarrow>
             (let m1 = m\<lparr>hm_table := (hm_table m)[index := (key, v) # hm_table m ! index],
                          hm_size := hm_size m + 1\<rparr>
              in (0, if hm_size m1 > hm_threshold m1 then rehash m1 else m1)))"

text \<open>
  \<^verbatim>\<open>HandlesMap_remove\<close>: \<open>previous\<close> holds the entries of the chain before the current
  one. An entry which has a previous entry is unlinked from it; for the head of the chain,
  the bucket is set to \<open>NULL\<close>.
\<close>

fun remove_loop :: "entry list \<Rightarrow> entry list \<Rightarrow> c_store_handle_t \<Rightarrow> (c_store_handle_t \<times> entry list) option" where
  "remove_loop previous [] key = None"
| "remove_loop previous ((k, v) # next) key =
     (if k = key then Some (v, if previous \<noteq> [] then previous @ next else [])
      else remove_loop (previous @ [(k, v)]) next key)"

definition HandlesMap_remove :: "c_store_handles_map \<Rightarrow> c_store_handle_t \<Rightarrow> c_store_handle_t \<times> c_store_handles_map" where
  "HandlesMap_remove m key =
     (let index = indexFor m key
      in case remove_loop [] (hm_table m ! index) key of
           Some (v, chain) \<Rightarrow>
             (v, m\<lparr>hm_table := (hm_table m)[index := chain], hm_size := hm_size m - 1\<rparr>)
         | None \<Rightarrow> (0, m))"

text \<open>The keys that the table holds (\<^verbatim>\<open>HandlesMap_keys\<close> walks the buckets in this order).\<close>

definition HandlesMap_keys :: "c_store_handles_map \<Rightarrow> c_store_handle_t list" where
  "HandlesMap_keys m = map fst (concat (hm_table m))"

section \<open>PIPE endpoint: definitions\<close>

text \<open>
  The characters the C code names. A \<open>char *\<close> is the list of the characters at the
  pointer; the C string there, the one \<open>strlen\<close>, \<open>strcpy\<close>, \<open>strchr\<close> and \<open>fputs\<close> see, ends
  before the first NUL.
\<close>

definition NUL :: char where "NUL = CHR 0x00"
definition LF :: char where "LF = CHR 0x0A"
definition CR :: char where "CR = CHR 0x0D"
definition SP :: char where "SP = CHR '' ''"
definition LBRACKET :: char where "LBRACKET = CHR ''[''"
definition RBRACKET :: char where "RBRACKET = CHR '']''"
definition QUOTE :: char where "QUOTE = CHR 0x22"
definition MINUS :: char where "MINUS = CHR ''-''"

lemmas char_defs = NUL_def LF_def CR_def SP_def LBRACKET_def RBRACKET_def QUOTE_def MINUS_def

definition cstr :: "string \<Rightarrow> string" where
  "cstr s = takeWhile (\<lambda>c. c \<noteq> NUL) s"

text \<open>\<open>isspace\<close> in the C locale: space, tab, line feed, vertical tab, form feed, carriage
  return.\<close>

definition isspace :: "char \<Rightarrow> bool" where
  "isspace c \<longleftrightarrow> c = SP \<or> c = CHR 0x09 \<or> c = LF \<or> c = CHR 0x0B \<or> c = CHR 0x0C \<or> c = CR"

definition strspn_sp :: "string \<Rightarrow> nat" where
  "strspn_sp s = length (takeWhile (\<lambda>c. c = SP) s)"

definition strcspn_sp :: "string \<Rightarrow> nat" where
  "strcspn_sp s = length (takeWhile (\<lambda>c. c \<noteq> SP \<and> c \<noteq> NUL) s)"

text \<open>
  The ways out of the library other than a return: \<^verbatim>\<open>rvpf_pipe_error\<close>, \<^verbatim>\<open>rvpf_pipe_fatal\<close>
  and \<^verbatim>\<open>_stop\<close> set \<open>rvpf_pipe_status\<close> to \<open>ERROR\<close>, \<open>FATAL\<close> and \<open>OK\<close> and jump to the
  resumption point; \<open>Exit_crash\<close> is a call of \<open>strlen\<close> on \<open>NULL\<close>.
\<close>

datatype pipe_exit = Exit_stop | Exit_error | Exit_fatal | Exit_crash

type_synonym 'a pipe_result = "pipe_exit + 'a"

definition pbind :: "'a pipe_result \<Rightarrow> ('a \<Rightarrow> 'b pipe_result) \<Rightarrow> 'b pipe_result" where
  "pbind m f = (case m of Inl e \<Rightarrow> Inl e | Inr x \<Rightarrow> f x)"

text \<open>
  \<^verbatim>\<open>struct rvpf_pipe_buffer\<close>. \<open>b_at\<close> holds the characters \<open>at[0]\<close> to \<open>at[limit - 1]\<close>, so
  that \<open>limit\<close> is its length; the code keeps a NUL at \<open>at[limit]\<close> whenever it reads the
  buffer as a string, and a read at the end of \<open>b_at\<close> is a read of that NUL.
\<close>

record rvpf_pipe_buffer =
  b_at :: string
  b_mark :: nat
  b_position :: nat
  b_capacity :: nat

definition limit :: "rvpf_pipe_buffer \<Rightarrow> nat" where
  "limit buffer = length (b_at buffer)"

definition INITIAL_CONTROL_BUFFER_CAPACITY :: nat where
  "INITIAL_CONTROL_BUFFER_CAPACITY = 128"

definition new_buffer :: rvpf_pipe_buffer where
  "new_buffer = \<lparr>b_at = [], b_mark = 0, b_position = 0, b_capacity = INITIAL_CONTROL_BUFFER_CAPACITY\<rparr>"

text \<open>Standard input still to be read, standard output as written so far.\<close>

record pipe_io =
  io_stdin :: string
  io_stdout :: string

datatype state_ptr = Deleted_state | State_text string

definition deletedState :: string where
  "deletedState = ''DELETED''"

fun state_chars :: "state_ptr \<Rightarrow> string" where
  "state_chars Deleted_state = deletedState"
| "state_chars (State_text s) = s"

text \<open>\<^verbatim>\<open>struct rvpf_pipe_pointValue\<close>. The state is \<open>NULL\<close>, the address of the static
  \<open>_deletedState\<close>, or a string of the heap.\<close>

record rvpf_pipe_pointValue =
  pv_pointName :: "string option"
  pv_stamp :: "string option"
  pv_state :: "state_ptr option"
  pv_value :: "string option"

definition null_pointValue :: rvpf_pipe_pointValue where
  "null_pointValue = \<lparr>pv_pointName = None, pv_stamp = None, pv_state = None, pv_value = None\<rparr>"

text \<open>
  \<^verbatim>\<open>struct rvpf_pipe_engineRequest\<close>: the control part (request ID, version, buffer), the
  parameters and inputs, the result and the list of the extra results from \<open>first\<close> to
  \<open>last\<close> with its counter \<open>results.count\<close>.
\<close>

record rvpf_pipe_engineRequest =
  er_requestID :: "string option"
  er_version :: int
  er_buffer :: rvpf_pipe_buffer
  er_transformParams :: "string list"
  er_pointParams :: "string list"
  er_inputs :: "rvpf_pipe_pointValue list"
  er_result :: "rvpf_pipe_pointValue option"
  er_results :: "rvpf_pipe_pointValue list"
  er_results_count :: int

definition cloneString :: "string option \<Rightarrow> string option" where
  "cloneString s = map_option cstr s"

definition resetBuffer :: "rvpf_pipe_buffer \<Rightarrow> rvpf_pipe_buffer" where
  "resetBuffer buffer = buffer\<lparr>b_at := [], b_position := 0, b_mark := 0\<rparr>"

definition expandBuffer :: "rvpf_pipe_buffer \<Rightarrow> nat \<Rightarrow> rvpf_pipe_buffer" where
  "expandBuffer buffer sz =
     (if sz > b_capacity buffer - limit buffer
      then let sz1 = (if sz < b_capacity buffer then b_capacity buffer else sz)
           in buffer\<lparr>b_capacity := sz1 + sz1\<rparr>
      else buffer)"

definition charToBuffer :: "char \<Rightarrow> rvpf_pipe_buffer \<Rightarrow> rvpf_pipe_buffer" where
  "charToBuffer c buffer =
     (let buffer1 = expandBuffer buffer 2 in buffer1\<lparr>b_at := b_at buffer1 @ [c]\<rparr>)"

definition stringToBuffer :: "string option \<Rightarrow> rvpf_pipe_buffer \<Rightarrow> rvpf_pipe_buffer pipe_result" where
  "stringToBuffer text buffer =
     (case text of
        None \<Rightarrow> Inl Exit_crash
      | Some t \<Rightarrow>
          (let buffer1 = expandBuffer buffer (length (cstr t) + 1)
           in Inr (buffer1\<lparr>b_at := b_at buffer1 @ cstr t\<rparr>)))"

definition intToBuffer :: "int \<Rightarrow> rvpf_pipe_buffer \<Rightarrow> rvpf_pipe_buffer pipe_result" where
  "intToBuffer v buffer = stringToBuffer (Some (decimal_int v)) buffer"

definition flushBuffer :: "rvpf_pipe_buffer \<Rightarrow> pipe_io \<Rightarrow> rvpf_pipe_buffer \<times> pipe_io" where
  "flushBuffer buffer io =
     (resetBuffer buffer, io\<lparr>io_stdout := io_stdout io @ cstr (b_at buffer) @ [LF]\<rparr>)"

text \<open>\<^verbatim>\<open>_pointValueToBuffer\<close>. The two loops run over the characters of the state and of the
  value, up to their \<open>strlen\<close>.\<close>

definition stateCharToBuffer :: "rvpf_pipe_buffer \<Rightarrow> char \<Rightarrow> rvpf_pipe_buffer" where
  "stateCharToBuffer buffer c =
     charToBuffer c
       (if c = LBRACKET then charToBuffer RBRACKET buffer
        else if c = RBRACKET then charToBuffer LBRACKET buffer
        else buffer)"

definition valueCharToBuffer :: "rvpf_pipe_buffer \<Rightarrow> char \<Rightarrow> rvpf_pipe_buffer" where
  "valueCharToBuffer buffer c =
     charToBuffer c (if c = QUOTE then charToBuffer QUOTE buffer else buffer)"

definition pointValueToBuffer :: "rvpf_pipe_pointValue \<Rightarrow> rvpf_pipe_buffer \<Rightarrow> rvpf_pipe_buffer pipe_result" where
  "pointValueToBuffer pointValue buffer =
     pbind (stringToBuffer (pv_pointName pointValue) buffer) (\<lambda>b1.
     pbind (stringToBuffer (pv_stamp pointValue) (charToBuffer SP b1)) (\<lambda>b2.
     pbind (case pv_state pointValue of
              None \<Rightarrow> Inr b2
            | Some state \<Rightarrow>
                pbind (stringToBuffer (Some '' ['') b2) (\<lambda>b3.
                  Inr (charToBuffer RBRACKET
                         (foldl stateCharToBuffer b3 (cstr (state_chars state)))))) (\<lambda>b4.
       case pv_value pointValue of
         None \<Rightarrow> Inr b4
       | Some v \<Rightarrow>
           pbind (stringToBuffer (Some [SP, QUOTE]) b4) (\<lambda>b5.
             Inr (charToBuffer QUOTE (foldl valueCharToBuffer b5 (cstr v)))))))"

text \<open>
  \<^verbatim>\<open>_nextLine\<close>. The loop reads standard input character by character; the end of the
  input is \<open>EOF\<close>. The trailing white space of a line is dropped by moving \<open>limit\<close> back.
\<close>

definition dropTrailingSpaces :: "string \<Rightarrow> string" where
  "dropTrailingSpaces s = rev (dropWhile isspace (rev s))"

fun nextLine_loop :: "string \<Rightarrow> rvpf_pipe_buffer \<Rightarrow> bool \<Rightarrow> (string option \<times> rvpf_pipe_buffer \<times> string) pipe_result" where
  "nextLine_loop [] buffer required =
     (let buffer1 = (if limit buffer \<noteq> 0 then buffer\<lparr>b_at := []\<rparr> else buffer)
      in if required then Inl Exit_error else Inr (None, buffer1, []))"
| "nextLine_loop (next # input) buffer required =
     (if next = LF then
        (let buffer1 = buffer\<lparr>b_at := dropTrailingSpaces (b_at buffer)\<rparr>
         in if limit buffer1 \<noteq> 0 then Inr (Some (cstr (b_at buffer1)), buffer1, input)
            else nextLine_loop input buffer1 required)
      else if next \<noteq> CR then
        (if limit buffer \<noteq> 0 \<or> \<not> isspace next
         then nextLine_loop input
                (let buffer1 = expandBuffer buffer 2 in buffer1\<lparr>b_at := b_at buffer1 @ [next]\<rparr>)
                required
         else nextLine_loop input buffer required)
      else nextLine_loop input buffer required)"

definition nextLine :: "rvpf_pipe_buffer \<Rightarrow> bool \<Rightarrow> pipe_io \<Rightarrow> (string option \<times> rvpf_pipe_buffer \<times> pipe_io) pipe_result" where
  "nextLine buffer required io =
     pbind (nextLine_loop (io_stdin io) (resetBuffer buffer) required) (\<lambda>(line, buffer1, input).
       Inr (line, buffer1, io\<lparr>io_stdin := input\<rparr>))"

text \<open>
  \<^verbatim>\<open>_nextField\<close>. The field returned is the string at \<open>at + mark\<close> once the NUL that ends
  it has been put in place of the space.
\<close>

definition nextField :: "rvpf_pipe_buffer \<Rightarrow> bool \<Rightarrow> bool \<Rightarrow> (string option \<times> rvpf_pipe_buffer) pipe_result" where
  "nextField buffer required lastField =
     (if b_position buffer \<ge> limit buffer then
        (if required then Inl Exit_error
         else Inr (None, buffer\<lparr>b_mark := b_position buffer\<rparr>))
      else
        (let p0 = (if b_at buffer ! b_position buffer = NUL
                   then b_position buffer + 1 else b_position buffer);
             p1 = p0 + strspn_sp (drop p0 (b_at buffer));
             p2 = (if \<not> lastField then p1 + strcspn_sp (drop p1 (b_at buffer)) else p1);
             at1 = (if \<not> lastField \<and> p2 < limit buffer then (b_at buffer)[p2 := NUL] else b_at buffer)
         in Inr (Some (cstr (drop p1 at1)),
                 buffer\<lparr>b_at := at1, b_mark := p1, b_position := p2\<rparr>)))"

text \<open>
  The loops of \<^verbatim>\<open>_fillPointValue\<close> over the state field and over the value field. They
  copy the characters they keep to \<open>stop\<close>, which never passes \<open>next\<close>: the characters still
  to be read are unchanged, and the characters kept are the third argument here. The result
  is \<open>None\<close> where the code warns of an invalid format and returns. The state loop also
  gives the field which follows the state.
\<close>

fun state_loop :: "string \<Rightarrow> bool \<Rightarrow> bool \<Rightarrow> string \<Rightarrow> (string \<times> string) option" where
  "state_loop [] leftBracketSeen rightBracketSeen kept =
     (if \<not> rightBracketSeen then None else Some (kept, []))"
| "state_loop (c # next) leftBracketSeen rightBracketSeen kept =
     (if c = NUL then (if \<not> rightBracketSeen then None else Some (kept, []))
      else if rightBracketSeen then
        (if c = LBRACKET then state_loop next leftBracketSeen False (kept @ [LBRACKET])
         else Some (kept, dropWhile (\<lambda>c. c = SP) next))
      else if leftBracketSeen then
        (if c = RBRACKET then state_loop next False rightBracketSeen (kept @ [RBRACKET])
         else None)
      else if c = LBRACKET then state_loop next True rightBracketSeen kept
      else if c = RBRACKET then state_loop next leftBracketSeen True kept
      else state_loop next leftBracketSeen rightBracketSeen (kept @ [c]))"

fun value_loop :: "string \<Rightarrow> bool \<Rightarrow> string \<Rightarrow> string option" where
  "value_loop [] quoteSeen kept = (if \<not> quoteSeen then None else Some kept)"
| "value_loop (c # next) quoteSeen kept =
     (if c = NUL then (if \<not> quoteSeen then None else Some kept)
      else if quoteSeen then
        (if c = QUOTE then value_loop next False (kept @ [QUOTE]) else None)
      else if c = QUOTE then value_loop next True kept
      else value_loop next quoteSeen (kept @ [c]))"

definition fill_value :: "rvpf_pipe_pointValue \<Rightarrow> string \<Rightarrow> rvpf_pipe_pointValue" where
  "fill_value pointValue field =
     (case field of
        [] \<Rightarrow> pointValue
      | c # start \<Rightarrow>
          if c = QUOTE then
            (case value_loop start False [] of
               None \<Rightarrow> pointValue
             | Some v \<Rightarrow> pointValue\<lparr>pv_value := Some v\<rparr>)
          else if c = MINUS then pointValue\<lparr>pv_state := Some Deleted_state\<rparr>
          else pointValue)"

definition fill_state :: "rvpf_pipe_pointValue \<Rightarrow> string \<Rightarrow> rvpf_pipe_pointValue" where
  "fill_state pointValue field =
     (case field of
        [] \<Rightarrow> fill_value pointValue field
      | c # start \<Rightarrow>
          if c = LBRACKET then
            (case state_loop start False False [] of
               None \<Rightarrow> pointValue
             | Some (state, field1) \<Rightarrow>
                 fill_value (pointValue\<lparr>pv_state := Some (State_text state)\<rparr>) field1)
          else fill_value pointValue field)"

definition fillPointValue :: "rvpf_pipe_pointValue \<Rightarrow> rvpf_pipe_buffer \<Rightarrow> bool \<Rightarrow> (rvpf_pipe_pointValue \<times> rvpf_pipe_buffer) pipe_result" where
  "fillPointValue pointValue buffer stampRequired =
     pbind (nextField buffer True False) (\<lambda>(name, b1).
     pbind (nextField b1 stampRequired False) (\<lambda>(field, b2).
       let pv1 = pointValue\<lparr>pv_pointName := name\<rparr>
       in case field of
            None \<Rightarrow> Inr (pv1, b2)
          | Some stamp \<Rightarrow>
              pbind (nextField b2 False True) (\<lambda>(field1, b3).
                let pv2 = pv1\<lparr>pv_stamp := Some stamp\<rparr>
                in case field1 of
                     None \<Rightarrow> Inr (pv2, b3)
                   | Some f \<Rightarrow> Inr (fill_state pv2 f, b3))))"

text \<open>
  \<^verbatim>\<open>_firstLine\<close>. Each turn of the loop reads a line; the loop goes on only after a line has
  been read, so that the input left gets shorter.
\<close>

lemma nextLine_loop_shorter:
  "nextLine_loop input buffer required = Inr (Some line, buffer1, input1) \<Longrightarrow>
   length input1 < length input"
proof (induction input arbitrary: buffer)
  case Nil
  then show ?case
    by (simp add: Let_def split: if_splits)
next
  case (Cons c input)
  then show ?case
    by (fastforce simp: Let_def split: if_splits)
qed

lemma nextLine_shorter:
  "nextLine buffer required io = Inr (Some line, buffer1, io1) \<Longrightarrow>
   length (io_stdin io1) < length (io_stdin io)"
  by (auto simp: nextLine_def pbind_def split: sum.splits dest: nextLine_loop_shorter)

function firstLine :: "rvpf_pipe_buffer \<Rightarrow> pipe_io \<Rightarrow> (string option \<times> rvpf_pipe_buffer \<times> pipe_io) pipe_result" where
  "firstLine buffer io =
     (case nextLine buffer False io of
        Inl e \<Rightarrow> Inl e
      | Inr (line, b1, io1) \<Rightarrow>
          (case line of
             None \<Rightarrow> Inr (None, b1, io1)
           | Some l \<Rightarrow>
               if SP \<in> set l then Inr (Some l, b1, io1)
               else if l = ''0'' then Inr (None, b1, io1)
               else firstLine (fst (flushBuffer b1 io1)) (snd (flushBuffer b1 io1))))"
  by pat_completeness auto
termination
  by (relation "measure (\<lambda>(buffer, io). length (io_stdin io))")
     (auto simp: flushBuffer_def dest: nextLine_shorter)

declare firstLine.simps [simp del]

text \<open>The operations on an engine request. A \<open>NULL\<close> request is fatal.\<close>

definition rvpf_pipe_addEngineResult ::
  "rvpf_pipe_engineRequest option \<Rightarrow> string option \<Rightarrow> string option \<Rightarrow> state_ptr option \<Rightarrow>
   string option \<Rightarrow> rvpf_pipe_engineRequest pipe_result" where
  "rvpf_pipe_addEngineResult request pointName stamp state v =
     (case request of
        None \<Rightarrow> Inl Exit_fatal
      | Some r \<Rightarrow>
          if pointName = None \<or> cloneString pointName = Some [] then Inl Exit_error
          else if stamp = None \<or> cloneString stamp = Some [] then Inl Exit_error
          else Inr (r\<lparr>er_results := er_results r @
                         [\<lparr>pv_pointName = cloneString pointName,
                           pv_stamp = map_option (map (\<lambda>c. if c = SP then CHR ''T'' else c))
                                        (cloneString stamp),
                           pv_state = map_option (\<lambda>s. State_text (cstr (state_chars s))) state,
                           pv_value = cloneString v\<rparr>],
                      er_results_count := er_results_count r + 1\<rparr>))"

definition rvpf_pipe_clearEngineResults ::
  "rvpf_pipe_engineRequest option \<Rightarrow> rvpf_pipe_engineRequest pipe_result" where
  "rvpf_pipe_clearEngineResults request =
     (case request of
        None \<Rightarrow> Inl Exit_fatal
      | Some r \<Rightarrow> Inr (r\<lparr>er_result := None, er_results := []\<rparr>))"

definition rvpf_pipe_setEngineResultState ::
  "rvpf_pipe_engineRequest option \<Rightarrow> state_ptr option \<Rightarrow> rvpf_pipe_engineRequest pipe_result" where
  "rvpf_pipe_setEngineResultState request state =
     (case request of
        None \<Rightarrow> Inl Exit_fatal
      | Some r \<Rightarrow>
          (case er_result r of
             None \<Rightarrow> Inl Exit_error
           | Some result \<Rightarrow>
               Inr (r\<lparr>er_result :=
                       Some (result\<lparr>pv_state :=
                               map_option (\<lambda>s. State_text (cstr (state_chars s))) state\<rparr>)\<rparr>)))"

definition rvpf_pipe_setEngineResultValue ::
  "rvpf_pipe_engineRequest option \<Rightarrow> string option \<Rightarrow> rvpf_pipe_engineRequest pipe_result" where
  "rvpf_pipe_setEngineResultValue request v =
     (case request of
        None \<Rightarrow> Inl Exit_fatal
      | Some r \<Rightarrow>
          (case er_result r of
             None \<Rightarrow> Inl Exit_error
           | Some result \<Rightarrow>
               Inr (r\<lparr>er_result := Some (result\<lparr>pv_value := cloneString v\<rparr>)\<rparr>)))"

definition rvpf_pipe_isValueDeleted :: "rvpf_pipe_pointValue option \<Rightarrow> bool" where
  "rvpf_pipe_isValueDeleted pointValue =
     (case pointValue of None \<Rightarrow> False | Some p \<Rightarrow> pv_state p = Some Deleted_state)"

text \<open>\<^verbatim>\<open>rvpf_pipe_endEngineRequest\<close>: the summary, the response line, and the results when
  the summary is positive. The request is freed: what is left is the output.\<close>

definition engine_summary :: "rvpf_pipe_engineRequest \<Rightarrow> int" where
  "engine_summary r =
     (case er_result r of
        Some result \<Rightarrow>
          (if pv_value result \<noteq> None \<or> er_results_count r \<noteq> 0
           then 1 + er_results_count r else 0)
      | None \<Rightarrow> (if er_results_count r \<noteq> 0 then er_results_count r else - 1))"

definition emit_pointValue ::
  "rvpf_pipe_pointValue \<Rightarrow> rvpf_pipe_buffer \<times> pipe_io \<Rightarrow> (rvpf_pipe_buffer \<times> pipe_io) pipe_result" where
  "emit_pointValue pointValue s =
     pbind (pointValueToBuffer pointValue (fst s)) (\<lambda>b. Inr (flushBuffer b (snd s)))"

fun emit_results ::
  "rvpf_pipe_pointValue list \<Rightarrow> rvpf_pipe_buffer \<times> pipe_io \<Rightarrow> (rvpf_pipe_buffer \<times> pipe_io) pipe_result" where
  "emit_results [] s = Inr s"
| "emit_results (result # next) s = pbind (emit_pointValue result s) (emit_results next)"

definition rvpf_pipe_endEngineRequest ::
  "rvpf_pipe_engineRequest option \<Rightarrow> pipe_io \<Rightarrow> pipe_io pipe_result" where
  "rvpf_pipe_endEngineRequest request io =
     (case request of
        None \<Rightarrow> Inl Exit_fatal
      | Some r \<Rightarrow>
          (let summary = engine_summary r
           in pbind (stringToBuffer (er_requestID r) (resetBuffer (er_buffer r))) (\<lambda>b1.
              pbind (stringToBuffer (Some '' '') b1) (\<lambda>b2.
              pbind (intToBuffer summary b2) (\<lambda>b3.
                if summary > 0 then
                  pbind (emit_results (er_results r) (flushBuffer b3 io)) (\<lambda>s.
                    case er_result r of
                      None \<Rightarrow> Inr (snd s)
                    | Some result \<Rightarrow> pbind (emit_pointValue result s) (\<lambda>s1. Inr (snd s1)))
                else Inr (snd (flushBuffer b3 io)))))))"

section \<open>TLS stream: definitions\<close>

text \<open>
  \<^verbatim>\<open>lib/impl/rvpf_ssl.c\<close> as it is compiled with \<open>SSL_ENABLED\<close>. The status codes of
  \<^verbatim>\<open>rvpf_ssl.h\<close>, in the order of the \<open>enum\<close>; \<open>ssl_code\<close> is the value of the enumerator.
\<close>

datatype rvpf_ssl_status =
    RVPF_SSL_OK
  | RVPF_SSL_ASK_ERR
  | RVPF_SSL_ILLEGAL_STATE
  | RVPF_SSL_ILLEGAL_ARG
  | RVPF_SSL_INTERNAL_ERROR
  | RVPF_SSL_SERVER_CLOSED
  | RVPF_SSL_BAD_ADDRESS
  | RVPF_SSL_UNKNOWN_HOST
  | RVPF_SSL_UNTRUSTED_HOST
  | RVPF_SSL_UNKNOWN_ERROR

fun ssl_code :: "rvpf_ssl_status \<Rightarrow> int" where
  "ssl_code RVPF_SSL_OK = 0"
| "ssl_code RVPF_SSL_ASK_ERR = 1"
| "ssl_code RVPF_SSL_ILLEGAL_STATE = 2"
| "ssl_code RVPF_SSL_ILLEGAL_ARG = 3"
| "ssl_code RVPF_SSL_INTERNAL_ERROR = 4"
| "ssl_code RVPF_SSL_SERVER_CLOSED = 5"
| "ssl_code RVPF_SSL_BAD_ADDRESS = 6"
| "ssl_code RVPF_SSL_UNKNOWN_HOST = 7"
| "ssl_code RVPF_SSL_UNTRUSTED_HOST = 8"
| "ssl_code RVPF_SSL_UNKNOWN_ERROR = 9"

text \<open>
  The connection object of the OpenSSL library (the \<open>BIO\<close>, with the \<open>SSL\<close> on top of it
  when there is one). What the library and the peer will do is not in the C code: a
  connection carries the results of the calls of \<open>SSL_write\<close> or \<open>BIO_write\<close> to come
  (\<open>cn_writes\<close>: the count returned) and of the calls of \<open>SSL_read\<close> or \<open>BIO_read\<close> to come
  (\<open>cn_reads\<close>: the count returned and the bytes stored in the buffer), for any such
  results; a call beyond the end of the list fails with \<open>-1\<close>. \<open>cn_sent\<close> collects the bytes
  that the library has accepted.
\<close>

record connection =
  cn_sent :: string
  cn_writes :: "int list"
  cn_reads :: "(int \<times> string) list"

text \<open>
  The results of the calls of the library that \<^verbatim>\<open>rvpf_ssl_open\<close> and \<^verbatim>\<open>_initCTX\<close> make, each
  made at most once by a call of these: the object returned (\<open>NULL\<close> is \<open>None\<close> or \<open>False\<close>),
  the integer returned, or whether the call succeeds.
\<close>

record openssl =
  lib_SSL_CTX_new :: bool
  lib_BIO_new :: "connection option"
  lib_BIO_do_connect :: int
  lib_SSL_CTX_load_verify_locations :: bool
  lib_SSL_CTX_use_certificate_chain_file :: bool
  lib_SSL_CTX_use_PrivateKey_file :: bool
  lib_SSL_CTX_set_cipher_list :: bool
  lib_SSL_new :: bool
  lib_SSL_connect :: int
  lib_SSL_get_peer_certificate :: bool

text \<open>
  \<^verbatim>\<open>struct rvpf_ssl_context\<close>. \<open>ssl_bio\<close> is the connection when \<open>bio\<close> is not \<open>NULL\<close>; \<open>ssl_ctx\<close>
  and \<open>ssl_ssl\<close> tell whether \<open>ctx\<close> and \<open>ssl\<close> are not \<open>NULL\<close>. \<open>int\<close> has 32 bits and
  \<open>unsigned long\<close> 64.
\<close>

record rvpf_ssl_context =
  ssl_host :: "string option"
  ssl_port :: "32 word"
  ssl_bio :: "connection option"
  ssl_ctx :: bool
  ssl_ssl :: bool
  ssl_trustFile :: "string option"
  ssl_trustDirectory :: "string option"
  ssl_certificateFile :: "string option"
  ssl_status :: rvpf_ssl_status
  ssl_errorMessage :: "string option"

definition rvpf_ssl_clearError :: "rvpf_ssl_context \<Rightarrow> rvpf_ssl_context" where
  "rvpf_ssl_clearError context = context\<lparr>ssl_status := RVPF_SSL_OK\<rparr>"

definition rvpf_ssl_close :: "rvpf_ssl_context \<Rightarrow> int \<times> rvpf_ssl_context" where
  "rvpf_ssl_close context =
     (let context' =
        (if ssl_ssl context then context\<lparr>ssl_ssl := False, ssl_bio := None\<rparr>
         else if ssl_bio context \<noteq> None then context\<lparr>ssl_bio := None\<rparr>
         else context)
      in (ssl_code (ssl_status context'), context'))"

text \<open>\<^verbatim>\<open>RVPF_MEM_ALLOCATE\<close> is \<open>calloc\<close>: the fields start as zero.\<close>

definition rvpf_ssl_create :: rvpf_ssl_context where
  "rvpf_ssl_create =
     \<lparr>ssl_host = None, ssl_port = 0, ssl_bio = None, ssl_ctx = False, ssl_ssl = False,
      ssl_trustFile = None, ssl_trustDirectory = None, ssl_certificateFile = None,
      ssl_status = RVPF_SSL_OK, ssl_errorMessage = None\<rparr>"

definition rvpf_ssl_failed :: "rvpf_ssl_context \<Rightarrow> bool" where
  "rvpf_ssl_failed context \<longleftrightarrow> ssl_status context \<noteq> RVPF_SSL_OK"

definition rvpf_ssl_succeeded :: "rvpf_ssl_context \<Rightarrow> bool" where
  "rvpf_ssl_succeeded context \<longleftrightarrow> ssl_status context = RVPF_SSL_OK"

definition rvpf_ssl_isOpen :: "rvpf_ssl_context \<Rightarrow> bool" where
  "rvpf_ssl_isOpen context \<longleftrightarrow> ssl_bio context \<noteq> None"

definition rvpf_ssl_status :: "rvpf_ssl_context \<Rightarrow> int" where
  "rvpf_ssl_status context = - ssl_code (ssl_status context)"

definition initCTX :: "openssl \<Rightarrow> rvpf_ssl_context \<Rightarrow> rvpf_ssl_context" where
  "initCTX lib context =
     (if \<not> ssl_ctx context then
        (if lib_SSL_CTX_new lib then context\<lparr>ssl_ctx := True\<rparr>
         else context\<lparr>ssl_status := RVPF_SSL_ASK_ERR\<rparr>)
      else context)"

text \<open>\<^verbatim>\<open>_saveString\<close>: the new value of \<open>*destination\<close>, the first \<open>length\<close> characters of the
  source up to its NUL.\<close>

definition saveString :: "string option \<Rightarrow> nat \<Rightarrow> string option" where
  "saveString source len = map_option (\<lambda>s. cstr (take len s)) source"

definition strlen :: "string \<Rightarrow> nat" where
  "strlen s = length (cstr s)"

definition rvpf_ssl_setCertificate ::
  "openssl \<Rightarrow> rvpf_ssl_context \<Rightarrow> string option \<Rightarrow> rvpf_ssl_context" where
  "rvpf_ssl_setCertificate lib context filePath =
     (if rvpf_ssl_succeeded context then
        (initCTX lib context)
          \<lparr>ssl_certificateFile :=
             saveString filePath (case filePath of None \<Rightarrow> 0 | Some p \<Rightarrow> strlen p)\<rparr>
      else context)"

definition rvpf_ssl_setTrust ::
  "openssl \<Rightarrow> rvpf_ssl_context \<Rightarrow> string option \<Rightarrow> string option \<Rightarrow> rvpf_ssl_context" where
  "rvpf_ssl_setTrust lib context filePath directoryPath =
     (if rvpf_ssl_succeeded context then
        (initCTX lib context)
          \<lparr>ssl_trustFile :=
             saveString filePath (case filePath of None \<Rightarrow> 0 | Some p \<Rightarrow> strlen p),
           ssl_trustDirectory :=
             saveString directoryPath (case directoryPath of None \<Rightarrow> 0 | Some p \<Rightarrow> strlen p)\<rparr>
      else context)"

text \<open>\<open>strrchr\<close>: the index of the last occurrence of the character in the string.\<close>

definition strrchr :: "string \<Rightarrow> char \<Rightarrow> nat option" where
  "strrchr s c =
     (if c \<in> set (cstr s)
      then Some (length (cstr s) - 1 - length (takeWhile (\<lambda>x. x \<noteq> c) (rev (cstr s))))
      else None)"

definition isdigit :: "char \<Rightarrow> bool" where
  "isdigit c \<longleftrightarrow> 48 \<le> (of_char c :: nat) \<and> (of_char c :: nat) \<le> 57"

definition digits_value :: "string \<Rightarrow> nat" where
  "digits_value ds = foldl (\<lambda>n c. 10 * n + (of_char c - 48)) 0 ds"

text \<open>
  \<open>strtoul\<close> in base 10: the value and the index of the first character that is not
  converted. White space and one sign are skipped; without a digit after them nothing is
  converted; a value that does not fit is \<open>ULONG_MAX\<close>; a minus sign negates the value as
  an \<open>unsigned long\<close>.
\<close>

definition strtoul :: "string \<Rightarrow> nat \<times> nat" where
  "strtoul s =
     (let spaces = length (takeWhile isspace (cstr s));
          s1 = drop spaces (cstr s);
          signed = (s1 \<noteq> [] \<and> (hd s1 = CHR ''+'' \<or> hd s1 = MINUS));
          s2 = (if signed then tl s1 else s1);
          ds = takeWhile isdigit s2;
          v = min (digits_value ds) (2 ^ 64 - 1)
      in if ds = [] then (0, 0)
         else ((if s1 \<noteq> [] \<and> hd s1 = MINUS then (2 ^ 64 - v) mod 2 ^ 64 else v),
               spaces + (if signed then 1 else 0) + length ds))"

definition COLON :: char where "COLON = CHR '':''"

text \<open>
  \<^verbatim>\<open>rvpf_ssl_open\<close>, in the order of the C code: the test of the state, the reset of the
  status, the address (\<open>pointer\<close> is the index of the last colon), the port, the host, and
  then the calls of the library. The value returned is \<open>context->status\<close>.
\<close>

definition open_address :: "rvpf_ssl_context \<Rightarrow> string option \<Rightarrow> rvpf_ssl_context" where
  "open_address context address =
     (case (case address of None \<Rightarrow> None | Some a \<Rightarrow> strrchr a COLON) of
        None \<Rightarrow> context\<lparr>ssl_status := RVPF_SSL_BAD_ADDRESS\<rparr>
      | Some pointer \<Rightarrow>
         (let host = (if pointer > 0 then the address else ''127.0.0.1'');
              len = (if pointer > 0 then pointer else strlen ''127.0.0.1'');
              c = (if rvpf_ssl_succeeded context then
                     (let number = drop (pointer + 1) (cstr (the address));
                          (v, e) = strtoul number;
                          c = context\<lparr>ssl_port := of_nat v\<rparr>
                      in if drop e number \<noteq> [] \<or> ssl_port c = 0
                         then c\<lparr>ssl_status := RVPF_SSL_BAD_ADDRESS\<rparr> else c)
                   else context)
          in if rvpf_ssl_succeeded c then c\<lparr>ssl_host := saveString (Some host) len\<rparr> else c))"

definition open_connect :: "openssl \<Rightarrow> rvpf_ssl_context \<Rightarrow> rvpf_ssl_context" where
  "open_connect lib context =
     (let secure = ssl_ctx context;
          verified = (ssl_trustFile context \<noteq> None \<or> ssl_trustDirectory context \<noteq> None);
          certified = (ssl_certificateFile context \<noteq> None);
          c = context\<lparr>ssl_bio := lib_BIO_new lib\<rparr>;
          c = (if ssl_bio c = None then c\<lparr>ssl_status := RVPF_SSL_ASK_ERR\<rparr> else c);
          c = (if rvpf_ssl_succeeded c \<and> lib_BIO_do_connect lib \<le> 0
               then c\<lparr>ssl_status := RVPF_SSL_ASK_ERR\<rparr> else c);
          c = (if verified \<and> rvpf_ssl_succeeded c \<and> \<not> lib_SSL_CTX_load_verify_locations lib
               then c\<lparr>ssl_status := RVPF_SSL_ASK_ERR\<rparr> else c);
          c = (if certified \<and> rvpf_ssl_succeeded c \<and> \<not> lib_SSL_CTX_use_certificate_chain_file lib
               then c\<lparr>ssl_status := RVPF_SSL_ASK_ERR\<rparr> else c);
          c = (if certified \<and> rvpf_ssl_succeeded c \<and> \<not> lib_SSL_CTX_use_PrivateKey_file lib
               then c\<lparr>ssl_status := RVPF_SSL_ASK_ERR\<rparr> else c);
          c = (if secure \<and> rvpf_ssl_succeeded c \<and> \<not> lib_SSL_CTX_set_cipher_list lib
               then c\<lparr>ssl_status := RVPF_SSL_ASK_ERR\<rparr> else c);
          c = (if secure \<and> rvpf_ssl_succeeded c then
                 (if \<not> lib_SSL_new lib then c\<lparr>ssl_status := RVPF_SSL_ASK_ERR\<rparr>
                  else c\<lparr>ssl_ssl := True\<rparr>)
               else c);
          c = (if secure \<and> rvpf_ssl_succeeded c then
                 (if lib_SSL_connect lib \<le> 0 then c\<lparr>ssl_status := RVPF_SSL_ASK_ERR\<rparr>
                  else if verified \<and> \<not> lib_SSL_get_peer_certificate lib
                    then c\<lparr>ssl_status := RVPF_SSL_UNTRUSTED_HOST\<rparr>
                  else c)
               else c)
      in if rvpf_ssl_failed c then snd (rvpf_ssl_close c) else c)"

definition rvpf_ssl_open ::
  "openssl \<Rightarrow> rvpf_ssl_context \<Rightarrow> string option \<Rightarrow> int \<times> rvpf_ssl_context" where
  "rvpf_ssl_open lib context address =
     (if rvpf_ssl_isOpen context then
        (ssl_code RVPF_SSL_ILLEGAL_STATE, context\<lparr>ssl_status := RVPF_SSL_ILLEGAL_STATE\<rparr>)
      else
        (let c = open_address (context\<lparr>ssl_status := RVPF_SSL_OK\<rparr>) address
         in if rvpf_ssl_failed c then (ssl_code (ssl_status c), c)
            else (let c' = open_connect lib c in (ssl_code (ssl_status c'), c'))))"

text \<open>
  \<^verbatim>\<open>rvpf_ssl_receive\<close>. The argument tells whether \<open>buffer\<close> is not \<open>NULL\<close>; the result is the
  count returned, the bytes stored at \<open>buffer\<close> and the context. The calls of \<open>SSL_read\<close> and
  of \<open>BIO_read\<close> take the next result of the connection; what the library returns for a
  \<open>NULL\<close> \<open>BIO\<close> depends on its version, and is taken to be the failure \<open>-1\<close>.
\<close>

definition conn_read :: "connection option \<Rightarrow> nat \<Rightarrow> int \<times> string \<times> connection option" where
  "conn_read bio sz =
     (case bio of
        None \<Rightarrow> (- 1, [], None)
      | Some cn \<Rightarrow>
         (case cn_reads cn of
            [] \<Rightarrow> (- 1, [], Some cn)
          | (count, bytes) # reads \<Rightarrow>
              (count, take (min (nat count) sz) bytes, Some (cn\<lparr>cn_reads := reads\<rparr>))))"

definition rvpf_ssl_receive ::
  "rvpf_ssl_context \<Rightarrow> bool \<Rightarrow> nat \<Rightarrow> int \<times> string \<times> rvpf_ssl_context" where
  "rvpf_ssl_receive context buffer sz =
     (if rvpf_ssl_failed context then (0, [], context)
      else if \<not> buffer \<or> sz < 1 then (0, [], context\<lparr>ssl_status := RVPF_SSL_ILLEGAL_ARG\<rparr>)
      else
        (let (count, bytes, bio) = conn_read (ssl_bio context) sz;
             c = context\<lparr>ssl_bio := bio\<rparr>
         in (count, bytes,
             if count < 0 then
               c\<lparr>ssl_status := (if count = - 1 then RVPF_SSL_ASK_ERR else RVPF_SSL_INTERNAL_ERROR)\<rparr>
             else if count = 0 then c\<lparr>ssl_status := RVPF_SSL_SERVER_CLOSED\<rparr>
             else c)))"

text \<open>
  \<^verbatim>\<open>rvpf_ssl_send\<close>. \<open>buffer\<close> holds the bytes at the pointer, \<open>size\<close> of them at least; the
  result is the count returned and the context.
\<close>

definition conn_write :: "connection option \<Rightarrow> string \<Rightarrow> int \<times> connection option" where
  "conn_write bio bytes =
     (case bio of
        None \<Rightarrow> (- 1, None)
      | Some cn \<Rightarrow>
         (case cn_writes cn of
            [] \<Rightarrow> (- 1, Some cn)
          | count # writes \<Rightarrow>
              (count, Some (cn\<lparr>cn_writes := writes,
                               cn_sent := cn_sent cn @ take (nat count) bytes\<rparr>))))"

definition rvpf_ssl_send ::
  "rvpf_ssl_context \<Rightarrow> string option \<Rightarrow> nat \<Rightarrow> int \<times> rvpf_ssl_context" where
  "rvpf_ssl_send context buffer sz =
     (if rvpf_ssl_failed context then (0, context)
      else if buffer = None \<or> sz < 1 then (0, context\<lparr>ssl_status := RVPF_SSL_ILLEGAL_ARG\<rparr>)
      else
        (let (count, bio) = conn_write (ssl_bio context) (take sz (the buffer));
             c = context\<lparr>ssl_bio := bio\<rparr>
         in (count,
             if count \<le> 0 then
               c\<lparr>ssl_status := (if count = - 1 then RVPF_SSL_ASK_ERR else RVPF_SSL_INTERNAL_ERROR)\<rparr>
             else c)))"

section \<open>XPVPC client: definitions\<close>

text \<open>
  \<^verbatim>\<open>lib/impl/rvpf_xpvpc.c\<close>. The status codes of \<^verbatim>\<open>rvpf_xpvpc.h\<close>, in the order of the \<open>enum\<close>;
  \<open>xpvpc_code\<close> is the value of the enumerator.
\<close>

datatype rvpf_xpvpc_status =
    RVPF_XPVPC_OK
  | RVPF_XPVPC_ILLEGAL_STATE
  | RVPF_XPVPC_ILLEGAL_ARG
  | RVPF_XPVPC_INTERNAL_ERROR
  | RVPF_XPVPC_UNEXPECTED_RESPONSE
  | RVPF_XPVPC_MISMATCHED_ID
  | RVPF_XPVPC_UNKNOWN_ERROR

fun xpvpc_code :: "rvpf_xpvpc_status \<Rightarrow> int" where
  "xpvpc_code RVPF_XPVPC_OK = 0"
| "xpvpc_code RVPF_XPVPC_ILLEGAL_STATE = 1"
| "xpvpc_code RVPF_XPVPC_ILLEGAL_ARG = 2"
| "xpvpc_code RVPF_XPVPC_INTERNAL_ERROR = 3"
| "xpvpc_code RVPF_XPVPC_UNEXPECTED_RESPONSE = 4"
| "xpvpc_code RVPF_XPVPC_MISMATCHED_ID = 5"
| "xpvpc_code RVPF_XPVPC_UNKNOWN_ERROR = 6"

definition MIN_BUFFER_SIZE :: nat where "MIN_BUFFER_SIZE = 256"

definition APOS :: char where "APOS = CHR 0x27"

definition CLIENT_ATTRIBUTE :: string where "CLIENT_ATTRIBUTE = ''client''"
definition DELETED_VALUE_ELEMENT :: string where "DELETED_VALUE_ELEMENT = ''deleted-value''"
definition FLUSH_ATTRIBUTE :: string where "FLUSH_ATTRIBUTE = ''flush''"
definition ID_ATTRIBUTE :: string where "ID_ATTRIBUTE = ''id''"
definition LOGIN_ELEMENT :: string where "LOGIN_ELEMENT = ''login''"
definition MESSAGES_ELEMENT :: string where "MESSAGES_ELEMENT = ''messages''"
definition PASSWORD_ATTRIBUTE :: string where "PASSWORD_ATTRIBUTE = ''password''"
definition POINT_ELEMENT :: string where "POINT_ELEMENT = ''point''"
definition POINT_VALUE_ELEMENT :: string where "POINT_VALUE_ELEMENT = ''point-value''"
definition STAMP_ELEMENT :: string where "STAMP_ELEMENT = ''stamp''"
definition STATE_ELEMENT :: string where "STATE_ELEMENT = ''state''"
definition USER_ATTRIBUTE :: string where "USER_ATTRIBUTE = ''user''"
definition VALUE_ELEMENT :: string where "VALUE_ELEMENT = ''value''"

definition RESPONSE_START :: string where "RESPONSE_START = ''<done ref='' @ [APOS]"
definition RESPONSE_END :: string where "RESPONSE_END = [APOS] @ ''/>''"

lemmas xpvpc_names = CLIENT_ATTRIBUTE_def DELETED_VALUE_ELEMENT_def FLUSH_ATTRIBUTE_def
  ID_ATTRIBUTE_def LOGIN_ELEMENT_def MESSAGES_ELEMENT_def PASSWORD_ATTRIBUTE_def
  POINT_ELEMENT_def POINT_VALUE_ELEMENT_def STAMP_ELEMENT_def STATE_ELEMENT_def
  USER_ATTRIBUTE_def VALUE_ELEMENT_def

text \<open>
  \<^verbatim>\<open>struct rvpf_xpvpc_context\<close>. \<open>id\<close> is a \<open>long long\<close>, a word of 64 bits; \<open>pending\<close> counts
  the values held in the buffer and is an integer. \<open>xc_buffer\<close> is the block at \<open>buffer\<close>, of
  \<open>xc_size\<close> characters. \<open>xc_ssl\<close> is the TLS-stream context that the context owns.

  \<open>xc_overrun\<close> is not a field of the C structure. \<^verbatim>\<open>_addChar\<close>, when it doubles the block,
  clears \<open>size\<close> characters from \<open>buffer + size\<close> on, \<open>size\<close> being the new size: these
  characters are beyond the block. \<open>xc_overrun\<close> records that this has happened; the
  block itself is as \<open>realloc\<close> leaves it, its new half taken to hold NUL characters.
\<close>

record rvpf_xpvpc_context =
  xc_client :: "string option"
  xc_id :: "64 word"
  xc_pending :: int
  xc_ssl :: rvpf_ssl_context
  xc_buffer :: string
  xc_size :: nat
  xc_limit :: nat
  xc_position :: nat
  xc_status :: rvpf_xpvpc_status
  xc_overrun :: bool

text \<open>The static variable \<open>_autoFlush\<close> is passed to the function that reads it and
  returned by the function that assigns it; it starts as 0.\<close>

definition initial_autoFlush :: int where
  "initial_autoFlush = 0"

definition rvpf_xpvpc_create :: rvpf_xpvpc_context where
  "rvpf_xpvpc_create =
     \<lparr>xc_client = None, xc_id = 0, xc_pending = 0, xc_ssl = rvpf_ssl_create,
      xc_buffer = replicate MIN_BUFFER_SIZE NUL, xc_size = MIN_BUFFER_SIZE,
      xc_limit = 0, xc_position = 0, xc_status = RVPF_XPVPC_OK, xc_overrun = False\<rparr>"

definition rvpf_xpvpc_failed :: "rvpf_xpvpc_context \<Rightarrow> bool" where
  "rvpf_xpvpc_failed context \<longleftrightarrow>
     xc_status context \<noteq> RVPF_XPVPC_OK \<or> rvpf_ssl_failed (xc_ssl context)"

definition rvpf_xpvpc_succeeded :: "rvpf_xpvpc_context \<Rightarrow> bool" where
  "rvpf_xpvpc_succeeded context \<longleftrightarrow>
     xc_status context = RVPF_XPVPC_OK \<and> rvpf_ssl_succeeded (xc_ssl context)"

definition rvpf_xpvpc_isOpen :: "rvpf_xpvpc_context \<Rightarrow> bool" where
  "rvpf_xpvpc_isOpen context \<longleftrightarrow> rvpf_ssl_isOpen (xc_ssl context)"

definition rvpf_xpvpc_status :: "rvpf_xpvpc_context \<Rightarrow> int" where
  "rvpf_xpvpc_status context =
     (if xc_status context \<noteq> RVPF_XPVPC_OK then xpvpc_code (xc_status context)
      else rvpf_ssl_status (xc_ssl context))"

definition rvpf_xpvpc_setClient ::
  "rvpf_xpvpc_context \<Rightarrow> string option \<Rightarrow> rvpf_xpvpc_context" where
  "rvpf_xpvpc_setClient context client = context\<lparr>xc_client := map_option cstr client\<rparr>"

definition resetText :: "rvpf_xpvpc_context \<Rightarrow> rvpf_xpvpc_context" where
  "resetText context = context\<lparr>xc_limit := xc_position context, xc_position := 0\<rparr>"

definition rvpf_xpvpc_clearError :: "rvpf_xpvpc_context \<Rightarrow> rvpf_xpvpc_context" where
  "rvpf_xpvpc_clearError context =
     (resetText context)
       \<lparr>xc_pending := 0, xc_status := RVPF_XPVPC_OK,
        xc_ssl := rvpf_ssl_clearError (xc_ssl context)\<rparr>"

subsection \<open>Building the text\<close>

definition addChar :: "rvpf_xpvpc_context \<Rightarrow> char \<Rightarrow> rvpf_xpvpc_context" where
  "addChar context c =
     (if xc_status context \<noteq> RVPF_XPVPC_OK then context
      else
        (let context =
           (if xc_position context \<ge> xc_size context - 1 then
              context\<lparr>xc_buffer := xc_buffer context @ replicate (xc_size context) NUL,
                      xc_size := xc_size context * 2,
                      xc_overrun := True\<rparr>
            else context)
         in context\<lparr>xc_buffer :=
                       (xc_buffer context)[xc_position context := c,
                                           xc_position context + 1 := NUL],
                    xc_position := xc_position context + 1\<rparr>))"

definition addText :: "rvpf_xpvpc_context \<Rightarrow> string \<Rightarrow> rvpf_xpvpc_context" where
  "addText context s =
     (if xc_status context \<noteq> RVPF_XPVPC_OK then context
      else foldl addChar context (cstr s))"

text \<open>
  \<^verbatim>\<open>_addLong\<close>. \<open>long_digits n\<close> is what the first loop stores in its array of 20
  characters, from \<open>buffer[0]\<close> on: \<open>n % 10 + '0'\<close>, and so on with \<open>n / 10\<close> while this is
  positive; the division of C truncates towards zero. With more than 20 characters the
  loop ends with \<open>INTERNAL_ERROR\<close>; otherwise the second loop adds them from the last to the
  first.
\<close>

definition c_div10 :: "int \<Rightarrow> int" where
  "c_div10 n = (if n < 0 then - ((- n) div 10) else n div 10)"

definition c_mod10 :: "int \<Rightarrow> int" where
  "c_mod10 n = n - 10 * c_div10 n"

function long_digits :: "int \<Rightarrow> string" where
  "long_digits n =
     char_of (c_mod10 n + 48) #
       (if c_div10 n > 0 then long_digits (c_div10 n) else [])"
  by pat_completeness auto
termination
  by (relation "measure nat") (auto simp: c_div10_def split: if_splits)

declare long_digits.simps [simp del]

definition addLong :: "rvpf_xpvpc_context \<Rightarrow> int \<Rightarrow> rvpf_xpvpc_context" where
  "addLong context n =
     (if xc_status context \<noteq> RVPF_XPVPC_OK then context
      else if length (long_digits n) > 20
        then context\<lparr>xc_status := RVPF_XPVPC_INTERNAL_ERROR\<rparr>
      else foldl addChar context (rev (long_digits n)))"

text \<open>
  \<^verbatim>\<open>_addEncoded\<close>: the text without the white space around it, character by character.
  \<open>char\<close> is taken to be signed, as it is on x86: \<open>char_value\<close> is the value of a \<open>char\<close> in
  the comparison \<open>next < ' '\<close> and as the argument of \<^verbatim>\<open>_addLong\<close>.
\<close>

definition char_value :: "char \<Rightarrow> int" where
  "char_value c = sint (of_char c :: 8 word)"

definition addEncoded_char :: "char \<Rightarrow> rvpf_xpvpc_context \<Rightarrow> char \<Rightarrow> rvpf_xpvpc_context" where
  "addEncoded_char quote context next =
     (if next = CHR ''<'' then addText context ''&lt;''
      else if next = CHR ''>'' then addText context ''&gt;''
      else if next = CHR ''&'' then addText context ''&amp;''
      else if next = QUOTE then
        (if quote = next then addText context ''&quot;'' else addChar context next)
      else if next = APOS then
        (if quote = next then addText context ''&apos;'' else addChar context next)
      else if next = CHR 0x09 \<or> next = LF \<or> next = CR then addChar context next
      else if char_value next < char_value SP then
        addChar (addLong (addText context ''&#'') (char_value next)) (CHR '';'')
      else addChar context next)"

definition addEncoded ::
  "rvpf_xpvpc_context \<Rightarrow> string option \<Rightarrow> char \<Rightarrow> rvpf_xpvpc_context" where
  "addEncoded context s quote =
     (if xc_status context \<noteq> RVPF_XPVPC_OK then context
      else
        (case s of
           None \<Rightarrow> context
         | Some s \<Rightarrow>
             foldl (addEncoded_char quote) context
               (rev (dropWhile isspace (rev (dropWhile isspace (cstr s)))))))"

subsection \<open>Sending the text and reading the response\<close>

text \<open>\<^verbatim>\<open>_sendText\<close>: the loop sends the characters from \<open>position\<close> to \<open>limit\<close>; it goes on
  while the TLS stream has not failed, and then the count returned is positive.\<close>

lemma rvpf_ssl_send_positive:
  "rvpf_ssl_send context buffer sz = (count, context') \<Longrightarrow> \<not> rvpf_ssl_failed context'
     \<Longrightarrow> 0 < count"
  by (auto simp: rvpf_ssl_send_def rvpf_ssl_failed_def Let_def
      split: if_splits prod.splits)

function sendText_loop :: "rvpf_xpvpc_context \<Rightarrow> rvpf_xpvpc_context" where
  "sendText_loop context =
     (if xc_position context < xc_limit context then
        (let (count, ssl) =
               rvpf_ssl_send (xc_ssl context)
                 (Some (drop (xc_position context) (xc_buffer context)))
                 (xc_limit context - xc_position context);
             context' = context\<lparr>xc_ssl := ssl\<rparr>
         in if rvpf_ssl_failed ssl then context'
            else sendText_loop
                   (context'\<lparr>xc_position := nat (int (xc_position context') + count)\<rparr>))
      else context)"
  by pat_completeness auto
termination
proof (relation "measure (\<lambda>c. xc_limit c - xc_position c)", goal_cases)
  case 1
  show ?case by simp
next
  case (2 c0 x count ssl c')
  from 2(2,3)[symmetric] 2(5) have "0 < count"
    using rvpf_ssl_send_positive by blast
  with 2(1,4) show ?case by auto
qed

declare sendText_loop.simps [simp del]

definition sendText :: "rvpf_xpvpc_context \<Rightarrow> rvpf_xpvpc_context" where
  "sendText context =
     (if rvpf_xpvpc_failed context then context else sendText_loop (resetText context))"

text \<open>
  \<^verbatim>\<open>_receiveLine\<close>. \<open>store_string\<close> is the block after the library has stored the bytes at
  \<open>buffer + limit\<close>. \<open>scan_line\<close> is the inner loop over the \<open>count\<close> characters received: it
  tells whether it has found the line feed, which it replaces by a NUL.
\<close>

definition store_string :: "string \<Rightarrow> nat \<Rightarrow> string \<Rightarrow> string" where
  "store_string buffer at bytes =
     take at buffer @ bytes @ drop (at + length bytes) buffer"

fun scan_line :: "rvpf_xpvpc_context \<Rightarrow> nat \<Rightarrow> bool \<times> rvpf_xpvpc_context" where
  "scan_line context count =
     (if xc_buffer context ! xc_limit context = LF then
        (True, context\<lparr>xc_buffer := (xc_buffer context)[xc_limit context := NUL]\<rparr>)
      else
        (let context' = context\<lparr>xc_limit := xc_limit context + 1\<rparr>
         in if count - 1 > 0 then scan_line context' (count - 1) else (False, context')))"

declare scan_line.simps [simp del]

lemma scan_line_limit:
  "scan_line c count = (False, c') \<Longrightarrow>
     xc_limit c < xc_limit c' \<and> xc_size c' = xc_size c"
proof (induction c count arbitrary: c' rule: scan_line.induct)
  case (1 c0 count)
  show ?case
  proof (cases "count - 1 > 0")
    case True
    with "1.prems" have
      "scan_line (c0\<lparr>xc_limit := xc_limit c0 + 1\<rparr>) (count - 1) = (False, c')"
      and "xc_buffer c0 ! xc_limit c0 \<noteq> LF"
      by (auto simp: scan_line.simps[of c0 count] Let_def split: if_splits)
    with "1.IH"[OF _ refl True] show ?thesis by fastforce
  next
    case False
    with "1.prems" show ?thesis
      by (auto simp: scan_line.simps[of c0 count] Let_def split: if_splits)
  qed
qed

function receiveLine_loop :: "rvpf_xpvpc_context \<Rightarrow> rvpf_xpvpc_context" where
  "receiveLine_loop context =
     (if xc_limit context < xc_size context - 1 then
        (let (count, bytes, ssl) =
               rvpf_ssl_receive (xc_ssl context) True
                 (xc_size context - 1 - xc_limit context);
             c1 = context\<lparr>xc_ssl := ssl,
                          xc_buffer := store_string (xc_buffer context) (xc_limit context) bytes\<rparr>
         in if rvpf_ssl_failed ssl then c1
            else if int (xc_limit c1) + count \<ge> int (xc_size c1 - 1)
              then c1\<lparr>xc_status := RVPF_XPVPC_INTERNAL_ERROR\<rparr>
            else
              (let c2 = c1\<lparr>xc_buffer := (xc_buffer c1)[nat (int (xc_limit c1) + count) := NUL]\<rparr>;
                   (found, c3) = scan_line c2 (nat count)
               in if found then c3 else receiveLine_loop c3))
      else if xc_limit context \<ge> xc_size context
        then context\<lparr>xc_status := RVPF_XPVPC_UNEXPECTED_RESPONSE\<rparr>
      else context)"
  by pat_completeness auto
termination
proof (relation "measure (\<lambda>c. xc_size c - 1 - xc_limit c)", goal_cases)
  case 1
  show ?case by simp
next
  case (2 c0 x count y bytes ssl c1 c2 z found c3)
  from 2 have "scan_line c2 (nat count) = (False, c3)"
    by (metis (full_types))
  from scan_line_limit[OF this] 2 show ?case
    by auto
qed

declare receiveLine_loop.simps [simp del]

definition receiveLine :: "rvpf_xpvpc_context \<Rightarrow> rvpf_xpvpc_context" where
  "receiveLine context =
     (if xc_status context \<noteq> RVPF_XPVPC_OK then context
      else receiveLine_loop (context\<lparr>xc_limit := 0, xc_position := 0\<rparr>))"

fun match_text :: "rvpf_xpvpc_context \<Rightarrow> string \<Rightarrow> rvpf_xpvpc_context" where
  "match_text context [] = context"
| "match_text context (c # s) =
     (if xc_position context \<ge> xc_limit context
         \<or> xc_buffer context ! xc_position context \<noteq> c
      then context\<lparr>xc_status := RVPF_XPVPC_UNEXPECTED_RESPONSE\<rparr>
      else match_text (context\<lparr>xc_position := xc_position context + 1\<rparr>) s)"

text \<open>The loop of \<^verbatim>\<open>_verifyResponse\<close> over the digits; \<open>receivedId\<close> is a \<open>long long\<close>.\<close>

function receivedId_loop ::
  "rvpf_xpvpc_context \<Rightarrow> 64 word \<Rightarrow> 64 word \<times> rvpf_xpvpc_context" where
  "receivedId_loop context receivedId =
     (if xc_position context < xc_limit context
         \<and> isdigit (xc_buffer context ! xc_position context)
      then receivedId_loop (context\<lparr>xc_position := xc_position context + 1\<rparr>)
             (receivedId * 10
                + (of_char (xc_buffer context ! xc_position context) - of_char (CHR ''0'')))
      else (receivedId, context))"
  by pat_completeness auto
termination
  by (relation "measure (\<lambda>(c, r). xc_limit c - xc_position c)") auto

declare receivedId_loop.simps [simp del]

definition verifyResponse :: "rvpf_xpvpc_context \<Rightarrow> 64 word \<Rightarrow> rvpf_xpvpc_context" where
  "verifyResponse context expectedId =
     (let c1 = receiveLine context in
      if xc_status c1 \<noteq> RVPF_XPVPC_OK then c1
      else
        (let c2 = match_text c1 (cstr RESPONSE_START) in
         if xc_status c2 \<noteq> RVPF_XPVPC_OK then c2
         else
           (let (receivedId, c3) = receivedId_loop c2 0;
                c4 = match_text c3 (cstr RESPONSE_END)
            in if xc_status c4 \<noteq> RVPF_XPVPC_OK then c4
               else resetText
                      (if receivedId \<noteq> expectedId
                       then c4\<lparr>xc_status := RVPF_XPVPC_MISMATCHED_ID\<rparr> else c4))))"

subsection \<open>The operations\<close>

definition rvpf_xpvpc_flush :: "rvpf_xpvpc_context \<Rightarrow> int \<times> rvpf_xpvpc_context" where
  "rvpf_xpvpc_flush context =
     (if rvpf_xpvpc_failed context then (rvpf_xpvpc_status context, context)
      else if \<not> rvpf_xpvpc_isOpen context then
        (xpvpc_code RVPF_XPVPC_ILLEGAL_STATE, context\<lparr>xc_status := RVPF_XPVPC_ILLEGAL_STATE\<rparr>)
      else
        (let c =
           (if xc_pending context \<noteq> 0 then
              (let c = addText context ''</'';
                   c = addText c MESSAGES_ELEMENT;
                   c = addText c (''>'' @ [LF]);
                   c = sendText c;
                   c = verifyResponse c (xc_id c)
               in c\<lparr>xc_pending := 0\<rparr>)
            else context)
         in (xpvpc_code (xc_status c), c)))"

text \<open>\<^verbatim>\<open>rvpf_xpvpc_login\<close>; \<open>login_text\<close> is its part from the first \<^verbatim>\<open>_addChar\<close> to the last
  \<^verbatim>\<open>_addText\<close>, with the increment of \<open>id\<close>.\<close>

definition login_text ::
  "rvpf_xpvpc_context \<Rightarrow> string option \<Rightarrow> string option \<Rightarrow> rvpf_xpvpc_context" where
  "login_text context user password =
     (let c = addChar context (CHR ''<'');
          c = addText c LOGIN_ELEMENT;
          c = addChar c SP;
          c = (if xc_client c \<noteq> None then
                 (let c = addText c CLIENT_ATTRIBUTE;
                      c = addText c (''='' @ [APOS]);
                      c = addEncoded c (xc_client c) APOS
                  in addText c ([APOS] @ '' ''))
               else c);
          c = addText c ID_ATTRIBUTE;
          c = addText c (''='' @ [APOS]);
          c = c\<lparr>xc_id := xc_id c + 1\<rparr>;
          c = addLong c (sint (xc_id c));
          c = addText c ([APOS] @ '' '');
          c = addText c USER_ATTRIBUTE;
          c = addText c (''='' @ [APOS]);
          c = addEncoded c user APOS;
          c = addText c ([APOS] @ '' '');
          c = addText c PASSWORD_ATTRIBUTE;
          c = addText c (''='' @ [APOS]);
          c = addEncoded c password APOS
      in addText c ([APOS] @ ''/>'' @ [LF]))"

definition rvpf_xpvpc_login ::
  "rvpf_xpvpc_context \<Rightarrow> string option \<Rightarrow> string option \<Rightarrow> int \<times> rvpf_xpvpc_context" where
  "rvpf_xpvpc_login context user password =
     (if rvpf_xpvpc_failed context then (rvpf_xpvpc_status context, context)
      else if \<not> rvpf_xpvpc_isOpen context then
        (xpvpc_code RVPF_XPVPC_ILLEGAL_STATE, context\<lparr>xc_status := RVPF_XPVPC_ILLEGAL_STATE\<rparr>)
      else
        (let c = snd (rvpf_xpvpc_flush context);
             c = login_text c user password;
             c = sendText c;
             c = verifyResponse c (xc_id c)
         in (xpvpc_code (xc_status c), c)))"

definition rvpf_xpvpc_open ::
  "openssl \<Rightarrow> rvpf_xpvpc_context \<Rightarrow> string option \<Rightarrow> int \<times> rvpf_xpvpc_context" where
  "rvpf_xpvpc_open lib context address =
     (if rvpf_ssl_isOpen (xc_ssl context) then
        (xpvpc_code RVPF_XPVPC_ILLEGAL_STATE, context\<lparr>xc_status := RVPF_XPVPC_ILLEGAL_STATE\<rparr>)
      else
        (let (status, ssl) = rvpf_ssl_open lib (xc_ssl context) address
         in (status, context\<lparr>xc_status := RVPF_XPVPC_OK, xc_ssl := ssl\<rparr>)))"

definition rvpf_xpvpc_close :: "rvpf_xpvpc_context \<Rightarrow> int \<times> rvpf_xpvpc_context" where
  "rvpf_xpvpc_close context =
     (if \<not> rvpf_ssl_isOpen (xc_ssl context) then
        (let c = rvpf_xpvpc_clearError context in (xpvpc_code (xc_status c), c))
      else
        (let c = (if rvpf_xpvpc_succeeded context then snd (rvpf_xpvpc_flush context)
                  else context\<lparr>xc_status := RVPF_XPVPC_OK\<rparr>);
             (status, ssl) = rvpf_ssl_close (xc_ssl c)
         in (status, c\<lparr>xc_ssl := ssl\<rparr>)))"

text \<open>
  \<^verbatim>\<open>rvpf_xpvpc_sendValue\<close>. Its first argument is the value of \<open>_autoFlush\<close>. \<open>state\<close> is \<open>NULL\<close>,
  the pointer \<open>_deletedState\<close> or another string. \<open>element_text\<close> is the sequence of calls that
  adds one of the elements \<open>point\<close>, \<open>stamp\<close>, \<open>state\<close> and \<open>value\<close>, which the C code writes
  out four times.
\<close>

definition value_element :: "state_ptr option \<Rightarrow> string" where
  "value_element state =
     (if state = Some Deleted_state then DELETED_VALUE_ELEMENT else POINT_VALUE_ELEMENT)"

text \<open>\<open>messages_text\<close> is the part of \<^verbatim>\<open>rvpf_xpvpc_sendValue\<close> under \<open>if (!context->pending)\<close>,
  \<open>value_text\<close> the part from there to the last \<^verbatim>\<open>_addText\<close>.\<close>

definition messages_text :: "rvpf_xpvpc_context \<Rightarrow> rvpf_xpvpc_context" where
  "messages_text context =
     (let c = addChar context (CHR ''<'');
          c = addText c MESSAGES_ELEMENT;
          c = addChar c SP;
          c = addText c ID_ATTRIBUTE;
          c = addText c (''='' @ [APOS]);
          c = c\<lparr>xc_id := xc_id c + 1\<rparr>;
          c = addLong c (sint (xc_id c));
          c = addText c ([APOS] @ '' '');
          c = addText c FLUSH_ATTRIBUTE
      in addText c (''='' @ [APOS] @ ''yes'' @ [APOS] @ ''>'' @ [LF]))"

definition element_text ::
  "rvpf_xpvpc_context \<Rightarrow> string \<Rightarrow> string option \<Rightarrow> rvpf_xpvpc_context" where
  "element_text context element s =
     (let c = addText context ''  <'';
          c = addText c element;
          c = addChar c (CHR ''>'');
          c = addEncoded c s NUL;
          c = addText c ''</'';
          c = addText c element
      in addText c (''>'' @ [LF]))"

definition value_text ::
  "rvpf_xpvpc_context \<Rightarrow> string option \<Rightarrow> string option \<Rightarrow> state_ptr option
     \<Rightarrow> string option \<Rightarrow> rvpf_xpvpc_context" where
  "value_text context point stamp state val =
     (let c = addText context '' <'';
          c = addText c (value_element state);
          c = addText c (''>'' @ [LF]);
          c = element_text c POINT_ELEMENT point;
          c = element_text c STAMP_ELEMENT stamp;
          c = (case state of
                 Some Deleted_state \<Rightarrow> c
               | _ \<Rightarrow>
                  (let c = (case state of
                              Some (State_text s) \<Rightarrow> element_text c STATE_ELEMENT (Some s)
                            | _ \<Rightarrow> c)
                   in (case val of
                         Some v \<Rightarrow>
                           element_text c VALUE_ELEMENT (Some (dropWhile isspace (cstr v)))
                       | None \<Rightarrow> c)));
          c = addText c '' </'';
          c = addText c (value_element state)
      in addText c (''>'' @ [LF]))"

definition rvpf_xpvpc_sendValue ::
  "int \<Rightarrow> rvpf_xpvpc_context \<Rightarrow> string option \<Rightarrow> string option \<Rightarrow> state_ptr option
     \<Rightarrow> string option \<Rightarrow> int \<times> rvpf_xpvpc_context" where
  "rvpf_xpvpc_sendValue autoFlush context point stamp state val =
     (if rvpf_xpvpc_failed context then (rvpf_xpvpc_status context, context)
      else if \<not> rvpf_xpvpc_isOpen context then
        (xpvpc_code RVPF_XPVPC_ILLEGAL_STATE, context\<lparr>xc_status := RVPF_XPVPC_ILLEGAL_STATE\<rparr>)
      else if point = None \<or> stamp = None then
        (xpvpc_code RVPF_XPVPC_ILLEGAL_ARG, context\<lparr>xc_status := RVPF_XPVPC_ILLEGAL_ARG\<rparr>)
      else
        (let c = (if xc_pending context = 0 then messages_text context else context);
             c = value_text c point stamp state val;
             c = c\<lparr>xc_pending := xc_pending c + 1\<rparr>;
             c = (if autoFlush > 0 \<and> xc_pending c \<ge> autoFlush
                  then snd (rvpf_xpvpc_flush c) else c)
         in (xpvpc_code (xc_status c), c)))"

text \<open>\<^verbatim>\<open>rvpf_xpvpc_setAutoFlush\<close>: the context, and the new value of \<open>_autoFlush\<close>.\<close>

definition rvpf_xpvpc_setAutoFlush ::
  "rvpf_xpvpc_context \<Rightarrow> int \<Rightarrow> rvpf_xpvpc_context \<times> int" where
  "rvpf_xpvpc_setAutoFlush context autoFlush =
     ((if rvpf_xpvpc_isOpen context then snd (rvpf_xpvpc_flush context) else context),
      autoFlush)"

section \<open>Value codec: properties\<close>

lemma MAX_BYTES_BLOCK_pos: "0 < MAX_BYTES_BLOCK"
  by (simp add: MAX_BYTES_BLOCK_def)

lemma splitValue_bytes_Nil: "splitValue_bytes [] = [0, 0]"
  by (subst splitValue_bytes.simps) simp

lemma div_step: "0 < M \<Longrightarrow> M < (L::nat) \<Longrightarrow> L div M = Suc ((L - M) div M)"
  by (simp add: div_if)

lemma mod_step: "M < (L::nat) \<Longrightarrow> L mod M = (L - M) mod M"
  by (simp add: le_mod_geq)

lemma splitValue_bytes_big:
  "length joined > MAX_BYTES_BLOCK \<Longrightarrow> splitValue_bytes joined =
     [word_of_nat (drop_bit 8 MAX_BYTES_BLOCK AND 255), word_of_nat (MAX_BYTES_BLOCK AND 255)] @
     take MAX_BYTES_BLOCK joined @ splitValue_bytes (drop MAX_BYTES_BLOCK joined)"
  using MAX_BYTES_BLOCK_pos by (subst splitValue_bytes.simps) (simp add: Let_def)

lemma splitValue_bytes_small:
  "\<not> length joined > MAX_BYTES_BLOCK \<Longrightarrow> splitValue_bytes joined =
     [word_of_nat (drop_bit 8 (length joined) AND 255), word_of_nat (length joined AND 255)] @
     (if length joined = 0 then [] else joined @ [0, 0])"
  by (subst splitValue_bytes.simps) (simp add: Let_def splitValue_bytes_Nil)

text \<open>
  The number of bytes \<^verbatim>\<open>_splitValue\<close> stores for a payload of \<open>L\<close> bytes: the payload, two
  bytes of length for each full block, and either the terminator alone (when \<open>L\<close> is a
  multiple of the block size) or the length of the last block and the terminator.
\<close>

lemma splitValue_bytes_length:
  "length (splitValue_bytes v) =
     length v + 2 * (length v div MAX_BYTES_BLOCK) +
     (if length v mod MAX_BYTES_BLOCK = 0 then 2 else 4)"
proof (induction v rule: splitValue_bytes.induct)
  case (1 joined)
  note pos = MAX_BYTES_BLOCK_pos
  show ?case
  proof (cases "length joined > MAX_BYTES_BLOCK")
    case True
    define rest where "rest = drop MAX_BYTES_BLOCK joined"
    have len_rest: "length rest = length joined - MAX_BYTES_BLOCK"
      by (simp add: rest_def)
    have ih: "length (splitValue_bytes rest) =
        length rest + 2 * (length rest div MAX_BYTES_BLOCK) +
        (if length rest mod MAX_BYTES_BLOCK = 0 then 2 else 4)"
      unfolding rest_def using True pos by (intro 1[of MAX_BYTES_BLOCK]) simp_all
    have dv: "length joined div MAX_BYTES_BLOCK = Suc (length rest div MAX_BYTES_BLOCK)"
      unfolding len_rest using True pos by (rule div_step[rotated])
    have md: "length joined mod MAX_BYTES_BLOCK = length rest mod MAX_BYTES_BLOCK"
      unfolding len_rest using True by (rule mod_step)
    have "length (splitValue_bytes joined) = 2 + MAX_BYTES_BLOCK + length (splitValue_bytes rest)"
      using True pos by (simp add: splitValue_bytes_big rest_def)
    then show ?thesis
      using True unfolding ih dv md len_rest by simp
  next
    case False
    note unfold = splitValue_bytes_small[OF False]
    show ?thesis
    proof (cases "length joined = MAX_BYTES_BLOCK")
      case True
      then show ?thesis using pos by (simp add: unfold)
    next
      case ne: False
      with False have lt: "length joined < MAX_BYTES_BLOCK" by simp
      then show ?thesis by (simp add: unfold)
    qed
  qed
qed

text \<open>
  For a payload of 65532 bytes \<^verbatim>\<open>_splitLength\<close> reserves two bytes less than
  \<^verbatim>\<open>_splitValue\<close> stores: the test \<^verbatim>\<open>length % MAX_BYTES_BLOCK\<close> is made on the length which
  already counts the block headers, and 65532 + 2 is a multiple of the block size.
\<close>

lemma splitLength_short_at_65532:
  assumes "length v = 65532"
  shows "splitLength 65532 + 2 = length (splitValue_bytes v)"
  using assms by (simp add: splitLength_def Let_def splitValue_bytes_length MAX_BYTES_BLOCK_def)

text \<open>
  Claim C6, as the code has it. For every payload length \<open>L\<close> for which the interim sum
  \<open>L + 2 * (L div 65534 + 1)\<close> of \<^verbatim>\<open>_splitLength\<close> is not a multiple of 65534 (every
  \<open>L < 65532\<close> is such a length), \<^verbatim>\<open>_splitLength(L)\<close> is the number of bytes that
  \<^verbatim>\<open>_splitValue\<close> stores for a payload of \<open>L\<close> bytes (chunks of at most 65534 bytes, each
  after its two bytes of length, and the two-byte zero terminator), plus two more bytes
  when \<open>L\<close> is a multiple of 65534, zero included.
\<close>

theorem splitLength_reserves:
  assumes "(L + (L div MAX_BYTES_BLOCK + 1) * 2) mod MAX_BYTES_BLOCK \<noteq> 0"
    and "length v = L"
  shows "splitLength L =
     length (splitValue_bytes v) + (if L mod MAX_BYTES_BLOCK = 0 then 2 else 0)"
  using assms by (simp add: splitLength_def Let_def splitValue_bytes_length)

text \<open>A payload of three bytes: nine bytes reserved, nine bytes stored.\<close>

theorem splitLength_reserves_witness:
  "(3 + (3 div MAX_BYTES_BLOCK + 1) * 2) mod MAX_BYTES_BLOCK \<noteq> 0 \<and>
   length [1, 2, 3 :: c_store_byte_t] = 3 \<and>
   splitLength 3 =
     length (splitValue_bytes [1, 2, 3]) + (if (3::nat) mod MAX_BYTES_BLOCK = 0 then 2 else 0)"
  using splitLength_reserves[of 3 "[1, 2, 3]"] by (simp add: MAX_BYTES_BLOCK_def)

text \<open>
  Claim C6 as stated fails for the empty payload: zero is not a non-zero multiple of
  65534, so the claim has the reservation equal to the two bytes stored, and
  \<^verbatim>\<open>_splitLength(0)\<close> is 4.
\<close>

theorem splitLength_empty_counterexample:
  "\<not> (splitLength 0 =
      length (splitValue_bytes []) +
      (if (0::nat) \<noteq> 0 \<and> (0::nat) mod MAX_BYTES_BLOCK = 0 then 2 else 0))"
  by (simp add: splitLength_def Let_def splitValue_bytes_Nil MAX_BYTES_BLOCK_def)

text \<open>
  Claim C5 at a negative \<open>SHORT\<close>. \<^verbatim>\<open>CStore_newValue(cStore, VALUE_TYPE_SHORT, -1)\<close> stores
  the bytes \<open>0xFF 0xFF\<close>; \<^verbatim>\<open>CStore_valueToLong\<close> builds the result from the two bytes as
  unsigned values and returns 65535, where the \<open>INTEGER\<close> and \<open>BYTE\<close> cases return the
  value with its sign.
\<close>

theorem valueToLong_short_minus_1:
  "obind (CStore_newValue (NV_SHORT (- 1))) (CStore_valueToLong c) = Inr (True, 65535)"
  by (simp add: CStore_newValue_def newValue_length_def newValue_fill_def obind_def
      CStore_allocate_value_def put_bytes_def store_at_def be_bytes_short_def
      CStore_valueToLong_def CStore_getValueType_def peek_def value_type_defs payload_def
      long_of_2_def int_shl_def Let_def unsigned_minus_1_eq_mask mask_eq_exp_minus_1)

section \<open>Handles map: properties\<close>

lemma replicate_4: "replicate 4 x = [x, x, x, x]"
  by (simp add: numeral_eq_Suc)

lemma capacity_loop_1_3: "capacity_loop (Suc 0) (Suc (Suc (Suc 0))) = 4"
proof -
  have "capacity_loop 1 3 = 4"
    by (simp add: capacity_loop.simps)
  then show ?thesis
    by (simp add: numeral_3_eq_3)
qed

lemma HandlesMap_create_2:
  "HandlesMap_create 2 =
     Inr \<lparr>hm_table = [[], [], [], []], hm_capacity = 4, hm_size = 0, hm_threshold = 3\<rparr>"
  by (simp add: HandlesMap_create_def MAXIMUM_CAPACITY_def capacity_loop_1_3 load_threshold_def
      replicate_4)

lemma index_of_4: "unat (hash_scramble 4) AND 3 = (1::nat)"
  by (simp add: hash_scramble_def Let_def)

lemma index_of_5: "unat (hash_scramble 5) AND 3 = (1::nat)"
  by (simp add: hash_scramble_def Let_def)

text \<open>The capacity is a power of two from the creation on; puts and removes keep it so.\<close>

lemma capacity_loop_power_of_two:
  "\<exists>k. c = 2 ^ k \<Longrightarrow> \<exists>k. capacity_loop c i = 2 ^ k"
proof (induction c i rule: capacity_loop.induct)
  case (1 capacity initialCapacity)
  show ?case
  proof (cases "0 < capacity \<and> capacity < initialCapacity")
    case True
    from 1(2) obtain k where "capacity = 2 ^ k" ..
    then have "push_bit 1 capacity = 2 ^ Suc k"
      by (simp add: push_bit_eq_mult)
    then have "\<exists>k. push_bit 1 capacity = 2 ^ k" ..
    with 1(1) True have "\<exists>k. capacity_loop (push_bit 1 capacity) initialCapacity = 2 ^ k"
      by blast
    moreover have "capacity_loop capacity initialCapacity =
        capacity_loop (push_bit 1 capacity) initialCapacity"
      using True by (subst capacity_loop.simps) simp
    ultimately show ?thesis
      by simp
  next
    case False
    then have "capacity_loop capacity initialCapacity = capacity"
      by (subst capacity_loop.simps) auto
    with 1(2) show ?thesis
      by simp
  qed
qed

lemma HandlesMap_create_capacity:
  "HandlesMap_create n = Inr m \<Longrightarrow> \<exists>k. hm_capacity m = 2 ^ k"
proof -
  assume a: "HandlesMap_create n = Inr m"
  have "\<exists>k. (1::nat) = 2 ^ k"
    by (rule exI[of _ 0]) simp
  then have "\<exists>k. capacity_loop 1 (1 + n * 4 div 3) = 2 ^ k"
    by (rule capacity_loop_power_of_two)
  with a show ?thesis
    by (auto simp: HandlesMap_create_def Let_def split: if_splits)
qed

lemma rehash_capacity:
  "\<exists>k. hm_capacity m = 2 ^ k \<Longrightarrow> \<exists>k. hm_capacity (rehash m) = 2 ^ k"
proof -
  assume "\<exists>k. hm_capacity m = 2 ^ k"
  then obtain k where k: "hm_capacity m = 2 ^ k" ..
  then have "push_bit 1 (hm_capacity m) = 2 ^ Suc k"
    by (simp add: push_bit_eq_mult)
  with k show ?thesis
    by (auto simp: rehash_def Let_def intro: exI[of _ "Suc k"] exI[of _ k])
qed

lemma HandlesMap_put_capacity:
  "\<exists>k. hm_capacity m = 2 ^ k \<Longrightarrow> \<exists>k. hm_capacity (snd (HandlesMap_put m key v)) = 2 ^ k"
  using rehash_capacity[of "m\<lparr>hm_table := (hm_table m)[indexFor m key := (key, v) # hm_table m ! indexFor m key],
                          hm_size := hm_size m + 1\<rparr>"]
  by (auto simp: HandlesMap_put_def Let_def split: option.splits)

lemma HandlesMap_remove_capacity:
  "hm_capacity (snd (HandlesMap_remove m key)) = hm_capacity m"
  by (auto simp: HandlesMap_remove_def Let_def split: option.splits)

text \<open>
  Claim C2 at two keys of one bucket. In a map created for a load of 2 (capacity 4) the
  keys 4 and 5 both go to bucket 1, and 5, put last, is the head of the chain. Removing 5
  sets the bucket to \<open>NULL\<close>: the entry of key 4 goes with it. The size is 1, the table
  holds no key, and \<^verbatim>\<open>HandlesMap_get\<close> for key 4 is 0, not the 40 that was put.
\<close>

theorem HandlesMap_remove_head_loses_chain:
  "obind (HandlesMap_create 2) (\<lambda>m0.
     Inr (let m1 = snd (HandlesMap_put m0 4 40);
              m2 = snd (HandlesMap_put m1 5 50);
              m3 = snd (HandlesMap_remove m2 5)
          in (HandlesMap_size m3, HandlesMap_keys m3, HandlesMap_get m3 4)))
   = Inr (1, [], 0)"
  by (simp add: HandlesMap_create_2 obind_def HandlesMap_put_def HandlesMap_remove_def
      HandlesMap_get_def HandlesMap_size_def HandlesMap_keys_def indexFor_def
      index_of_4 index_of_5 Let_def)

section \<open>PIPE endpoint: properties\<close>

text \<open>
  The text of a point value on a PIPE line, for stating what \<^verbatim>\<open>_pointValueToBuffer\<close> emits:
  inside the state, a left bracket is preceded by a right bracket and a right bracket by a
  left bracket; inside the value, a quote is doubled.
\<close>

definition state_escape :: "char \<Rightarrow> string" where
  "state_escape c =
     (if c = LBRACKET then [RBRACKET, LBRACKET]
      else if c = RBRACKET then [LBRACKET, RBRACKET]
      else [c])"

definition value_escape :: "char \<Rightarrow> string" where
  "value_escape c = (if c = QUOTE then [QUOTE, QUOTE] else [c])"

definition pointValue_text :: "string \<Rightarrow> string \<Rightarrow> state_ptr option \<Rightarrow> string option \<Rightarrow> string" where
  "pointValue_text n s st v =
     cstr n @ [SP] @ cstr s @
     (case st of
        None \<Rightarrow> []
      | Some x \<Rightarrow> [SP, LBRACKET] @ concat (map state_escape (cstr (state_chars x))) @ [RBRACKET]) @
     (case v of
        None \<Rightarrow> []
      | Some y \<Rightarrow> [SP, QUOTE] @ concat (map value_escape (cstr y)) @ [QUOTE])"

lemma b_at_expandBuffer [simp]: "b_at (expandBuffer b n) = b_at b"
  by (simp add: expandBuffer_def Let_def)

lemma b_at_charToBuffer [simp]: "b_at (charToBuffer c b) = b_at b @ [c]"
  by (simp add: charToBuffer_def Let_def)

lemma stringToBuffer_Some:
  "\<exists>b'. stringToBuffer (Some t) b = Inr b' \<and> b_at b' = b_at b @ cstr t"
  by (simp add: stringToBuffer_def Let_def)

lemma b_at_stateChars [simp]:
  "b_at (foldl stateCharToBuffer b xs) = b_at b @ concat (map state_escape xs)"
  by (induction xs arbitrary: b) (simp_all add: stateCharToBuffer_def state_escape_def)

lemma b_at_valueChars [simp]:
  "b_at (foldl valueCharToBuffer b xs) = b_at b @ concat (map value_escape xs)"
  by (induction xs arbitrary: b) (simp_all add: valueCharToBuffer_def value_escape_def)

lemma cstr_literal [simp]: "cstr '' ['' = '' [''" "cstr [SP, QUOTE] = [SP, QUOTE]" "cstr '' '' = '' ''"
  by (simp_all add: cstr_def char_defs)


lemma pointValueToBuffer_at:
  "\<exists>b'. pointValueToBuffer
          \<lparr>pv_pointName = Some n, pv_stamp = Some s, pv_state = st, pv_value = v\<rparr> b = Inr b' \<and>
        b_at b' = b_at b @ pointValue_text n s st v"
proof -
  obtain b1 where b1: "stringToBuffer (Some n) b = Inr b1" "b_at b1 = b_at b @ cstr n"
    using stringToBuffer_Some by blast
  obtain b2 where b2: "stringToBuffer (Some s) (charToBuffer SP b1) = Inr b2"
      "b_at b2 = b_at b @ cstr n @ [SP] @ cstr s"
    using stringToBuffer_Some[of s "charToBuffer SP b1"] b1 by auto
  obtain b4 where b4: "(case st of
              None \<Rightarrow> Inr b2
            | Some state \<Rightarrow>
                pbind (stringToBuffer (Some '' ['') b2) (\<lambda>b3.
                  Inr (charToBuffer RBRACKET
                         (foldl stateCharToBuffer b3 (cstr (state_chars state)))))) = Inr b4"
      "b_at b4 = b_at b2 @ (case st of
        None \<Rightarrow> []
      | Some x \<Rightarrow> [SP, LBRACKET] @ concat (map state_escape (cstr (state_chars x))) @ [RBRACKET])"
  proof (cases st)
    case None
    then show ?thesis using that by simp
  next
    case (Some x)
    obtain b3 where "stringToBuffer (Some '' ['') b2 = Inr b3" "b_at b3 = b_at b2 @ '' [''"
      using stringToBuffer_Some[of "'' [''" b2] by auto
    then show ?thesis using that Some by (simp add: pbind_def char_defs)
  qed
  obtain b6 where b6: "(case v of
         None \<Rightarrow> Inr b4
       | Some y \<Rightarrow>
           pbind (stringToBuffer (Some [SP, QUOTE]) b4) (\<lambda>b5.
             Inr (charToBuffer QUOTE (foldl valueCharToBuffer b5 (cstr y))))) = Inr b6"
      "b_at b6 = b_at b4 @ (case v of
        None \<Rightarrow> []
      | Some y \<Rightarrow> [SP, QUOTE] @ concat (map value_escape (cstr y)) @ [QUOTE])"
  proof (cases v)
    case None
    then show ?thesis using that by simp
  next
    case (Some y)
    obtain b5 where "stringToBuffer (Some [SP, QUOTE]) b4 = Inr b5" "b_at b5 = b_at b4 @ [SP, QUOTE]"
      using stringToBuffer_Some[of "[SP, QUOTE]" b4] by auto
    then show ?thesis using that Some by (simp add: pbind_def)
  qed
  show ?thesis
    using b1 b2 b4 b6 by (simp add: pointValueToBuffer_def pbind_def pointValue_text_def)
qed

text \<open>
  Claim C4, as the code has it. In the text that \<^verbatim>\<open>_pointValueToBuffer\<close> appends to the
  buffer for a point value with a name and a stamp, the state stands between \<open>" ["\<close> and
  \<open>"]"\<close> with each \<open>[\<close> of the state written as the two characters \<open>][\<close> and each \<open>]\<close>
  as \<open>[]\<close>, and the value stands between \<open>" \""\<close> and \<open>"\""\<close> with each quote written
  twice.
\<close>

theorem pointValueToBuffer_escapes:
  "\<exists>b'. pointValueToBuffer
          \<lparr>pv_pointName = Some n, pv_stamp = Some s, pv_state = st, pv_value = v\<rparr> b = Inr b' \<and>
        b_at b' =
          b_at b @ cstr n @ [SP] @ cstr s @
          (case st of
             None \<Rightarrow> []
           | Some x \<Rightarrow>
               [SP, LBRACKET] @
               concat (map (\<lambda>c. if c = LBRACKET then [RBRACKET, LBRACKET]
                               else if c = RBRACKET then [LBRACKET, RBRACKET]
                               else [c]) (cstr (state_chars x))) @
               [RBRACKET]) @
          (case v of
             None \<Rightarrow> []
           | Some y \<Rightarrow>
               [SP, QUOTE] @
               concat (map (\<lambda>c. if c = QUOTE then [QUOTE, QUOTE] else [c]) (cstr y)) @
               [QUOTE])"
  using pointValueToBuffer_at[of n s st v b]
  unfolding pointValue_text_def state_escape_def[abs_def] value_escape_def[abs_def]
  by simp

text \<open>
  Claim C4 as stated fails for the state \<open>[\<close>: the claim has it written as \<open>]]\<close>, that is
  the line \<open>P S []]]\<close>, and the code writes \<open>P S [][]\<close>.
\<close>

theorem pointValueToBuffer_bracket_counterexample:
  "map_sum id b_at
     (pointValueToBuffer
        \<lparr>pv_pointName = Some ''P'', pv_stamp = Some ''S'',
         pv_state = Some (State_text ''[''), pv_value = None\<rparr> new_buffer) = Inr ''P S [][]'' \<and>
   map_sum id b_at
     (pointValueToBuffer
        \<lparr>pv_pointName = Some ''P'', pv_stamp = Some ''S'',
         pv_state = Some (State_text ''[''), pv_value = None\<rparr> new_buffer) \<noteq> Inr ''P S []]]''"
  using pointValueToBuffer_at[of "''P''" "''S''" "Some (State_text ''['')" None new_buffer]
  by (auto simp: pointValue_text_def state_escape_def cstr_def new_buffer_def char_defs)

text \<open>The line \<open>P S [a][b[]] "x""y"\<close> for the state \<open>a[b]\<close> and the value \<open>x"y\<close>.\<close>

theorem pointValueToBuffer_escapes_witness:
  "\<exists>b'. pointValueToBuffer
          \<lparr>pv_pointName = Some ''P'', pv_stamp = Some ''S'',
           pv_state = Some (State_text ''a[b]''),
           pv_value = Some [CHR ''x'', QUOTE, CHR ''y'']\<rparr> new_buffer = Inr b' \<and>
        b_at b' = ''P S [a][b[]] '' @ [QUOTE, CHR ''x'', QUOTE, QUOTE, CHR ''y'', QUOTE]"
  using pointValueToBuffer_escapes[of "''P''" "''S''" "Some (State_text ''a[b]'')"
      "Some [CHR ''x'', QUOTE, CHR ''y'']" new_buffer]
  by (simp add: cstr_def new_buffer_def char_defs)

definition token :: "string \<Rightarrow> bool" where
  "token t \<longleftrightarrow> t \<noteq> [] \<and> (\<forall>c\<in>set t. \<not> isspace c \<and> c \<noteq> NUL)"

definition line_safe :: "string \<Rightarrow> bool" where
  "line_safe t \<longleftrightarrow> NUL \<notin> set t \<and> LF \<notin> set t \<and> CR \<notin> set t"

lemma takeWhile_upto: "\<forall>x\<in>set xs. P x \<Longrightarrow> \<not> P y \<Longrightarrow> takeWhile P (xs @ y # ys) = xs"
  by (induction xs) auto

lemma takeWhile_whole: "\<forall>x\<in>set xs. P x \<Longrightarrow> takeWhile P xs = xs"
  by (induction xs) auto

lemma cstr_no_NUL [simp]: "NUL \<notin> set s \<Longrightarrow> cstr s = s"
  unfolding cstr_def by (rule takeWhile_whole) auto

lemma cstr_append_NUL [simp]: "NUL \<notin> set s \<Longrightarrow> cstr (s @ NUL # t) = s"
  unfolding cstr_def by (rule takeWhile_upto) auto

lemma dropTrailingSpaces_id:
  "s \<noteq> [] \<Longrightarrow> \<not> isspace (last s) \<Longrightarrow> dropTrailingSpaces s = s"
  by (cases s rule: rev_cases) (simp_all add: dropTrailingSpaces_def)


lemma chars_distinct [simp]:
  "LBRACKET \<noteq> RBRACKET" "RBRACKET \<noteq> LBRACKET" "LBRACKET \<noteq> NUL" "RBRACKET \<noteq> NUL"
  "QUOTE \<noteq> NUL" "SP \<noteq> NUL" "NUL \<noteq> SP" "SP \<noteq> LBRACKET" "SP \<noteq> RBRACKET" "SP \<noteq> QUOTE"
  "LBRACKET \<noteq> SP" "RBRACKET \<noteq> SP" "QUOTE \<noteq> SP" "QUOTE \<noteq> LBRACKET" "LBRACKET \<noteq> QUOTE"
  "QUOTE \<noteq> MINUS" "LBRACKET \<noteq> MINUS" "LF \<noteq> NUL" "LF \<noteq> CR" "SP \<noteq> LF" "SP \<noteq> CR"
  "RBRACKET \<noteq> LF" "RBRACKET \<noteq> CR" "QUOTE \<noteq> LF" "QUOTE \<noteq> CR" "LBRACKET \<noteq> LF" "LBRACKET \<noteq> CR"
  "QUOTE \<noteq> RBRACKET" "RBRACKET \<noteq> QUOTE"
  by (simp_all add: char_defs)

lemma isspace_simps [simp]:
  "isspace SP" "isspace LF" "isspace CR" "\<not> isspace RBRACKET" "\<not> isspace QUOTE" "\<not> isspace NUL"
  "\<not> isspace LBRACKET"
  by (simp_all add: isspace_def char_defs)

lemma strspn_sp_0: "s = [] \<or> hd s \<noteq> SP \<Longrightarrow> strspn_sp s = 0"
  by (cases s) (auto simp: strspn_sp_def)

lemma strcspn_sp_token:
  "SP \<notin> set n \<Longrightarrow> NUL \<notin> set n \<Longrightarrow> strcspn_sp (n @ SP # rest) = length n"
  "SP \<notin> set n \<Longrightarrow> NUL \<notin> set n \<Longrightarrow> strcspn_sp n = length n"
  unfolding strcspn_sp_def
  by (subst takeWhile_upto; auto) (subst takeWhile_whole; auto)

lemma nextLine_loop_line:
  assumes "LF \<notin> set xs" "CR \<notin> set xs"
    and "b_at b \<noteq> [] \<or> xs = [] \<or> \<not> isspace (hd xs)"
    and "b_at b @ xs \<noteq> []" "\<not> isspace (last (b_at b @ xs))"
  shows "\<exists>b'. nextLine_loop (xs @ LF # rest) b required =
              Inr (Some (cstr (b_at b @ xs)), b', rest) \<and> b_at b' = b_at b @ xs \<and>
              b_position b' = b_position b"
  using assms
proof (induction xs arbitrary: b)
  case Nil
  then show ?case
    by (simp add: dropTrailingSpaces_id limit_def Let_def)
next
  case (Cons c xs)
  let ?b = "(let buffer1 = expandBuffer b 2 in buffer1\<lparr>b_at := b_at buffer1 @ [c]\<rparr>)"
  have c: "c \<noteq> LF" "c \<noteq> CR" using Cons.prems by auto
  have keep: "limit b \<noteq> 0 \<or> \<not> isspace c" using Cons.prems(3) by (auto simp: limit_def)
  have at: "b_at ?b = b_at b @ [c]" by (simp add: Let_def)
  have pos: "b_position ?b = b_position b" by (simp add: Let_def expandBuffer_def)
  have "\<exists>b'. nextLine_loop (xs @ LF # rest) ?b required =
              Inr (Some (cstr (b_at ?b @ xs)), b', rest) \<and> b_at b' = b_at ?b @ xs \<and>
              b_position b' = b_position ?b"
    by (rule Cons.IH) (use Cons.prems at in auto)
  then show ?case using c keep at pos by (simp add: Let_def)
qed

lemma nextField_mid:
  assumes at: "b_at b = pre @ s @ SP # rest" and pos: "b_position b = length pre"
    and s: "s \<noteq> []" "SP \<notin> set s" "NUL \<notin> set s"
  shows "nextField b required False =
     Inr (Some s, b\<lparr>b_at := pre @ s @ NUL # rest, b_mark := length pre,
                    b_position := length pre + length s\<rparr>)"
proof -
  have lim: "b_position b < limit b" using at pos by (simp add: limit_def)
  have first: "b_at b ! b_position b = hd s" using at pos s(1) by (cases s) (simp_all add: nth_append)
  have notnul: "hd s \<noteq> NUL" using s by (cases s) auto
  have notsp: "hd s \<noteq> SP" using s by (cases s) auto
  have d: "drop (length pre) (b_at b) = s @ SP # rest" using at by simp
  have sp0: "strspn_sp (s @ SP # rest) = 0" using notsp s(1) by (intro strspn_sp_0) (cases s; simp)
  have upd: "(b_at b)[length pre + length s := NUL] = pre @ s @ NUL # rest"
    using at by (simp add: list_update_append)
  have p2: "length pre + length s < limit b" using at by (simp add: limit_def)
  have res: "cstr (drop (length pre) (pre @ s @ NUL # rest)) = s" using s by simp
  show ?thesis
    unfolding nextField_def Let_def
    using lim first notnul p2
    by (simp add: pos d sp0 strcspn_sp_token s upd res)
qed

lemma nextField_mid_end:
  assumes at: "b_at b = pre @ s" and pos: "b_position b = length pre"
    and s: "s \<noteq> []" "SP \<notin> set s" "NUL \<notin> set s"
  shows "nextField b required False =
     Inr (Some s, b\<lparr>b_at := pre @ s, b_mark := length pre,
                    b_position := length pre + length s\<rparr>)"
proof -
  have lim: "b_position b < limit b" using at pos s by (simp add: limit_def)
  have first: "b_at b ! b_position b = hd s" using at pos s(1) by (cases s) (simp_all add: nth_append)
  have notnul: "hd s \<noteq> NUL" using s by (cases s) auto
  have notsp: "hd s \<noteq> SP" using s by (cases s) auto
  have d: "drop (length pre) (b_at b) = s" using at by simp
  have sp0: "strspn_sp s = 0" using notsp s(1) by (intro strspn_sp_0) simp
  have p2: "\<not> length pre + length s < limit b" using at by (simp add: limit_def)
  show ?thesis
    unfolding nextField_def Let_def
    using lim first notnul p2
    by (simp add: pos d sp0 strcspn_sp_token s at)
qed

lemma state_loop_escape:
  "NUL \<notin> set x \<Longrightarrow>
   state_loop (concat (map state_escape x) @ rest) False False kept =
   state_loop rest False False (kept @ x)"
proof (induction x arbitrary: kept)
  case Nil
  then show ?case by simp
next
  case (Cons c x)
  then have c: "c \<noteq> NUL" and x: "NUL \<notin> set x" by auto
  note ih = Cons.IH[OF x, of "kept @ [c]"]
  show ?case
  proof (cases "c = LBRACKET")
    case True
    then show ?thesis using ih by (simp add: state_escape_def)
  next
    case nl: False
    show ?thesis
    proof (cases "c = RBRACKET")
      case True
      then show ?thesis using ih by (simp add: state_escape_def)
    next
      case False
      then show ?thesis using ih nl c by (simp add: state_escape_def)
    qed
  qed
qed

lemma value_loop_escape:
  "NUL \<notin> set y \<Longrightarrow>
   value_loop (concat (map value_escape y) @ rest) False kept =
   value_loop rest False (kept @ y)"
proof (induction y arbitrary: kept)
  case Nil
  then show ?case by simp
next
  case (Cons c y)
  then have c: "c \<noteq> NUL" and y: "NUL \<notin> set y" by auto
  note ih = Cons.IH[OF y, of "kept @ [c]"]
  show ?case
  proof (cases "c = QUOTE")
    case True
    then show ?thesis using ih by (simp add: value_escape_def)
  next
    case False
    then show ?thesis using ih c by (simp add: value_escape_def)
  qed
qed


lemma nextField_after_NUL:
  assumes at: "b_at b = pre @ NUL # s @ SP # rest" and pos: "b_position b = length pre"
    and s: "s \<noteq> []" "SP \<notin> set s" "NUL \<notin> set s"
  shows "nextField b required False =
     Inr (Some s, b\<lparr>b_at := pre @ NUL # s @ NUL # rest, b_mark := length pre + 1,
                    b_position := length pre + 1 + length s\<rparr>)"
proof -
  have lim: "b_position b < limit b" using at pos by (simp add: limit_def)
  have first: "b_at b ! b_position b = NUL" using at pos by (simp add: nth_append)
  have notsp: "hd s \<noteq> SP" using s by (cases s) auto
  have d: "drop (Suc (length pre)) (b_at b) = s @ SP # rest" using at by simp
  have sp0: "strspn_sp (s @ SP # rest) = 0" using notsp s(1) by (intro strspn_sp_0) (cases s; simp)
  have upd: "(b_at b)[Suc (length pre + length s) := NUL] = pre @ NUL # s @ NUL # rest"
    using at by (simp add: list_update_append)
  have p2: "Suc (length pre + length s) < limit b" using at by (simp add: limit_def)
  have res: "cstr (drop (Suc (length pre)) (pre @ NUL # s @ NUL # rest)) = s" using s by simp
  show ?thesis
    unfolding nextField_def Let_def
    using lim first p2
    by (simp add: pos d sp0 strcspn_sp_token s upd res del: drop_append)
qed

lemma nextField_after_NUL_end:
  assumes at: "b_at b = pre @ NUL # s" and pos: "b_position b = length pre"
    and s: "s \<noteq> []" "SP \<notin> set s" "NUL \<notin> set s"
  shows "nextField b required False =
     Inr (Some s, b\<lparr>b_at := pre @ NUL # s, b_mark := length pre + 1,
                    b_position := length pre + 1 + length s\<rparr>)"
proof -
  have lim: "b_position b < limit b" using at pos by (simp add: limit_def)
  have first: "b_at b ! b_position b = NUL" using at pos by (simp add: nth_append)
  have notsp: "hd s \<noteq> SP" using s by (cases s) auto
  have d: "drop (Suc (length pre)) (b_at b) = s" using at by simp
  have sp0: "strspn_sp s = 0" using notsp s(1) by (intro strspn_sp_0) simp
  have p2: "\<not> Suc (length pre + length s) < limit b" using at by (simp add: limit_def)
  have res: "cstr (drop (Suc (length pre)) (b_at b)) = s" using s d by simp
  show ?thesis
    unfolding nextField_def Let_def
    using lim first p2
    by (simp add: pos d sp0 strcspn_sp_token s res at[symmetric] del: drop_append)
qed

lemma nextField_last:
  assumes at: "b_at b = pre @ NUL # f" and pos: "b_position b = length pre"
    and f: "f \<noteq> []" "hd f \<noteq> SP" "NUL \<notin> set f"
  shows "nextField b False True =
     Inr (Some f, b\<lparr>b_at := pre @ NUL # f, b_mark := length pre + 1,
                    b_position := length pre + 1\<rparr>)"
proof -
  have lim: "b_position b < limit b" using at pos by (simp add: limit_def)
  have first: "b_at b ! b_position b = NUL" using at pos by (simp add: nth_append)
  have d: "drop (Suc (length pre)) (b_at b) = f" using at by simp
  have sp0: "strspn_sp f = 0" using f by (intro strspn_sp_0) simp
  have res: "cstr (drop (Suc (length pre)) (b_at b)) = f" using f d by simp
  show ?thesis
    unfolding nextField_def Let_def
    using lim first f(3)
    by (simp add: pos d sp0 res at[symmetric] del: drop_append)
qed

lemma nextField_none:
  "b_position b = limit b \<Longrightarrow> nextField b False l = Inr (None, b\<lparr>b_mark := b_position b\<rparr>)"
  by (simp add: nextField_def)

lemma fill_state_both:
  assumes "NUL \<notin> set x" "NUL \<notin> set y"
  shows "fill_state pv (LBRACKET # concat (map state_escape x) @ RBRACKET # SP # QUOTE #
                          concat (map value_escape y) @ [QUOTE]) =
         pv\<lparr>pv_state := Some (State_text x), pv_value := Some y\<rparr>"
proof -
  have "state_loop (concat (map state_escape x) @ RBRACKET # SP # QUOTE #
                          concat (map value_escape y) @ [QUOTE]) False False [] =
        Some (x, QUOTE # concat (map value_escape y) @ [QUOTE])"
    using assms by (simp add: state_loop_escape)
  moreover have "value_loop (concat (map value_escape y) @ [QUOTE]) False [] = Some y"
    using assms by (simp add: value_loop_escape)
  ultimately show ?thesis
    by (simp add: fill_state_def fill_value_def)
qed

lemma fill_state_only:
  assumes "NUL \<notin> set x"
  shows "fill_state pv (LBRACKET # concat (map state_escape x) @ [RBRACKET]) =
         pv\<lparr>pv_state := Some (State_text x)\<rparr>"
proof -
  have "state_loop (concat (map state_escape x) @ [RBRACKET]) False False [] = Some (x, [])"
    using assms by (simp add: state_loop_escape)
  then show ?thesis
    by (simp add: fill_state_def fill_value_def)
qed

lemma fill_value_only:
  assumes "NUL \<notin> set y"
  shows "fill_state pv (QUOTE # concat (map value_escape y) @ [QUOTE]) =
         pv\<lparr>pv_value := Some y\<rparr>"
proof -
  have "value_loop (concat (map value_escape y) @ [QUOTE]) False [] = Some y"
    using assms by (simp add: value_loop_escape)
  then show ?thesis
    by (simp add: fill_state_def fill_value_def)
qed


lemma fillPointValue_plain:
  assumes at: "b_at b = n @ SP # s" and pos: "b_position b = 0"
    and n: "n \<noteq> []" "SP \<notin> set n" "NUL \<notin> set n"
    and s: "s \<noteq> []" "SP \<notin> set s" "NUL \<notin> set s"
  shows "\<exists>b'. fillPointValue pv b stampRequired =
           Inr (pv\<lparr>pv_pointName := Some n, pv_stamp := Some s\<rparr>, b')"
proof -
  define b1 where "b1 = b\<lparr>b_at := [] @ n @ NUL # s, b_mark := length ([]::string),
                    b_position := length ([]::string) + length n\<rparr>"
  have f1: "nextField b True False = Inr (Some n, b1)"
    unfolding b1_def by (rule nextField_mid) (use at pos n in simp_all)
  define b2 where "b2 = b1\<lparr>b_at := n @ NUL # s, b_mark := length n + 1,
                    b_position := length n + 1 + length s\<rparr>"
  have f2: "nextField b1 stampRequired False = Inr (Some s, b2)"
    unfolding b2_def by (rule nextField_after_NUL_end) (use s in \<open>simp_all add: b1_def\<close>)
  have f3: "nextField b2 False True = Inr (None, b2\<lparr>b_mark := b_position b2\<rparr>)"
    by (rule nextField_none) (simp add: b2_def limit_def)
  show ?thesis
    by (simp add: fillPointValue_def pbind_def f1 f2 f3 Let_def)
qed

lemma fillPointValue_tail:
  assumes at: "b_at b = n @ SP # s @ SP # f" and pos: "b_position b = 0"
    and n: "n \<noteq> []" "SP \<notin> set n" "NUL \<notin> set n"
    and s: "s \<noteq> []" "SP \<notin> set s" "NUL \<notin> set s"
    and f: "f \<noteq> []" "hd f \<noteq> SP" "NUL \<notin> set f"
  shows "\<exists>b'. fillPointValue pv b stampRequired =
           Inr (fill_state (pv\<lparr>pv_pointName := Some n, pv_stamp := Some s\<rparr>) f, b')"
proof -
  define b1 where "b1 = b\<lparr>b_at := [] @ n @ NUL # s @ SP # f, b_mark := length ([]::string),
                    b_position := length ([]::string) + length n\<rparr>"
  have f1: "nextField b True False = Inr (Some n, b1)"
    unfolding b1_def by (rule nextField_mid) (use at pos n in simp_all)
  define b2 where "b2 = b1\<lparr>b_at := n @ NUL # s @ NUL # f, b_mark := length n + 1,
                    b_position := length n + 1 + length s\<rparr>"
  have f2: "nextField b1 stampRequired False = Inr (Some s, b2)"
    unfolding b2_def by (rule nextField_after_NUL) (use s in \<open>simp_all add: b1_def\<close>)
  define b3 where "b3 = b2\<lparr>b_at := (n @ NUL # s) @ NUL # f, b_mark := length (n @ NUL # s) + 1,
                    b_position := length (n @ NUL # s) + 1\<rparr>"
  have f3: "nextField b2 False True = Inr (Some f, b3)"
    unfolding b3_def by (rule nextField_last) (use f in \<open>simp_all add: b2_def\<close>)
  show ?thesis
    by (simp add: fillPointValue_def pbind_def f1 f2 f3 Let_def)
qed

lemma token_facts:
  assumes "token n"
  shows "n \<noteq> []" "SP \<notin> set n" "NUL \<notin> set n" "LF \<notin> set n" "CR \<notin> set n"
    "\<not> isspace (hd n)" "\<not> isspace (last n)"
  using assms by (auto simp: token_def isspace_def)

lemma state_escape_set:
  "c \<in> set (concat (map state_escape x)) \<Longrightarrow> c \<in> set x \<or> c = LBRACKET \<or> c = RBRACKET"
  by (auto simp: state_escape_def split: if_splits)

lemma value_escape_set:
  "c \<in> set (concat (map value_escape y)) \<Longrightarrow> c \<in> set y \<or> c = QUOTE"
  by (auto simp: value_escape_def split: if_splits)

lemma state_escape_safe: "line_safe x \<Longrightarrow> line_safe (concat (map state_escape x))"
  unfolding line_safe_def using state_escape_set[of _ x] by (auto simp: char_defs)

lemma value_escape_safe: "line_safe y \<Longrightarrow> line_safe (concat (map value_escape y))"
  unfolding line_safe_def using value_escape_set[of _ y] by (auto simp: char_defs)

lemma chars_distinct_sym [simp]:
  "NUL \<noteq> QUOTE" "NUL \<noteq> LBRACKET" "NUL \<noteq> RBRACKET" "NUL \<noteq> LF" "CR \<noteq> LF"
  "LF \<noteq> SP" "CR \<noteq> SP" "LF \<noteq> RBRACKET" "CR \<noteq> RBRACKET" "LF \<noteq> QUOTE" "CR \<noteq> QUOTE"
  "LF \<noteq> LBRACKET" "CR \<noteq> LBRACKET" "MINUS \<noteq> QUOTE" "MINUS \<noteq> LBRACKET" "NUL \<noteq> CR"
  "CR \<noteq> NUL"
  by (simp_all add: char_defs)


lemma pointValue_line_roundtrip:
  assumes n: "token n" and s: "token s"
    and st: "case st of None \<Rightarrow> True | Some x \<Rightarrow> (\<exists>t. x = State_text t \<and> line_safe t)"
    and v: "case v of None \<Rightarrow> True | Some y \<Rightarrow> line_safe y"
    and b2: "b_at b2 = pointValue_text n s st v" "b_position b2 = 0"
  shows "\<exists>b3. fillPointValue null_pointValue b2 stampRequired =
           Inr (\<lparr>pv_pointName = Some n, pv_stamp = Some s, pv_state = st, pv_value = v\<rparr>, b3)"
proof -
  note nf = token_facts[OF n] and sf = token_facts[OF s]
  have base: "null_pointValue\<lparr>pv_pointName := Some n, pv_stamp := Some s\<rparr> =
      \<lparr>pv_pointName = Some n, pv_stamp = Some s, pv_state = None, pv_value = None\<rparr>"
    by (simp add: null_pointValue_def)
  show ?thesis
  proof (cases st)
    case None
    note st_None = None
    show ?thesis
    proof (cases v)
      case None
      have "b_at b2 = n @ SP # s"
        using b2 st_None None nf sf by (simp add: pointValue_text_def)
      from fillPointValue_plain[OF this b2(2) nf(1-3) sf(1-3), of null_pointValue stampRequired]
      show ?thesis using st_None None by (simp add: base)
    next
      case (Some y)
      with v have y: "line_safe y" by simp
      then have ny: "NUL \<notin> set y" by (simp add: line_safe_def)
      let ?f = "QUOTE # concat (map value_escape y) @ [QUOTE]"
      have at: "b_at b2 = n @ SP # s @ SP # ?f"
        using b2 st_None Some nf sf ny by (simp add: pointValue_text_def)
      have f: "?f \<noteq> []" "hd ?f \<noteq> SP" "NUL \<notin> set ?f"
        using value_escape_safe[OF y] by (simp_all add: line_safe_def)
      from fillPointValue_tail[OF at b2(2) nf(1-3) sf(1-3) f, of null_pointValue stampRequired]
      show ?thesis using st_None Some ny by (simp add: base fill_value_only)
    qed
  next
    case (Some x)
    with st obtain t where x: "x = State_text t" and t: "line_safe t" by auto
    then have nt: "NUL \<notin> set t" by (simp add: line_safe_def)
    note st_Some = Some
    show ?thesis
    proof (cases v)
      case None
      let ?f = "LBRACKET # concat (map state_escape t) @ [RBRACKET]"
      have at: "b_at b2 = n @ SP # s @ SP # ?f"
        using b2 st_Some None x nf sf nt by (simp add: pointValue_text_def)
      have f: "?f \<noteq> []" "hd ?f \<noteq> SP" "NUL \<notin> set ?f"
        using state_escape_safe[OF t] by (simp_all add: line_safe_def)
      from fillPointValue_tail[OF at b2(2) nf(1-3) sf(1-3) f, of null_pointValue stampRequired]
      show ?thesis using st_Some None x nt by (simp add: base fill_state_only)
    next
      case (Some y)
      with v have y: "line_safe y" by simp
      then have ny: "NUL \<notin> set y" by (simp add: line_safe_def)
      let ?f = "LBRACKET # concat (map state_escape t) @ RBRACKET # SP # QUOTE #
                  concat (map value_escape y) @ [QUOTE]"
      have at: "b_at b2 = n @ SP # s @ SP # ?f"
        using b2 st_Some Some x nf sf nt ny by (simp add: pointValue_text_def)
      have f: "?f \<noteq> []" "hd ?f \<noteq> SP" "NUL \<notin> set ?f"
        using state_escape_safe[OF t] value_escape_safe[OF y] by (simp_all add: line_safe_def)
      from fillPointValue_tail[OF at b2(2) nf(1-3) sf(1-3) f, of null_pointValue stampRequired]
      show ?thesis using st_Some Some x nt ny by (simp add: base fill_state_both)
    qed
  qed
qed

lemma pointValue_text_line:
  assumes n: "token n" and s: "token s"
    and st: "case st of None \<Rightarrow> True | Some x \<Rightarrow> (\<exists>t. x = State_text t \<and> line_safe t)"
    and v: "case v of None \<Rightarrow> True | Some y \<Rightarrow> line_safe y"
  shows "LF \<notin> set (pointValue_text n s st v)" "CR \<notin> set (pointValue_text n s st v)"
    "NUL \<notin> set (pointValue_text n s st v)"
    "pointValue_text n s st v \<noteq> []" "\<not> isspace (hd (pointValue_text n s st v))"
    "\<not> isspace (last (pointValue_text n s st v))"
proof -
  note nf = token_facts[OF n] and sf = token_facts[OF s]
  define sp where "sp = (case st of None \<Rightarrow> []
      | Some x \<Rightarrow> [SP, LBRACKET] @ concat (map state_escape (cstr (state_chars x))) @ [RBRACKET])"
  define vp where "vp = (case v of None \<Rightarrow> []
      | Some y \<Rightarrow> [SP, QUOTE] @ concat (map value_escape (cstr y)) @ [QUOTE])"
  have shape: "pointValue_text n s st v = n @ SP # s @ sp @ vp"
    using nf sf by (simp add: pointValue_text_def sp_def vp_def)
  have sp: "line_safe (filter (\<lambda>c. c \<noteq> SP) sp)" "sp = [] \<or> (sp \<noteq> [] \<and> last sp = RBRACKET)"
    using st state_escape_safe
    by (auto simp: sp_def line_safe_def split: option.splits)
  have vp: "line_safe (filter (\<lambda>c. c \<noteq> SP) vp)" "vp = [] \<or> (vp \<noteq> [] \<and> last vp = QUOTE)"
    using v value_escape_safe
    by (auto simp: vp_def line_safe_def split: option.splits)
  show "LF \<notin> set (pointValue_text n s st v)" "CR \<notin> set (pointValue_text n s st v)"
    "NUL \<notin> set (pointValue_text n s st v)"
    using nf sf sp(1) vp(1) by (auto simp: shape line_safe_def)
  show "pointValue_text n s st v \<noteq> []" by (simp add: shape)
  show "\<not> isspace (hd (pointValue_text n s st v))" using nf by (simp add: shape)
  show "\<not> isspace (last (pointValue_text n s st v))"
    using sf sp(2) vp(2) by (auto simp: shape)
qed

lemma write_then_read:
  assumes n: "token n" and s: "token s"
    and st: "case st of None \<Rightarrow> True | Some x \<Rightarrow> (\<exists>t. x = State_text t \<and> line_safe t)"
    and v: "case v of None \<Rightarrow> True | Some y \<Rightarrow> line_safe y"
  shows "\<exists>b1 b2.
     pointValueToBuffer \<lparr>pv_pointName = Some n, pv_stamp = Some s, pv_state = st, pv_value = v\<rparr>
       (resetBuffer b) = Inr b1 \<and>
     nextLine b0 required
       \<lparr>io_stdin = io_stdout (snd (flushBuffer b1 \<lparr>io_stdin = [], io_stdout = []\<rparr>)) @ rest,
        io_stdout = out\<rparr> =
       Inr (Some (pointValue_text n s st v), b2, \<lparr>io_stdin = rest, io_stdout = out\<rparr>) \<and>
     b_at b2 = pointValue_text n s st v \<and> b_position b2 = 0"
proof -
  let ?t = "pointValue_text n s st v"
  note tf = pointValue_text_line[OF n s st v]
  obtain b1 where b1: "pointValueToBuffer
      \<lparr>pv_pointName = Some n, pv_stamp = Some s, pv_state = st, pv_value = v\<rparr> (resetBuffer b) = Inr b1"
      "b_at b1 = ?t"
    using pointValueToBuffer_at[of n s st v "resetBuffer b"] by (auto simp: resetBuffer_def)
  have out: "io_stdout (snd (flushBuffer b1 \<lparr>io_stdin = [], io_stdout = []\<rparr>)) = ?t @ [LF]"
    using b1(2) tf(3) by (simp add: flushBuffer_def)
  have "\<exists>b'. nextLine_loop (?t @ LF # rest) (resetBuffer b0) required =
              Inr (Some (cstr (b_at (resetBuffer b0) @ ?t)), b', rest) \<and>
              b_at b' = b_at (resetBuffer b0) @ ?t \<and>
              b_position b' = b_position (resetBuffer b0)"
    by (rule nextLine_loop_line) (use tf in \<open>simp_all add: resetBuffer_def\<close>)
  then obtain b2 where b2: "nextLine_loop (?t @ LF # rest) (resetBuffer b0) required =
      Inr (Some ?t, b2, rest)" "b_at b2 = ?t" "b_position b2 = 0"
    using tf(3) by (auto simp: resetBuffer_def)
  have "nextLine b0 required
       \<lparr>io_stdin = io_stdout (snd (flushBuffer b1 \<lparr>io_stdin = [], io_stdout = []\<rparr>)) @ rest,
        io_stdout = out\<rparr> =
       Inr (Some ?t, b2, \<lparr>io_stdin = rest, io_stdout = out\<rparr>)"
    by (simp add: nextLine_def out b2(1) pbind_def)
  with b1(1) b2(2,3) show ?thesis by blast
qed


text \<open>
  Claim C3, as the code has it. Take a point value whose name and stamp are not empty and
  hold no white space and no NUL, whose state is absent or a string of the heap (not the
  \<open>DELETED\<close> sentinel) and whose value is absent or a string, state and value holding no
  NUL, line feed or carriage return; their brackets and quotes need not be balanced.
  \<^verbatim>\<open>_pointValueToBuffer\<close> and \<^verbatim>\<open>_flushBuffer\<close> write it as a line; \<^verbatim>\<open>_nextLine\<close> reads that
  line from the input and leaves the rest of the input; \<^verbatim>\<open>_fillPointValue\<close> gives back the
  same name, stamp, state and value.
\<close>

theorem pointValue_roundtrip:
  assumes "token n" and "token s"
    and "case st of None \<Rightarrow> True | Some x \<Rightarrow> (\<exists>t. x = State_text t \<and> line_safe t)"
    and "case v of None \<Rightarrow> True | Some y \<Rightarrow> line_safe y"
  shows "\<exists>b1 line b2 b3.
     pointValueToBuffer \<lparr>pv_pointName = Some n, pv_stamp = Some s, pv_state = st, pv_value = v\<rparr>
       (resetBuffer b) = Inr b1 \<and>
     nextLine b0 required
       \<lparr>io_stdin = io_stdout (snd (flushBuffer b1 \<lparr>io_stdin = [], io_stdout = []\<rparr>)) @ rest,
        io_stdout = out\<rparr> =
       Inr (Some line, b2, \<lparr>io_stdin = rest, io_stdout = out\<rparr>) \<and>
     fillPointValue null_pointValue b2 stampRequired =
       Inr (\<lparr>pv_pointName = Some n, pv_stamp = Some s, pv_state = st, pv_value = v\<rparr>, b3)"
proof -
  from write_then_read[OF assms, of b b0 required rest out]
  obtain b1 b2 where w: "pointValueToBuffer
       \<lparr>pv_pointName = Some n, pv_stamp = Some s, pv_state = st, pv_value = v\<rparr>
       (resetBuffer b) = Inr b1"
     "nextLine b0 required
       \<lparr>io_stdin = io_stdout (snd (flushBuffer b1 \<lparr>io_stdin = [], io_stdout = []\<rparr>)) @ rest,
        io_stdout = out\<rparr> =
       Inr (Some (pointValue_text n s st v), b2, \<lparr>io_stdin = rest, io_stdout = out\<rparr>)"
     "b_at b2 = pointValue_text n s st v" "b_position b2 = 0"
    by blast
  from pointValue_line_roundtrip[OF assms w(3,4), of stampRequired]
  obtain b3 where "fillPointValue null_pointValue b2 stampRequired =
       Inr (\<lparr>pv_pointName = Some n, pv_stamp = Some s, pv_state = st, pv_value = v\<rparr>, b3)" ..
  with w(1,2) show ?thesis by blast
qed

text \<open>The point value \<open>P 2020-01-01T00:00:00 [a][b[]] "x""y"\<close>.\<close>

theorem pointValue_roundtrip_witness:
  "token ''P'' \<and> token ''2020-01-01T00:00:00'' \<and>
   line_safe ''a[b]'' \<and> line_safe [CHR ''x'', QUOTE, CHR ''y''] \<and>
   (\<exists>b1 line b2 b3.
     pointValueToBuffer
       \<lparr>pv_pointName = Some ''P'', pv_stamp = Some ''2020-01-01T00:00:00'',
        pv_state = Some (State_text ''a[b]''), pv_value = Some [CHR ''x'', QUOTE, CHR ''y'']\<rparr>
       (resetBuffer new_buffer) = Inr b1 \<and>
     nextLine new_buffer True
       \<lparr>io_stdin = io_stdout (snd (flushBuffer b1 \<lparr>io_stdin = [], io_stdout = []\<rparr>)) @ ''0'',
        io_stdout = []\<rparr> =
       Inr (Some line, b2, \<lparr>io_stdin = ''0'', io_stdout = []\<rparr>) \<and>
     fillPointValue null_pointValue b2 True =
       Inr (\<lparr>pv_pointName = Some ''P'', pv_stamp = Some ''2020-01-01T00:00:00'',
             pv_state = Some (State_text ''a[b]''), pv_value = Some [CHR ''x'', QUOTE, CHR ''y'']\<rparr>, b3))"
proof -
  have t: "token ''P''" "token ''2020-01-01T00:00:00''"
    by (simp_all add: token_def isspace_def char_defs)
  have l: "line_safe ''a[b]''" "line_safe [CHR ''x'', QUOTE, CHR ''y'']"
    by (simp_all add: line_safe_def char_defs)
  show ?thesis
    using t l
      pointValue_roundtrip[of "''P''" "''2020-01-01T00:00:00''" "Some (State_text ''a[b]'')"
        "Some [CHR ''x'', QUOTE, CHR ''y'']" new_buffer new_buffer True "''0''" "[]" True]
    by simp
qed


lemma pbind_Inr: "pbind (Inr x) f = f x"
  by (simp add: pbind_def)

text \<open>
  Claim C3 as stated fails for a point name with a space, which has no bracket and no
  quote to balance: the point value named \<open>a b\<close> with the stamp \<open>s\<close> is written as the line
  \<open>a b s\<close> and read back as the point \<open>a\<close> with the stamp \<open>b\<close>.
\<close>

theorem pointValue_roundtrip_space_counterexample:
  "pbind (pointValueToBuffer
            \<lparr>pv_pointName = Some ''a b'', pv_stamp = Some ''s'', pv_state = None, pv_value = None\<rparr>
            (resetBuffer new_buffer)) (\<lambda>b1.
     pbind (nextLine new_buffer True
              \<lparr>io_stdin = io_stdout (snd (flushBuffer b1 \<lparr>io_stdin = [], io_stdout = []\<rparr>)),
               io_stdout = []\<rparr>) (\<lambda>(line, b2, io).
       pbind (fillPointValue null_pointValue b2 True) (\<lambda>(pv, b3). Inr pv))) =
   Inr \<lparr>pv_pointName = Some ''a'', pv_stamp = Some ''b'', pv_state = None, pv_value = None\<rparr>"
proof -
  from pointValueToBuffer_at[of "''a b''" "''s''" None None "resetBuffer new_buffer"]
  obtain b1 where w: "pointValueToBuffer
       \<lparr>pv_pointName = Some ''a b'', pv_stamp = Some ''s'', pv_state = None, pv_value = None\<rparr>
       (resetBuffer new_buffer) = Inr b1"
    and a: "b_at b1 = b_at (resetBuffer new_buffer) @ pointValue_text ''a b'' ''s'' None None"
    by blast
  have at1: "b_at b1 = ''a b s''"
    unfolding a by (simp add: pointValue_text_def resetBuffer_def cstr_def char_defs)
  have out: "io_stdout (snd (flushBuffer b1 \<lparr>io_stdin = [], io_stdout = []\<rparr>)) = ''a b s'' @ LF # []"
    using at1 by (simp add: flushBuffer_def cstr_def char_defs)
  have "\<exists>b'. nextLine_loop (''a b s'' @ LF # []) (resetBuffer new_buffer) True =
              Inr (Some (cstr (b_at (resetBuffer new_buffer) @ ''a b s'')), b', []) \<and>
              b_at b' = b_at (resetBuffer new_buffer) @ ''a b s'' \<and>
              b_position b' = b_position (resetBuffer new_buffer)"
    by (rule nextLine_loop_line) (simp_all add: resetBuffer_def isspace_def char_defs)
  then obtain b2 where r: "nextLine_loop (''a b s'' @ LF # []) (resetBuffer new_buffer) True =
      Inr (Some (cstr (b_at (resetBuffer new_buffer) @ ''a b s'')), b2, [])"
    and a2: "b_at b2 = b_at (resetBuffer new_buffer) @ ''a b s''"
      "b_position b2 = b_position (resetBuffer new_buffer)"
    by blast
  have c: "cstr (b_at (resetBuffer new_buffer) @ ''a b s'') = ''a b s''"
    by (simp add: resetBuffer_def cstr_def char_defs)
  have nl: "nextLine new_buffer True
              \<lparr>io_stdin = io_stdout (snd (flushBuffer b1 \<lparr>io_stdin = [], io_stdout = []\<rparr>)),
               io_stdout = []\<rparr> = Inr (Some ''a b s'', b2, \<lparr>io_stdin = [], io_stdout = []\<rparr>)"
    unfolding nextLine_def out pipe_io.simps r c pbind_def by simp
  have at2: "b_at b2 = [CHR ''a''] @ SP # [CHR ''b''] @ SP # [CHR ''s'']" "b_position b2 = 0"
    using a2 by (simp_all add: resetBuffer_def char_defs)
  have "\<exists>b'. fillPointValue null_pointValue b2 True =
           Inr (fill_state (null_pointValue\<lparr>pv_pointName := Some [CHR ''a''],
                                            pv_stamp := Some [CHR ''b'']\<rparr>) [CHR ''s''], b')"
    by (rule fillPointValue_tail[OF at2]) (simp_all add: char_defs)
  moreover have "fill_state (null_pointValue\<lparr>pv_pointName := Some [CHR ''a''],
                                            pv_stamp := Some [CHR ''b'']\<rparr>) [CHR ''s''] =
     \<lparr>pv_pointName = Some ''a'', pv_stamp = Some ''b'', pv_state = None, pv_value = None\<rparr>"
    by (simp add: fill_state_def fill_value_def null_pointValue_def char_defs)
  ultimately obtain b3 where f: "fillPointValue null_pointValue b2 True =
      Inr (\<lparr>pv_pointName = Some ''a'', pv_stamp = Some ''b'', pv_state = None, pv_value = None\<rparr>, b3)"
    by auto
  show ?thesis
    by (simp only: w nl f pbind_Inr prod.case)
qed

text \<open>What \<^verbatim>\<open>_nextLine\<close> keeps of a line: the carriage returns and the white space before the
  first other character are not stored, the trailing white space is dropped.\<close>

definition trimmed :: "string \<Rightarrow> string" where
  "trimmed raw = dropTrailingSpaces (filter (\<lambda>c. c \<noteq> CR) (dropWhile isspace raw))"

lemma dropTrailingSpaces_Nil [simp]: "dropTrailingSpaces [] = []"
  by (simp add: dropTrailingSpaces_def)

lemma dropTrailingSpaces_nonempty:
  "s \<noteq> [] \<Longrightarrow> \<not> isspace (hd s) \<Longrightarrow> dropTrailingSpaces s \<noteq> []"
proof (induction s rule: rev_induct)
  case Nil
  then show ?case by simp
next
  case (snoc x xs)
  show ?case
  proof (cases "isspace x")
    case True
    with snoc.prems have "xs \<noteq> []" by (cases xs) auto
    moreover from this snoc.prems have "\<not> isspace (hd xs)" by simp
    ultimately have "dropTrailingSpaces xs \<noteq> []" by (rule snoc.IH)
    with True show ?thesis by (simp add: dropTrailingSpaces_def)
  next
    case False
    then show ?thesis by (simp add: dropTrailingSpaces_def)
  qed
qed

lemma isspace_CR_imp: "\<not> isspace c \<Longrightarrow> c \<noteq> CR"
  by (auto simp: isspace_def)


lemma nextLine_loop_filled:
  assumes "LF \<notin> set raw" and "b_at b \<noteq> []" and "\<not> isspace (hd (b_at b))"
  shows "\<exists>b'. nextLine_loop (raw @ LF # rest) b required =
           Inr (Some (cstr (dropTrailingSpaces (b_at b @ filter (\<lambda>c. c \<noteq> CR) raw))), b', rest) \<and>
         b_at b' = dropTrailingSpaces (b_at b @ filter (\<lambda>c. c \<noteq> CR) raw)"
  using assms
proof (induction raw arbitrary: b)
  case Nil
  then have "dropTrailingSpaces (b_at b) \<noteq> []"
    by (intro dropTrailingSpaces_nonempty) simp_all
  then show ?case
    by (simp add: limit_def Let_def)
next
  case (Cons c raw)
  then have c: "c \<noteq> LF" and raw: "LF \<notin> set raw" by auto
  show ?case
  proof (cases "c = CR")
    case True
    with c Cons.IH[OF raw Cons.prems(2,3)] show ?thesis by simp
  next
    case False
    let ?b = "(let buffer1 = expandBuffer b 2 in buffer1\<lparr>b_at := b_at buffer1 @ [c]\<rparr>)"
    have at: "b_at ?b = b_at b @ [c]" by (simp add: Let_def)
    have "\<exists>b'. nextLine_loop (raw @ LF # rest) ?b required =
           Inr (Some (cstr (dropTrailingSpaces (b_at ?b @ filter (\<lambda>c. c \<noteq> CR) raw))), b', rest) \<and>
         b_at b' = dropTrailingSpaces (b_at ?b @ filter (\<lambda>c. c \<noteq> CR) raw)"
      by (rule Cons.IH[OF raw]) (use Cons.prems in \<open>simp_all add: at\<close>)
    with False c Cons.prems(2) show ?thesis
      by (simp add: at limit_def del: expandBuffer_def)
  qed
qed

lemma nextLine_loop_blank:
  assumes "LF \<notin> set raw" and "b_at b = []" and "trimmed raw = []"
  shows "nextLine_loop (raw @ LF # rest) b required = nextLine_loop rest b required"
  using assms
proof (induction raw)
  case Nil
  have eq: "b\<lparr>b_at := []\<rparr> = b" using Nil.prems(2) by (cases b) simp
  show ?case using Nil.prems(2) by (simp add: limit_def eq)
next
  case (Cons c raw)
  show ?case
  proof (cases "isspace c")
    case True
    with Cons show ?thesis
      by (auto simp: trimmed_def limit_def)
  next
    case False
    then have "dropTrailingSpaces (filter (\<lambda>c. c \<noteq> CR) (c # raw)) \<noteq> []"
      by (intro dropTrailingSpaces_nonempty) (simp_all add: isspace_CR_imp)
    with False Cons.prems(3) show ?thesis
      by (simp add: trimmed_def)
  qed
qed

lemma nextLine_loop_text:
  assumes "LF \<notin> set raw" and "b_at b = []" and "trimmed raw \<noteq> []"
  shows "\<exists>b'. nextLine_loop (raw @ LF # rest) b required =
           Inr (Some (cstr (trimmed raw)), b', rest) \<and> b_at b' = trimmed raw"
  using assms
proof (induction raw)
  case Nil
  then show ?case by (simp add: trimmed_def)
next
  case (Cons c raw)
  then have c: "c \<noteq> LF" and raw: "LF \<notin> set raw" by auto
  show ?case
  proof (cases "isspace c")
    case True
    then have "trimmed (c # raw) = trimmed raw" by (simp add: trimmed_def)
    with Cons.IH[OF raw Cons.prems(2)] Cons.prems(3) True c Cons.prems(2) show ?thesis
      by (auto simp: limit_def)
  next
    case False
    let ?b = "(let buffer1 = expandBuffer b 2 in buffer1\<lparr>b_at := b_at buffer1 @ [c]\<rparr>)"
    have at: "b_at ?b = [c]" using Cons.prems(2) by (simp add: Let_def)
    have t: "trimmed (c # raw) = dropTrailingSpaces (b_at ?b @ filter (\<lambda>c. c \<noteq> CR) raw)"
      using False Cons.prems(2) by (simp add: trimmed_def isspace_CR_imp Let_def)
    have "\<exists>b'. nextLine_loop (raw @ LF # rest) ?b required =
           Inr (Some (cstr (dropTrailingSpaces (b_at ?b @ filter (\<lambda>c. c \<noteq> CR) raw))), b', rest) \<and>
         b_at b' = dropTrailingSpaces (b_at ?b @ filter (\<lambda>c. c \<noteq> CR) raw)"
      by (rule nextLine_loop_filled[OF raw]) (use False Cons.prems(2) in \<open>simp_all add: Let_def\<close>)
    with False c show ?thesis
      unfolding t by (simp add: isspace_CR_imp)
  qed
qed

lemma nextLine_blank:
  assumes "LF \<notin> set raw" and "trimmed raw = []"
  shows "nextLine b required \<lparr>io_stdin = raw @ LF # rest, io_stdout = out\<rparr> =
         nextLine b required \<lparr>io_stdin = rest, io_stdout = out\<rparr>"
proof -
  have "nextLine_loop (raw @ LF # rest) (resetBuffer b) required =
        nextLine_loop rest (resetBuffer b) required"
    by (rule nextLine_loop_blank) (use assms in \<open>simp_all add: resetBuffer_def\<close>)
  then show ?thesis
    unfolding nextLine_def pipe_io.simps by simp
qed

lemma nextLine_text:
  assumes "LF \<notin> set raw" and "trimmed raw \<noteq> []"
  shows "\<exists>b'. nextLine b required \<lparr>io_stdin = raw @ LF # rest, io_stdout = out\<rparr> =
           Inr (Some (cstr (trimmed raw)), b', \<lparr>io_stdin = rest, io_stdout = out\<rparr>) \<and>
         b_at b' = trimmed raw"
proof -
  have "\<exists>b'. nextLine_loop (raw @ LF # rest) (resetBuffer b) required =
           Inr (Some (cstr (trimmed raw)), b', rest) \<and> b_at b' = trimmed raw"
    by (rule nextLine_loop_text) (use assms in \<open>simp_all add: resetBuffer_def\<close>)
  then obtain b' where "nextLine_loop (raw @ LF # rest) (resetBuffer b) required =
           Inr (Some (cstr (trimmed raw)), b', rest)" "b_at b' = trimmed raw"
    by blast
  then have "nextLine b required \<lparr>io_stdin = raw @ LF # rest, io_stdout = out\<rparr> =
           Inr (Some (cstr (trimmed raw)), b', \<lparr>io_stdin = rest, io_stdout = out\<rparr>) \<and>
         b_at b' = trimmed raw"
    unfolding nextLine_def pipe_io.simps by (simp add: pbind_def)
  then show ?thesis ..
qed

lemma firstLine_line:
  assumes lf: "LF \<notin> set raw"
  shows "\<exists>b'. firstLine b \<lparr>io_stdin = raw @ LF # rest, io_stdout = out\<rparr> =
     (if trimmed raw = [] then firstLine b' \<lparr>io_stdin = rest, io_stdout = out\<rparr>
      else if SP \<in> set (cstr (trimmed raw))
        then Inr (Some (cstr (trimmed raw)), b', \<lparr>io_stdin = rest, io_stdout = out\<rparr>)
      else if cstr (trimmed raw) = ''0''
        then Inr (None, b', \<lparr>io_stdin = rest, io_stdout = out\<rparr>)
      else firstLine b' \<lparr>io_stdin = rest, io_stdout = out @ cstr (trimmed raw) @ [LF]\<rparr>)"
proof (cases "trimmed raw = []")
  case True
  have "firstLine b \<lparr>io_stdin = raw @ LF # rest, io_stdout = out\<rparr> =
        firstLine b \<lparr>io_stdin = rest, io_stdout = out\<rparr>"
    by (subst (1 2) firstLine.simps) (simp only: nextLine_blank[OF lf True])
  with True show ?thesis by auto
next
  case False
  from nextLine_text[OF lf False, of b False rest out]
  obtain b1 where nl: "nextLine b False \<lparr>io_stdin = raw @ LF # rest, io_stdout = out\<rparr> =
           Inr (Some (cstr (trimmed raw)), b1, \<lparr>io_stdin = rest, io_stdout = out\<rparr>)"
    and at: "b_at b1 = trimmed raw"
    by blast
  have fl: "flushBuffer b1 \<lparr>io_stdin = rest, io_stdout = out\<rparr> =
      (resetBuffer b1, \<lparr>io_stdin = rest, io_stdout = out @ cstr (trimmed raw) @ [LF]\<rparr>)"
    by (simp add: flushBuffer_def at)
  have "firstLine b \<lparr>io_stdin = raw @ LF # rest, io_stdout = out\<rparr> =
     (if SP \<in> set (cstr (trimmed raw))
        then Inr (Some (cstr (trimmed raw)), b1, \<lparr>io_stdin = rest, io_stdout = out\<rparr>)
      else if cstr (trimmed raw) = ''0''
        then Inr (None, b1, \<lparr>io_stdin = rest, io_stdout = out\<rparr>)
      else firstLine (resetBuffer b1) \<lparr>io_stdin = rest, io_stdout = out @ cstr (trimmed raw) @ [LF]\<rparr>)"
    by (subst firstLine.simps) (simp add: nl fl)
  with False show ?thesis
    by (cases "SP \<in> set (cstr (trimmed raw))"; cases "cstr (trimmed raw) = ''0''") auto
qed


text \<open>
  Claim C9, as the code has it. While \<^verbatim>\<open>_firstLine\<close> scans for the first line of a request,
  a line of the input counts as what \<^verbatim>\<open>_nextLine\<close> keeps of it: the line without its carriage
  returns, without the white space before its first other character and without its
  trailing white space, up to its first NUL. A line of which nothing is kept is skipped
  with no output. A line with a space ends the scan and is the first line; the line \<open>0\<close>
  ends the scan with no line. Every other line is written to the standard output in the
  form kept, followed by a line feed, and the scan goes on with the next line.
\<close>

theorem firstLine_echo:
  assumes "LF \<notin> set raw"
  shows "\<exists>b'. firstLine b \<lparr>io_stdin = raw @ LF # rest, io_stdout = out\<rparr> =
     (if trimmed raw = [] then firstLine b' \<lparr>io_stdin = rest, io_stdout = out\<rparr>
      else if SP \<in> set (cstr (trimmed raw))
        then Inr (Some (cstr (trimmed raw)), b', \<lparr>io_stdin = rest, io_stdout = out\<rparr>)
      else if cstr (trimmed raw) = ''0''
        then Inr (None, b', \<lparr>io_stdin = rest, io_stdout = out\<rparr>)
      else firstLine b' \<lparr>io_stdin = rest, io_stdout = out @ cstr (trimmed raw) @ [LF]\<rparr>)"
  using assms by (rule firstLine_line)

text \<open>The line of a tab, \<open>x\<close> and a tab is written back as \<open>x\<close>.\<close>

theorem firstLine_echo_witness:
  "LF \<notin> set [CHR 0x09, CHR ''x'', CHR 0x09] \<and>
   (\<exists>b'. firstLine new_buffer
           \<lparr>io_stdin = [CHR 0x09, CHR ''x'', CHR 0x09] @ LF # ''0'', io_stdout = []\<rparr> =
         firstLine b' \<lparr>io_stdin = ''0'', io_stdout = [] @ ''x'' @ [LF]\<rparr>)"
proof -
  have h: "LF \<notin> set [CHR 0x09, CHR ''x'', CHR 0x09]"
    by (simp add: char_defs)
  have t: "trimmed [CHR 0x09, CHR ''x'', CHR 0x09] = ''x''"
    by (simp add: trimmed_def dropTrailingSpaces_def isspace_def char_defs)
  have c: "cstr ''x'' = ''x''" "SP \<notin> set ''x''"
    by (simp_all add: cstr_def char_defs)
  from firstLine_echo[OF h, of new_buffer "''0''" "[]"]
  have "\<exists>b'. firstLine new_buffer
           \<lparr>io_stdin = [CHR 0x09, CHR ''x'', CHR 0x09] @ LF # ''0'', io_stdout = []\<rparr> =
         firstLine b' \<lparr>io_stdin = ''0'', io_stdout = [] @ ''x'' @ [LF]\<rparr>"
    by (simp add: t c char_defs)
  with h show ?thesis ..
qed

text \<open>
  Claim C9 as stated fails for a line with white space other than a space before its
  first character: the line of a tab and \<open>x\<close> holds no space and is not \<open>0\<close>, and it
  is written back as \<open>x\<close>, without the tab. (Here the line \<open>0\<close> which follows ends the
  scan, and nothing of the input is left.)
\<close>

theorem firstLine_tab_counterexample:
  "map_sum id (\<lambda>(line, b, io). (line, io_stdin io, io_stdout io))
     (firstLine new_buffer
        \<lparr>io_stdin = [CHR 0x09, CHR ''x''] @ LF # ''0'' @ LF # [], io_stdout = []\<rparr>) =
   Inr (None, [], ''x'' @ [LF])"
proof -
  have h1: "LF \<notin> set [CHR 0x09, CHR ''x'']" and h2: "LF \<notin> set ''0''"
    by (simp_all add: char_defs)
  have t1: "trimmed [CHR 0x09, CHR ''x''] = ''x''" and t2: "trimmed ''0'' = ''0''"
    by (simp_all add: trimmed_def dropTrailingSpaces_def isspace_def char_defs)
  have c: "cstr ''x'' = ''x''" "SP \<notin> set ''x''" "cstr ''0'' = ''0''" "SP \<notin> set ''0''"
    by (simp_all add: cstr_def char_defs)
  from firstLine_line[OF h1, of new_buffer "''0'' @ LF # []" "[]"]
  obtain b1 where s1: "firstLine new_buffer
        \<lparr>io_stdin = [CHR 0x09, CHR ''x''] @ LF # ''0'' @ LF # [], io_stdout = []\<rparr> =
      firstLine b1 \<lparr>io_stdin = ''0'' @ LF # [], io_stdout = [] @ ''x'' @ [LF]\<rparr>"
    by (auto simp add: t1 c char_defs)
  from firstLine_line[OF h2, of b1 "[]" "[] @ ''x'' @ [LF]"]
  obtain b2 where s2: "firstLine b1 \<lparr>io_stdin = ''0'' @ LF # [], io_stdout = [] @ ''x'' @ [LF]\<rparr> =
      Inr (None, b2, \<lparr>io_stdin = [], io_stdout = [] @ ''x'' @ [LF]\<rparr>)"
    by (auto simp add: t2 c char_defs)
  show ?thesis
    unfolding s1 s2 by simp
qed

text \<open>What \<^verbatim>\<open>rvpf_pipe_endEngineRequest\<close> writes for a request whose request ID is set and whose
  results have a name and a stamp (the parser and \<^verbatim>\<open>rvpf_pipe_addEngineResult\<close> see to both).\<close>

definition emittable :: "rvpf_pipe_pointValue \<Rightarrow> bool" where
  "emittable p \<longleftrightarrow> pv_pointName p \<noteq> None \<and> pv_stamp p \<noteq> None"

definition pointValue_line :: "rvpf_pipe_pointValue \<Rightarrow> string" where
  "pointValue_line p =
     (case (pv_pointName p, pv_stamp p) of
        (Some n, Some s) \<Rightarrow> pointValue_text n s (pv_state p) (pv_value p) @ [LF]
      | _ \<Rightarrow> [])"

lemma cstr_no_NUL_in: "NUL \<notin> set (cstr s)"
  unfolding cstr_def by (induction s) auto

lemma pointValue_text_no_NUL: "NUL \<notin> set (pointValue_text n s st v)"
proof -
  have "NUL \<notin> set (concat (map state_escape (cstr x)))" for x
    using state_escape_set[of NUL "cstr x"] cstr_no_NUL_in[of x] by auto
  moreover have "NUL \<notin> set (concat (map value_escape (cstr y)))" for y
    using value_escape_set[of NUL "cstr y"] cstr_no_NUL_in[of y] by auto
  ultimately show ?thesis
    using cstr_no_NUL_in[of n] cstr_no_NUL_in[of s]
    by (auto simp: pointValue_text_def split: option.splits)
qed

lemma emit_pointValue_line:
  assumes "emittable p" and "b_at b = []"
  shows "\<exists>b'. emit_pointValue p (b, io) =
           Inr (b', io\<lparr>io_stdout := io_stdout io @ pointValue_line p\<rparr>) \<and> b_at b' = []"
proof -
  from assms(1) obtain n s where ns: "pv_pointName p = Some n" "pv_stamp p = Some s"
    by (auto simp: emittable_def)
  then have p: "p = \<lparr>pv_pointName = Some n, pv_stamp = Some s, pv_state = pv_state p,
      pv_value = pv_value p\<rparr>"
    by (cases p) simp
  from pointValueToBuffer_at[of n s "pv_state p" "pv_value p" b]
  obtain b1 where b1: "pointValueToBuffer p b = Inr b1"
    "b_at b1 = pointValue_text n s (pv_state p) (pv_value p)"
    using p assms(2) by auto
  have "cstr (b_at b1) = pointValue_text n s (pv_state p) (pv_value p)"
    using pointValue_text_no_NUL b1(2) by simp
  then show ?thesis
    by (simp add: emit_pointValue_def b1(1) pbind_Inr flushBuffer_def resetBuffer_def
        pointValue_line_def ns)
qed

lemma emit_results_lines:
  assumes "\<forall>p\<in>set ps. emittable p" and "b_at b = []"
  shows "\<exists>b'. emit_results ps (b, io) =
           Inr (b', io\<lparr>io_stdout := io_stdout io @ concat (map pointValue_line ps)\<rparr>) \<and>
         b_at b' = []"
  using assms
proof (induction ps arbitrary: b io)
  case Nil
  then show ?case by simp
next
  case (Cons p ps)
  from emit_pointValue_line[of p b io] Cons.prems
  obtain b1 where b1: "emit_pointValue p (b, io) =
      Inr (b1, io\<lparr>io_stdout := io_stdout io @ pointValue_line p\<rparr>)" "b_at b1 = []"
    by auto
  from Cons.IH[of b1 "io\<lparr>io_stdout := io_stdout io @ pointValue_line p\<rparr>"] Cons.prems b1(2)
  obtain b2 where "emit_results ps (b1, io\<lparr>io_stdout := io_stdout io @ pointValue_line p\<rparr>) =
      Inr (b2, io\<lparr>io_stdout := io_stdout io @ pointValue_line p @ concat (map pointValue_line ps)\<rparr>)"
      "b_at b2 = []"
    by auto
  then show ?case
    by (simp add: b1(1) pbind_Inr)
qed


lemma of_char_digit_char: "d < 10 \<Longrightarrow> of_char (digit_char d) = 48 + d"
  by (simp add: digit_char_def)

lemma digit_char_not_NUL: "d < 10 \<Longrightarrow> digit_char d \<noteq> NUL"
proof
  assume d: "d < 10" and "digit_char d = NUL"
  then have "(of_char (digit_char d) :: nat) = of_char NUL" by simp
  with d show False by (simp add: of_char_digit_char NUL_def)
qed

lemma decimal_nat_no_NUL: "NUL \<notin> set (decimal_nat n)"
proof (induction n rule: decimal_nat.induct)
  case (1 n)
  show ?case
  proof (cases "n < 10")
    case True
    then show ?thesis
      by (subst decimal_nat.simps) (simp add: digit_char_not_NUL[symmetric])
  next
    case False
    moreover have "digit_char (n mod 10) \<noteq> NUL"
      by (rule digit_char_not_NUL) simp
    ultimately show ?thesis
      using 1 by (subst decimal_nat.simps) auto
  qed
qed

lemma decimal_int_no_NUL: "NUL \<notin> set (decimal_int i)"
proof -
  have "CHR ''-'' \<noteq> NUL" by (simp add: NUL_def)
  then show ?thesis
    using decimal_nat_no_NUL by (auto simp: decimal_int_def)
qed

lemma endEngineRequest_output:
  assumes rid: "er_requestID r = Some rid"
    and extras: "\<forall>p\<in>set (er_results r). emittable p"
    and result: "\<forall>p. er_result r = Some p \<longrightarrow> emittable p"
  shows "rvpf_pipe_endEngineRequest (Some r) io =
     Inr (io\<lparr>io_stdout := io_stdout io @
            cstr rid @ '' '' @ decimal_int (engine_summary r) @ [LF] @
            (if engine_summary r > 0
             then concat (map pointValue_line
                    (er_results r @ (case er_result r of None \<Rightarrow> [] | Some p \<Rightarrow> [p])))
             else [])\<rparr>)"
proof -
  let ?b0 = "resetBuffer (er_buffer r)"
  obtain b1 where b1: "stringToBuffer (er_requestID r) ?b0 = Inr b1" "b_at b1 = cstr rid"
    using stringToBuffer_Some[of rid ?b0] rid by (auto simp: resetBuffer_def)
  obtain b2 where b2: "stringToBuffer (Some '' '') b1 = Inr b2" "b_at b2 = cstr rid @ '' ''"
    using stringToBuffer_Some[of "'' ''" b1] b1(2) by auto
  note nd = decimal_int_no_NUL[of "engine_summary r"]
  obtain b3 where b3: "intToBuffer (engine_summary r) b2 = Inr b3"
    "b_at b3 = cstr rid @ '' '' @ decimal_int (engine_summary r)"
    using stringToBuffer_Some[of "decimal_int (engine_summary r)" b2] b2(2) nd
    by (auto simp: intToBuffer_def)
  have c3: "cstr (b_at b3) = cstr rid @ '' '' @ decimal_int (engine_summary r)"
    using b3(2) nd cstr_no_NUL_in[of rid] by (simp add: char_defs)
  define io1 where "io1 = io\<lparr>io_stdout := io_stdout io @
            cstr rid @ '' '' @ decimal_int (engine_summary r) @ [LF]\<rparr>"
  have fl: "flushBuffer b3 io = (resetBuffer b3, io1)"
    by (simp add: flushBuffer_def c3 io1_def)
  show ?thesis
  proof (cases "engine_summary r > 0")
    case False
    then show ?thesis
      by (simp add: rvpf_pipe_endEngineRequest_def Let_def b1(1) b2(1) b3(1) pbind_Inr fl io1_def)
  next
    case True
    from emit_results_lines[OF extras, of "resetBuffer b3" io1]
    obtain b4 where b4: "emit_results (er_results r) (resetBuffer b3, io1) =
        Inr (b4, io1\<lparr>io_stdout := io_stdout io1 @ concat (map pointValue_line (er_results r))\<rparr>)"
        "b_at b4 = []"
      by (auto simp: resetBuffer_def)
    show ?thesis
    proof (cases "er_result r")
      case None
      with True have "rvpf_pipe_endEngineRequest (Some r) io =
          Inr (io1\<lparr>io_stdout := io_stdout io1 @ concat (map pointValue_line (er_results r))\<rparr>)"
        by (simp add: rvpf_pipe_endEngineRequest_def Let_def b1(1) b2(1) b3(1) pbind_Inr fl b4(1))
      with True None show ?thesis
        by (simp add: io1_def)
    next
      case (Some p)
      with result have "emittable p" by simp
      from emit_pointValue_line[OF this b4(2),
          of "io1\<lparr>io_stdout := io_stdout io1 @ concat (map pointValue_line (er_results r))\<rparr>"]
      obtain b5 where b5: "emit_pointValue p
          (b4, io1\<lparr>io_stdout := io_stdout io1 @ concat (map pointValue_line (er_results r))\<rparr>) =
        Inr (b5, io1\<lparr>io_stdout := io_stdout io1 @ concat (map pointValue_line (er_results r)) @
                   pointValue_line p\<rparr>)"
        by auto
      from True Some have "rvpf_pipe_endEngineRequest (Some r) io =
          Inr (io1\<lparr>io_stdout := io_stdout io1 @ concat (map pointValue_line (er_results r)) @
                   pointValue_line p\<rparr>)"
        by (simp add: rvpf_pipe_endEngineRequest_def Let_def b1(1) b2(1) b3(1) pbind_Inr fl b4(1) b5)
      with True Some show ?thesis
        by (simp add: io1_def)
    qed
  qed
qed


lemma decimal_int_0: "decimal_int 0 = ''0''"
  by (simp add: decimal_int_def decimal_nat.simps digit_char_def char_of_def bit_simps)

lemma decimal_int_1: "decimal_int 1 = ''1''"
  by (simp add: decimal_int_def decimal_nat.simps digit_char_def char_of_def bit_simps)

lemma decimal_int_minus_1: "decimal_int (- 1) = ''-1''"
  by (simp add: decimal_int_def decimal_nat.simps digit_char_def char_of_def bit_simps)

definition request_42 :: rvpf_pipe_engineRequest where
  "request_42 =
     \<lparr>er_requestID = Some ''42'', er_version = 1, er_buffer = new_buffer,
      er_transformParams = [], er_pointParams = [], er_inputs = [],
      er_result = Some \<lparr>pv_pointName = Some ''P'', pv_stamp = Some ''2020-01-01T00:00:00'',
                         pv_state = None, pv_value = None\<rparr>,
      er_results = [], er_results_count = 0\<rparr>"


text \<open>
  Claim C1, as the code has it. For an engine request whose counter of extra results is
  the number of the extra results it holds, the response line of
  \<^verbatim>\<open>rvpf_pipe_endEngineRequest\<close> is the request ID, a space and the summary, which is \<open>-1\<close>
  when the result has been cleared and there is no extra result, the count of the extra
  results when the result has been cleared and there are some, \<open>0\<close> when the result is
  still there with no value and there is no extra result, and 1 plus the count of the
  extra results otherwise; the extra results and then the result follow when the summary
  is positive.
\<close>

theorem endEngineRequest_summary:
  assumes "er_requestID r = Some rid"
    and "er_results_count r = int (length (er_results r))"
    and "\<forall>p\<in>set (er_results r). emittable p"
    and "\<forall>p. er_result r = Some p \<longrightarrow> emittable p"
    and "summary =
      (case er_result r of
         None \<Rightarrow> if er_results r = [] then - 1 else int (length (er_results r))
       | Some p \<Rightarrow>
           if pv_value p = None \<and> er_results r = [] then 0
           else 1 + int (length (er_results r)))"
  shows "rvpf_pipe_endEngineRequest (Some r) io =
     Inr (io\<lparr>io_stdout := io_stdout io @
            cstr rid @ '' '' @ decimal_int summary @ [LF] @
            (if summary > 0
             then concat (map pointValue_line
                    (er_results r @ (case er_result r of None \<Rightarrow> [] | Some p \<Rightarrow> [p])))
             else [])\<rparr>)"
proof -
  have "engine_summary r = summary"
    using assms(2,5) by (auto simp: engine_summary_def split: option.splits)
  with endEngineRequest_output[OF assms(1,3,4), of io] show ?thesis
    by simp
qed

text \<open>The request 42 with its result still there, no value, no extra result: the response
  is \<open>42 0\<close>.\<close>

theorem endEngineRequest_summary_witness:
  "er_requestID request_42 = Some ''42'' \<and>
   er_results_count request_42 = int (length (er_results request_42)) \<and>
   rvpf_pipe_endEngineRequest (Some request_42) \<lparr>io_stdin = [], io_stdout = []\<rparr> =
     Inr \<lparr>io_stdin = [], io_stdout = ''42 0'' @ [LF]\<rparr>"
  using endEngineRequest_summary[of request_42 "''42''" 0 "\<lparr>io_stdin = [], io_stdout = []\<rparr>"]
  by (simp add: request_42_def emittable_def decimal_int_0 cstr_def char_defs)

text \<open>
  Claim C1 as stated fails for a request whose result is still there with no value and
  with no extra result: the claim has the response \<open>42 -1\<close>, the code answers \<open>42 0\<close>.
\<close>

theorem endEngineRequest_no_value_counterexample:
  "rvpf_pipe_endEngineRequest (Some request_42) \<lparr>io_stdin = [], io_stdout = []\<rparr> =
     Inr \<lparr>io_stdin = [], io_stdout = ''42 0'' @ [LF]\<rparr> \<and>
   rvpf_pipe_endEngineRequest (Some request_42) \<lparr>io_stdin = [], io_stdout = []\<rparr> \<noteq>
     Inr \<lparr>io_stdin = [], io_stdout = ''42 -1'' @ [LF]\<rparr>"
proof -
  have "engine_summary request_42 = 0"
    by (simp add: engine_summary_def request_42_def)
  with endEngineRequest_output[of request_42 "''42''" "\<lparr>io_stdin = [], io_stdout = []\<rparr>"]
  have "rvpf_pipe_endEngineRequest (Some request_42) \<lparr>io_stdin = [], io_stdout = []\<rparr> =
     Inr \<lparr>io_stdin = [], io_stdout = ''42 0'' @ [LF]\<rparr>"
    by (simp add: request_42_def emittable_def decimal_int_0 cstr_def char_defs)
  then show ?thesis
    by simp
qed

text \<open>
  \<^verbatim>\<open>rvpf_pipe_clearEngineResults\<close> empties the list of the extra results and leaves
  \<open>results.count\<close> as it was: after one extra result has been added and the results have
  been cleared, the response announces one result and none follows.
\<close>

lemma endEngineRequest_stale_count:
  "pbind (rvpf_pipe_addEngineResult (Some request_42) (Some ''Q'') (Some ''2020-01-01'') None
            (Some ''1'')) (\<lambda>r1.
     pbind (rvpf_pipe_clearEngineResults (Some r1)) (\<lambda>r2.
       rvpf_pipe_endEngineRequest (Some r2) \<lparr>io_stdin = [], io_stdout = []\<rparr>)) =
   Inr \<lparr>io_stdin = [], io_stdout = ''42 1'' @ [LF]\<rparr>"
proof -
  define r2 where "r2 = request_42\<lparr>er_result := None, er_results := [], er_results_count := 1\<rparr>"
  have a: "pbind (rvpf_pipe_addEngineResult (Some request_42) (Some ''Q'') (Some ''2020-01-01'') None
            (Some ''1'')) (\<lambda>r1. rvpf_pipe_clearEngineResults (Some r1)) = Inr r2"
    by (simp add: rvpf_pipe_addEngineResult_def rvpf_pipe_clearEngineResults_def pbind_def
        cloneString_def cstr_def char_defs r2_def request_42_def)
  have s: "engine_summary r2 = 1"
    by (simp add: engine_summary_def r2_def request_42_def)
  from endEngineRequest_output[of r2 "''42''" "\<lparr>io_stdin = [], io_stdout = []\<rparr>"] s
  have e: "rvpf_pipe_endEngineRequest (Some r2) \<lparr>io_stdin = [], io_stdout = []\<rparr> =
      Inr \<lparr>io_stdin = [], io_stdout = ''42 1'' @ [LF]\<rparr>"
    by (simp add: r2_def request_42_def decimal_int_1 cstr_def char_defs)
  have "pbind (rvpf_pipe_addEngineResult (Some request_42) (Some ''Q'') (Some ''2020-01-01'') None
            (Some ''1'')) (\<lambda>r1.
     pbind (rvpf_pipe_clearEngineResults (Some r1)) (\<lambda>r2.
       rvpf_pipe_endEngineRequest (Some r2) \<lparr>io_stdin = [], io_stdout = []\<rparr>)) =
     pbind (pbind (rvpf_pipe_addEngineResult (Some request_42) (Some ''Q'') (Some ''2020-01-01'') None
            (Some ''1'')) (\<lambda>r1. rvpf_pipe_clearEngineResults (Some r1))) (\<lambda>r2.
       rvpf_pipe_endEngineRequest (Some r2) \<lparr>io_stdin = [], io_stdout = []\<rparr>)"
    by (simp add: pbind_def split: sum.splits)
  then show ?thesis
    by (simp add: a pbind_Inr e)
qed

section \<open>TLS stream: the latched status\<close>

definition no_traffic :: connection where
  "no_traffic = \<lparr>cn_sent = [], cn_writes = [], cn_reads = []\<rparr>"

definition plain_library :: openssl where
  "plain_library =
     \<lparr>lib_SSL_CTX_new = True, lib_BIO_new = Some no_traffic, lib_BIO_do_connect = 1,
      lib_SSL_CTX_load_verify_locations = True,
      lib_SSL_CTX_use_certificate_chain_file = True,
      lib_SSL_CTX_use_PrivateKey_file = True,
      lib_SSL_CTX_set_cipher_list = True,
      lib_SSL_new = True, lib_SSL_connect = 1, lib_SSL_get_peer_certificate = True\<rparr>"

lemma cstr_host: "cstr ''host'' = ''host''" "cstr ''host:1'' = ''host:1''"
  by (simp_all add: cstr_def NUL_def)

lemma strrchr_host: "strrchr ''host'' COLON = None" "strrchr ''host:1'' COLON = Some 4"
  by (simp_all add: strrchr_def cstr_host COLON_def)

lemma strtoul_1: "strtoul ''1'' = (1, 1)"
  by (simp add: strtoul_def cstr_def NUL_def isspace_def isdigit_def digits_value_def
      char_defs Let_def)

lemma open_bad_address:
  "rvpf_ssl_open plain_library rvpf_ssl_create (Some ''host'') =
     (6, rvpf_ssl_create\<lparr>ssl_status := RVPF_SSL_BAD_ADDRESS\<rparr>)"
  by (simp add: rvpf_ssl_open_def rvpf_ssl_isOpen_def rvpf_ssl_create_def open_address_def
      strrchr_host rvpf_ssl_failed_def)

lemma open_after_bad_address:
  "rvpf_ssl_open plain_library (rvpf_ssl_create\<lparr>ssl_status := RVPF_SSL_BAD_ADDRESS\<rparr>)
       (Some ''host:1'') =
     (0, rvpf_ssl_create\<lparr>ssl_host := Some ''host'', ssl_port := 1, ssl_bio := Some no_traffic\<rparr>)"
  by (simp add: rvpf_ssl_open_def rvpf_ssl_isOpen_def rvpf_ssl_create_def open_address_def
      strrchr_host rvpf_ssl_failed_def rvpf_ssl_succeeded_def strtoul_1 cstr_host
      saveString_def open_connect_def plain_library_def Let_def cstr_def NUL_def)


text \<open>
  Claim C7, as the code has it. On a TLS-stream context whose status is not \<open>OK\<close>,
  \<^verbatim>\<open>rvpf_ssl_send\<close> and \<^verbatim>\<open>rvpf_ssl_receive\<close> return 0 and \<^verbatim>\<open>rvpf_ssl_setTrust\<close> and
  \<^verbatim>\<open>rvpf_ssl_setCertificate\<close> return, all four with the context as it was: nothing is
  written to or read from the connection and the status stays, until
  \<^verbatim>\<open>rvpf_ssl_clearError\<close> sets it to \<open>OK\<close>. \<^verbatim>\<open>rvpf_ssl_open\<close> and \<^verbatim>\<open>rvpf_ssl_close\<close> do not look
  at the status: \<^verbatim>\<open>rvpf_ssl_open\<close> replaces it by \<open>ILLEGAL_STATE\<close> when the context is open
  and otherwise does what it does once the error is cleared, and \<^verbatim>\<open>rvpf_ssl_close\<close> closes
  the connection.
\<close>

theorem failed_context_operations:
  assumes "rvpf_ssl_failed context"
  shows "rvpf_ssl_send context buffer sz = (0, context) \<and>
    rvpf_ssl_receive context into sz = (0, [], context) \<and>
    rvpf_ssl_setTrust lib context filePath directoryPath = context \<and>
    rvpf_ssl_setCertificate lib context filePath = context \<and>
    rvpf_ssl_succeeded (rvpf_ssl_clearError context) \<and>
    rvpf_ssl_open lib context address =
      (if rvpf_ssl_isOpen context
       then (ssl_code RVPF_SSL_ILLEGAL_STATE, context\<lparr>ssl_status := RVPF_SSL_ILLEGAL_STATE\<rparr>)
       else rvpf_ssl_open lib (rvpf_ssl_clearError context) address) \<and>
    rvpf_ssl_close context =
      (ssl_code (ssl_status context), context\<lparr>ssl_ssl := False, ssl_bio := None\<rparr>)"
  using assms
  by (simp add: rvpf_ssl_send_def rvpf_ssl_receive_def rvpf_ssl_setTrust_def
      rvpf_ssl_setCertificate_def rvpf_ssl_succeeded_def rvpf_ssl_failed_def
      rvpf_ssl_clearError_def rvpf_ssl_open_def rvpf_ssl_isOpen_def rvpf_ssl_close_def)


text \<open>The context left by an \<^verbatim>\<open>rvpf_ssl_open\<close> with an address without a colon.\<close>

theorem failed_context_operations_witness:
  "rvpf_ssl_failed (rvpf_ssl_create\<lparr>ssl_status := RVPF_SSL_BAD_ADDRESS\<rparr>) \<and>
   rvpf_ssl_send (rvpf_ssl_create\<lparr>ssl_status := RVPF_SSL_BAD_ADDRESS\<rparr>) (Some ''x'') 1 =
     (0, rvpf_ssl_create\<lparr>ssl_status := RVPF_SSL_BAD_ADDRESS\<rparr>) \<and>
   rvpf_ssl_receive (rvpf_ssl_create\<lparr>ssl_status := RVPF_SSL_BAD_ADDRESS\<rparr>) True 1 =
     (0, [], rvpf_ssl_create\<lparr>ssl_status := RVPF_SSL_BAD_ADDRESS\<rparr>) \<and>
   rvpf_ssl_setTrust plain_library (rvpf_ssl_create\<lparr>ssl_status := RVPF_SSL_BAD_ADDRESS\<rparr>)
       (Some ''f'') None =
     rvpf_ssl_create\<lparr>ssl_status := RVPF_SSL_BAD_ADDRESS\<rparr> \<and>
   rvpf_ssl_setCertificate plain_library (rvpf_ssl_create\<lparr>ssl_status := RVPF_SSL_BAD_ADDRESS\<rparr>)
       (Some ''f'') =
     rvpf_ssl_create\<lparr>ssl_status := RVPF_SSL_BAD_ADDRESS\<rparr> \<and>
   rvpf_ssl_open plain_library (rvpf_ssl_create\<lparr>ssl_status := RVPF_SSL_BAD_ADDRESS\<rparr>)
       (Some ''host:1'') =
     rvpf_ssl_open plain_library rvpf_ssl_create (Some ''host:1'')"
  using failed_context_operations[of "rvpf_ssl_create\<lparr>ssl_status := RVPF_SSL_BAD_ADDRESS\<rparr>"
      "Some ''x''" 1 True plain_library "Some ''f''" None "Some ''host:1''"]
  by (simp add: rvpf_ssl_failed_def rvpf_ssl_isOpen_def rvpf_ssl_create_def
      rvpf_ssl_clearError_def)

text \<open>
  Claim C7 as stated fails for \<^verbatim>\<open>rvpf_ssl_open\<close>. An \<^verbatim>\<open>rvpf_ssl_open\<close> with an address without
  a colon leaves the new context closed with the status \<open>BAD_ADDRESS\<close>; with no
  \<^verbatim>\<open>rvpf_ssl_clearError\<close> in between, the next \<^verbatim>\<open>rvpf_ssl_open\<close> sets the status to \<open>OK\<close>, saves
  the host and the port and connects.
\<close>

theorem open_on_failed_context_counterexample:
  "rvpf_ssl_open plain_library rvpf_ssl_create (Some ''host'') =
     (6, rvpf_ssl_create\<lparr>ssl_status := RVPF_SSL_BAD_ADDRESS\<rparr>) \<and>
   rvpf_ssl_open plain_library (rvpf_ssl_create\<lparr>ssl_status := RVPF_SSL_BAD_ADDRESS\<rparr>)
       (Some ''host:1'') =
     (0, rvpf_ssl_create\<lparr>ssl_host := Some ''host'', ssl_port := 1, ssl_bio := Some no_traffic\<rparr>)"
  by (simp add: open_bad_address open_after_bad_address)

section \<open>XPVPC client: document ids and automatic flush\<close>

subsection \<open>What building the text leaves as it is\<close>

lemma addChar_frame [simp]:
  "xc_id (addChar c ch) = xc_id c"
  "xc_pending (addChar c ch) = xc_pending c"
  "xc_ssl (addChar c ch) = xc_ssl c"
  "xc_client (addChar c ch) = xc_client c"
  "xc_status (addChar c ch) = xc_status c"
  "xc_limit (addChar c ch) = xc_limit c"
  by (simp_all add: addChar_def Let_def)

lemma foldl_addChar_frame [simp]:
  "xc_id (foldl addChar c s) = xc_id c"
  "xc_pending (foldl addChar c s) = xc_pending c"
  "xc_ssl (foldl addChar c s) = xc_ssl c"
  "xc_client (foldl addChar c s) = xc_client c"
  "xc_status (foldl addChar c s) = xc_status c"
  "xc_limit (foldl addChar c s) = xc_limit c"
  by (induction s arbitrary: c; simp)+

lemma addText_frame [simp]:
  "xc_id (addText c s) = xc_id c"
  "xc_pending (addText c s) = xc_pending c"
  "xc_ssl (addText c s) = xc_ssl c"
  "xc_client (addText c s) = xc_client c"
  "xc_status (addText c s) = xc_status c"
  "xc_limit (addText c s) = xc_limit c"
  by (simp_all add: addText_def)

lemma addLong_frame [simp]:
  "xc_id (addLong c n) = xc_id c"
  "xc_pending (addLong c n) = xc_pending c"
  "xc_ssl (addLong c n) = xc_ssl c"
  "xc_client (addLong c n) = xc_client c"
  "xc_limit (addLong c n) = xc_limit c"
  by (simp_all add: addLong_def)

text \<open>A \<open>long long\<close> has at most 19 digits: the array of \<^verbatim>\<open>_addLong\<close> is large enough.\<close>

lemma long_digits_length:
  "n < 10 ^ k \<Longrightarrow> 0 < k \<Longrightarrow> length (long_digits n) \<le> k"
proof (induction n arbitrary: k rule: long_digits.induct)
  case (1 n)
  show ?case
  proof (cases "c_div10 n > 0")
    case True
    then have n: "n \<ge> 10" and d: "c_div10 n = n div 10"
      by (auto simp: c_div10_def split: if_splits)
    from n "1.prems" have k: "k \<noteq> 1"
      by auto
    with "1.prems" obtain j where j: "k = Suc j" "0 < j"
      by (cases k) auto
    from "1.prems" j have "n div 10 < 10 ^ j"
      by simp
    with "1.IH"[OF True, of j] j d have "length (long_digits (c_div10 n)) \<le> j"
      by simp
    with True j show ?thesis
      by (subst long_digits.simps) simp
  next
    case False
    with "1.prems" show ?thesis
      by (subst long_digits.simps) (cases k; simp)
  qed
qed

lemma sint_64_digits: "length (long_digits (sint (w :: 64 word))) \<le> 20"
proof -
  have "sint w < 2 ^ 63"
    using sint_lt[of w] by simp
  also have "(2::int) ^ 63 < 10 ^ 20"
    by simp
  finally show ?thesis
    by (rule long_digits_length) simp
qed

lemma char_value_digits: "length (long_digits (char_value ch)) \<le> 20"
proof -
  have "char_value ch < 2 ^ 7"
    unfolding char_value_def using sint_lt[of "of_char ch :: 8 word"] by simp
  also have "(2::int) ^ 7 < 10 ^ 20"
    by simp
  finally show ?thesis
    by (rule long_digits_length) simp
qed

lemma addLong_status:
  "length (long_digits n) \<le> 20 \<Longrightarrow> xc_status (addLong c n) = xc_status c"
  by (simp add: addLong_def)

lemma addLong_id_status [simp]: "xc_status (addLong c (sint (w :: 64 word))) = xc_status c"
  by (simp add: addLong_status sint_64_digits)

lemma addLong_char_status [simp]: "xc_status (addLong c (char_value ch)) = xc_status c"
  by (simp add: addLong_status char_value_digits)

lemma addEncoded_char_frame [simp]:
  "xc_id (addEncoded_char q c ch) = xc_id c"
  "xc_pending (addEncoded_char q c ch) = xc_pending c"
  "xc_ssl (addEncoded_char q c ch) = xc_ssl c"
  "xc_client (addEncoded_char q c ch) = xc_client c"
  "xc_status (addEncoded_char q c ch) = xc_status c"
  "xc_limit (addEncoded_char q c ch) = xc_limit c"
  by (simp_all add: addEncoded_char_def)

lemma foldl_addEncoded_char_frame [simp]:
  "xc_id (foldl (addEncoded_char q) c s) = xc_id c"
  "xc_pending (foldl (addEncoded_char q) c s) = xc_pending c"
  "xc_ssl (foldl (addEncoded_char q) c s) = xc_ssl c"
  "xc_client (foldl (addEncoded_char q) c s) = xc_client c"
  "xc_status (foldl (addEncoded_char q) c s) = xc_status c"
  "xc_limit (foldl (addEncoded_char q) c s) = xc_limit c"
  by (induction s arbitrary: c; simp)+

lemma addEncoded_frame [simp]:
  "xc_id (addEncoded c s q) = xc_id c"
  "xc_pending (addEncoded c s q) = xc_pending c"
  "xc_ssl (addEncoded c s q) = xc_ssl c"
  "xc_client (addEncoded c s q) = xc_client c"
  "xc_status (addEncoded c s q) = xc_status c"
  "xc_limit (addEncoded c s q) = xc_limit c"
  by (simp_all add: addEncoded_def split: option.splits)

lemma element_text_frame [simp]:
  "xc_id (element_text c e s) = xc_id c"
  "xc_pending (element_text c e s) = xc_pending c"
  "xc_ssl (element_text c e s) = xc_ssl c"
  "xc_client (element_text c e s) = xc_client c"
  "xc_status (element_text c e s) = xc_status c"
  "xc_limit (element_text c e s) = xc_limit c"
  by (simp_all add: element_text_def Let_def)

lemma value_text_frame [simp]:
  "xc_id (value_text c point stamp state v) = xc_id c"
  "xc_pending (value_text c point stamp state v) = xc_pending c"
  "xc_ssl (value_text c point stamp state v) = xc_ssl c"
  "xc_client (value_text c point stamp state v) = xc_client c"
  "xc_status (value_text c point stamp state v) = xc_status c"
  "xc_limit (value_text c point stamp state v) = xc_limit c"
  by (simp_all add: value_text_def Let_def split: option.splits state_ptr.splits)

lemma messages_text_frame [simp]:
  "xc_id (messages_text c) = xc_id c + 1"
  "xc_pending (messages_text c) = xc_pending c"
  "xc_ssl (messages_text c) = xc_ssl c"
  "xc_client (messages_text c) = xc_client c"
  "xc_status (messages_text c) = xc_status c"
  "xc_limit (messages_text c) = xc_limit c"
  by (simp_all add: messages_text_def Let_def)

lemma login_text_frame [simp]:
  "xc_id (login_text c user password) = xc_id c + 1"
  "xc_pending (login_text c user password) = xc_pending c"
  "xc_ssl (login_text c user password) = xc_ssl c"
  "xc_client (login_text c user password) = xc_client c"
  "xc_status (login_text c user password) = xc_status c"
  "xc_limit (login_text c user password) = xc_limit c"
  by (simp_all add: login_text_def Let_def)


subsection \<open>What sending and receiving leave as they are\<close>

lemma sendText_loop_frame0:
  "xc_id (sendText_loop c) = xc_id c \<and> xc_pending (sendText_loop c) = xc_pending c \<and>
   xc_client (sendText_loop c) = xc_client c \<and> xc_status (sendText_loop c) = xc_status c"
proof (induction c rule: sendText_loop.induct)
  case (1 c)
  show ?case
  proof (cases "xc_position c < xc_limit c")
    case False
    then have "sendText_loop c = c"
      by (subst sendText_loop.simps) simp
    then show ?thesis by simp
  next
    case True
    obtain count ssl where s:
      "rvpf_ssl_send (xc_ssl c) (Some (drop (xc_position c) (xc_buffer c)))
         (xc_limit c - xc_position c) = (count, ssl)"
      by force
    show ?thesis
    proof (cases "rvpf_ssl_failed ssl")
      case True
      with \<open>xc_position c < xc_limit c\<close> s have "sendText_loop c = c\<lparr>xc_ssl := ssl\<rparr>"
        by (subst sendText_loop.simps) simp
      then show ?thesis by simp
    next
      case False
      with \<open>xc_position c < xc_limit c\<close> s have
        "sendText_loop c =
           sendText_loop (c\<lparr>xc_ssl := ssl, xc_position := nat (int (xc_position c) + count)\<rparr>)"
        by (subst sendText_loop.simps) simp
      with 1[OF \<open>xc_position c < xc_limit c\<close> refl s[symmetric] refl False] show ?thesis
        by simp
    qed
  qed
qed

lemma sendText_loop_frame [simp]:
  "xc_id (sendText_loop c) = xc_id c"
  "xc_pending (sendText_loop c) = xc_pending c"
  "xc_client (sendText_loop c) = xc_client c"
  "xc_status (sendText_loop c) = xc_status c"
  by (simp_all add: sendText_loop_frame0)

lemma sendText_frame [simp]:
  "xc_id (sendText c) = xc_id c"
  "xc_pending (sendText c) = xc_pending c"
  "xc_client (sendText c) = xc_client c"
  "xc_status (sendText c) = xc_status c"
  by (simp_all add: sendText_def resetText_def)

lemma scan_line_frame:
  "scan_line c n = (found, c') \<Longrightarrow>
     xc_id c' = xc_id c \<and> xc_pending c' = xc_pending c \<and> xc_client c' = xc_client c \<and>
     xc_status c' = xc_status c \<and> xc_ssl c' = xc_ssl c \<and> xc_size c' = xc_size c \<and>
     xc_position c' = xc_position c"
proof (induction c n arbitrary: c' rule: scan_line.induct)
  case (1 c0 n)
  show ?case
  proof (cases "xc_buffer c0 ! xc_limit c0 = LF")
    case True
    with "1.prems" show ?thesis
      by (auto simp: scan_line.simps[of c0 n])
  next
    case False
    note nl = this
    show ?thesis
    proof (cases "n - 1 > 0")
      case True
      with nl "1.prems" have
        "scan_line (c0\<lparr>xc_limit := xc_limit c0 + 1\<rparr>) (n - 1) = (found, c')"
        by (auto simp: scan_line.simps[of c0 n] Let_def)
      from "1.IH"[OF nl refl True this] show ?thesis by simp
    next
      case False
      with nl "1.prems" show ?thesis
        by (auto simp: scan_line.simps[of c0 n] Let_def)
    qed
  qed
qed

text \<open>\<^verbatim>\<open>_receiveLine\<close> sets no other status than \<open>INTERNAL_ERROR\<close> and
  \<open>UNEXPECTED_RESPONSE\<close>.\<close>

lemma receiveLine_loop_frame0:
  "xc_id (receiveLine_loop c) = xc_id c \<and> xc_pending (receiveLine_loop c) = xc_pending c \<and>
   xc_client (receiveLine_loop c) = xc_client c \<and>
   xc_position (receiveLine_loop c) = xc_position c \<and>
   xc_status (receiveLine_loop c) \<in>
     {xc_status c, RVPF_XPVPC_INTERNAL_ERROR, RVPF_XPVPC_UNEXPECTED_RESPONSE}"
proof (induction c rule: receiveLine_loop.induct)
  case (1 c)
  show ?case
  proof (cases "xc_limit c < xc_size c - 1")
    case False
    then have "receiveLine_loop c =
        (if xc_limit c \<ge> xc_size c then c\<lparr>xc_status := RVPF_XPVPC_UNEXPECTED_RESPONSE\<rparr> else c)"
      by (subst receiveLine_loop.simps) simp
    then show ?thesis by simp
  next
    case True
    obtain count bytes ssl where r:
      "rvpf_ssl_receive (xc_ssl c) True (xc_size c - 1 - xc_limit c) = (count, bytes, ssl)"
      by (metis prod_cases3)
    let ?c1 = "c\<lparr>xc_ssl := ssl,
        xc_buffer := store_string (xc_buffer c) (xc_limit c) bytes\<rparr>"
    let ?c2 = "?c1\<lparr>xc_buffer := (xc_buffer ?c1)[nat (int (xc_limit ?c1) + count) := NUL]\<rparr>"
    obtain found c3 where sc: "scan_line ?c2 (nat count) = (found, c3)"
      by force
    have u: "receiveLine_loop c =
       (if rvpf_ssl_failed ssl then ?c1
        else if int (xc_limit ?c1) + count \<ge> int (xc_size ?c1 - 1)
          then ?c1\<lparr>xc_status := RVPF_XPVPC_INTERNAL_ERROR\<rparr>
        else if found then c3 else receiveLine_loop c3)"
      using True r sc
      by (subst receiveLine_loop.simps) (simp add: Let_def)
    from scan_line_frame[OF sc] have f3:
      "xc_id c3 = xc_id c" "xc_pending c3 = xc_pending c" "xc_client c3 = xc_client c"
      "xc_status c3 = xc_status c" "xc_position c3 = xc_position c"
      by simp_all
    show ?thesis
    proof (cases "\<not> rvpf_ssl_failed ssl \<and> \<not> int (xc_limit ?c1) + count \<ge> int (xc_size ?c1 - 1)
        \<and> \<not> found")
      case False
      with u f3 show ?thesis
        by auto
    next
      case True
      with u have e: "receiveLine_loop c = receiveLine_loop c3"
        by simp
      from True have t:
        "\<not> rvpf_ssl_failed ssl" "\<not> int (xc_size ?c1 - 1) \<le> int (xc_limit ?c1) + count"
        "\<not> found"
        by simp_all
      from 1[OF \<open>xc_limit c < xc_size c - 1\<close> refl r[symmetric] refl refl t(1,2) refl refl
          sc[symmetric] t(3)] e f3
      show ?thesis
        by simp
    qed
  qed
qed

subsection \<open>The response line\<close>

text \<open>The characters of the buffer from \<open>position\<close> to \<open>limit\<close>, which \<^verbatim>\<open>_match\<close> and the loop
  over the digits read.\<close>

definition unread :: "rvpf_xpvpc_context \<Rightarrow> string" where
  "unread c = map (\<lambda>i. xc_buffer c ! i) [xc_position c ..< xc_limit c]"

text \<open>The number that the loop of \<^verbatim>\<open>_verifyResponse\<close> makes of a sequence of digits.\<close>

definition digits_word :: "64 word \<Rightarrow> string \<Rightarrow> 64 word" where
  "digits_word r ds = foldl (\<lambda>r ch. r * 10 + (of_char ch - of_char (CHR ''0''))) r ds"

text \<open>
  The reference of a response line, in the words of the specification: the line starts
  with \<open><done ref='\<close>, the digits of \<open>N\<close> and \<open>'/>\<close>.
\<close>

definition done_ref :: "string \<Rightarrow> 64 word option" where
  "done_ref line =
     (if take (length RESPONSE_START) line = RESPONSE_START then
        (let r = drop (length RESPONSE_START) line;
             ds = takeWhile isdigit r
         in if take (length RESPONSE_END) (drop (length ds) r) = RESPONSE_END
            then Some (digits_word 0 ds) else None)
      else None)"

lemma unread_Cons:
  "xc_position c < xc_limit c \<Longrightarrow>
     unread c = xc_buffer c ! xc_position c # unread (c\<lparr>xc_position := xc_position c + 1\<rparr>)"
  by (simp add: unread_def upt_conv_Cons)

lemma unread_Nil: "\<not> xc_position c < xc_limit c \<Longrightarrow> unread c = []"
  by (simp add: unread_def)

lemma unread_advance: "unread (c\<lparr>xc_position := xc_position c + n\<rparr>) = drop n (unread c)"
  by (simp add: unread_def drop_map add.commute)

lemma match_text_frame [simp]:
  "xc_id (match_text c s) = xc_id c"
  "xc_pending (match_text c s) = xc_pending c"
  "xc_client (match_text c s) = xc_client c"
  "xc_ssl (match_text c s) = xc_ssl c"
  "xc_limit (match_text c s) = xc_limit c"
  "xc_buffer (match_text c s) = xc_buffer c"
  by (induction s arbitrary: c; simp)+


lemma match_text_prefix:
  "take (length s) (unread c) = s \<Longrightarrow>
     match_text c s = c\<lparr>xc_position := xc_position c + length s\<rparr>"
proof (induction s arbitrary: c)
  case Nil
  show ?case by simp
next
  case (Cons a s)
  from Cons.prems have ne: "xc_position c < xc_limit c"
    by (cases "xc_position c < xc_limit c") (auto simp: unread_Nil)
  from Cons.prems unread_Cons[OF ne] have
    a: "xc_buffer c ! xc_position c = a"
    and r: "take (length s) (unread (c\<lparr>xc_position := xc_position c + 1\<rparr>)) = s"
    by simp_all
  from Cons.IH[OF r] ne a show ?case
    by simp
qed

lemma match_text_mismatch:
  "take (length s) (unread c) \<noteq> s \<Longrightarrow>
     xc_status (match_text c s) = RVPF_XPVPC_UNEXPECTED_RESPONSE"
proof (induction s arbitrary: c)
  case Nil
  then show ?case by simp
next
  case (Cons a s)
  show ?case
  proof (cases "xc_position c \<ge> xc_limit c \<or> xc_buffer c ! xc_position c \<noteq> a")
    case True
    then show ?thesis by simp
  next
    case False
    then have ne: "xc_position c < xc_limit c" and a: "xc_buffer c ! xc_position c = a"
      by simp_all
    from Cons.prems unread_Cons[OF ne] a have
      "take (length s) (unread (c\<lparr>xc_position := xc_position c + 1\<rparr>)) \<noteq> s"
      by simp
    from Cons.IH[OF this] False show ?thesis
      by simp
  qed
qed

lemma receivedId_loop_digits:
  "receivedId_loop c r =
     (digits_word r (takeWhile isdigit (unread c)),
      c\<lparr>xc_position := xc_position c + length (takeWhile isdigit (unread c))\<rparr>)"
proof (induction c r rule: receivedId_loop.induct)
  case (1 c r)
  show ?case
  proof (cases "xc_position c < xc_limit c \<and> isdigit (xc_buffer c ! xc_position c)")
    case True
    then have ne: "xc_position c < xc_limit c" and d: "isdigit (xc_buffer c ! xc_position c)"
      by simp_all
    have "receivedId_loop c r =
        receivedId_loop (c\<lparr>xc_position := xc_position c + 1\<rparr>)
          (r * 10 + (of_char (xc_buffer c ! xc_position c) - of_char (CHR ''0'')))"
      using True by (subst receivedId_loop.simps) simp
    with 1[OF True] unread_Cons[OF ne] d show ?thesis
      by (simp add: digits_word_def)
  next
    case False
    then have "takeWhile isdigit (unread c) = []"
      by (cases "xc_position c < xc_limit c") (auto simp: unread_Nil unread_Cons)
    moreover from False have "receivedId_loop c r = (r, c)"
      by (subst receivedId_loop.simps) auto
    ultimately show ?thesis
      by (simp add: digits_word_def)
  qed
qed

lemma receiveLine_frame [simp]:
  "xc_id (receiveLine c) = xc_id c"
  "xc_pending (receiveLine c) = xc_pending c"
  "xc_client (receiveLine c) = xc_client c"
  by (simp_all add: receiveLine_def receiveLine_loop_frame0)

lemma receiveLine_status:
  "xc_status (receiveLine c) \<in>
     {xc_status c, RVPF_XPVPC_INTERNAL_ERROR, RVPF_XPVPC_UNEXPECTED_RESPONSE}"
  using receiveLine_loop_frame0[of "c\<lparr>xc_limit := 0, xc_position := 0\<rparr>"]
  by (auto simp add: receiveLine_def)

lemma cstr_RESPONSE [simp]:
  "cstr RESPONSE_START = RESPONSE_START" "cstr RESPONSE_END = RESPONSE_END"
  by (simp_all add: cstr_def RESPONSE_START_def RESPONSE_END_def APOS_def NUL_def)


lemma verifyResponse_frame [simp]:
  "xc_id (verifyResponse c e) = xc_id c"
  "xc_pending (verifyResponse c e) = xc_pending c"
  "xc_client (verifyResponse c e) = xc_client c"
  by (simp_all add: verifyResponse_def Let_def resetText_def receivedId_loop_digits)

lemma verifyResponse_ssl: "xc_ssl (verifyResponse c e) = xc_ssl (receiveLine c)"
  by (simp add: verifyResponse_def Let_def resetText_def receivedId_loop_digits)

lemma verifyResponse_status:
  "xc_status (verifyResponse c e) =
     (if xc_status (receiveLine c) \<noteq> RVPF_XPVPC_OK then xc_status (receiveLine c)
      else case done_ref (unread (receiveLine c)) of
             None \<Rightarrow> RVPF_XPVPC_UNEXPECTED_RESPONSE
           | Some n \<Rightarrow> if n = e then RVPF_XPVPC_OK else RVPF_XPVPC_MISMATCHED_ID)"
proof (cases "xc_status (receiveLine c) \<noteq> RVPF_XPVPC_OK")
  case True
  then show ?thesis
    by (simp add: verifyResponse_def Let_def)
next
  case False
  define c1 where "c1 = receiveLine c"
  from False have ok: "xc_status c1 = RVPF_XPVPC_OK"
    by (simp add: c1_def)
  show ?thesis
  proof (cases "take (length RESPONSE_START) (unread c1) = RESPONSE_START")
    case False
    from match_text_mismatch[OF this] ok show ?thesis
      by (simp add: verifyResponse_def Let_def done_ref_def c1_def[symmetric] False)
  next
    case True
    note start = this
    define c2 where "c2 = c1\<lparr>xc_position := xc_position c1 + length RESPONSE_START\<rparr>"
    from match_text_prefix[OF start] have m: "match_text c1 RESPONSE_START = c2"
      by (simp add: c2_def)
    have ok2: "xc_status c2 = RVPF_XPVPC_OK"
      by (simp add: c2_def ok)
    have u2: "unread c2 = drop (length RESPONSE_START) (unread c1)"
      by (simp add: c2_def unread_advance)
    define ds where "ds = takeWhile isdigit (unread c2)"
    define c3 where "c3 = c2\<lparr>xc_position := xc_position c2 + length ds\<rparr>"
    have l: "receivedId_loop c2 0 = (digits_word 0 ds, c3)"
      by (simp add: receivedId_loop_digits ds_def c3_def)
    have u3: "unread c3 = drop (length ds) (unread c2)"
      by (simp add: c3_def unread_advance)
    have ok3: "xc_status c3 = RVPF_XPVPC_OK"
      by (simp add: c3_def c2_def ok)
    have v: "verifyResponse c e =
        (let c4 = match_text c3 RESPONSE_END
         in if xc_status c4 \<noteq> RVPF_XPVPC_OK then c4
            else resetText (if digits_word 0 ds \<noteq> e
                            then c4\<lparr>xc_status := RVPF_XPVPC_MISMATCHED_ID\<rparr> else c4))"
      using ok ok2 by (simp add: verifyResponse_def Let_def c1_def[symmetric] m l)
    have d: "done_ref (unread c1) =
        (if take (length RESPONSE_END) (unread c3) = RESPONSE_END
         then Some (digits_word 0 ds) else None)"
      by (simp add: done_ref_def start Let_def u3 ds_def u2)
    show ?thesis
    proof (cases "take (length RESPONSE_END) (unread c3) = RESPONSE_END")
      case True
      from match_text_prefix[OF True] ok3 show ?thesis
        by (simp add: v d True Let_def resetText_def c1_def[symmetric] ok)
    next
      case False
      from match_text_mismatch[OF False] show ?thesis
        by (simp add: v d False Let_def c1_def[symmetric] ok)
    qed
  qed
qed

end
